(* ===== verification/Prelude.thy ===== *)
theory Prelude
  imports Main "HOL-Library.AList"
begin

text \<open>
  Shared vocabulary of the autoui model: Python values and exceptions as
  datatypes, the few \<open>str\<close> methods the sources call (\<open>startswith\<close>-style
  prefix tests, the substring test \<open>x in s\<close>, \<open>str.split\<close> with a one-character
  separator, \<open>str.replace\<close> of one character) and Python dictionaries as
  association lists in insertion order (\<open>AList.update\<close> keeps the position of
  an existing key and appends a new one, as \<open>d[k] = v\<close> does).
  The generic lemmas on these are collected in \<open>py_str_simps\<close> and
  \<open>py_dict_simps\<close> for the component theories.
\<close>

named_theorems py_str_simps "rewrite rules for the Python string helpers"
named_theorems py_dict_simps "rewrite rules for Python dictionaries as association lists"

section \<open>Python values and exceptions\<close>

text \<open>
  Values that reach a target function: from argparse (strings, booleans, the
  value of an evaluated default) and from \<open>json.loads\<close> (strings, numbers,
  booleans, \<open>null\<close>, lists and objects). Floats are not distinguished from the
  other scalars the model never inspects.
\<close>

datatype pyval =
    PyNone
  | PyBool bool
  | PyInt int
  | PyStr string
  | PyList "pyval list"
  | PyDict "(string \<times> pyval) list"

text \<open>An exception raised by a target function: its class name, its message,
  the text \<open>traceback.format_exception\<close> renders for it, and whether its class
  derives from \<open>Exception\<close>. Every class does but \<open>SystemExit\<close> (raised by
  \<open>sys.exit()\<close>), \<open>KeyboardInterrupt\<close>, \<open>GeneratorExit\<close> and other direct
  subclasses of \<open>BaseException\<close>, which \<open>except Exception\<close> does not catch.\<close>

record py_exception =
  exc_type :: string
  exc_msg :: string
  exc_trace :: string
  exc_is_exception :: bool

text \<open>
  Every \<open>raise\<close> of the sources and every exception the sources let through is
  one constructor. \<open>DocMismatch\<close> and \<open>SelectWithoutValues\<close> are the two
  \<open>ValueError\<close>s of \<open>parse_function_doc\<close> with the data their messages print;
  \<open>ArgparseError\<close> is argparse's \<open>parser.error\<close> (usage and exit status 2);
  \<open>Raised\<close> is an exception of the target function itself.
\<close>

datatype py_error =
    DocMismatch "string list" "string list" "(string \<times> string) list"
  | SelectWithoutValues string
  | ValueError string
  | KeyError string
  | TypeError string
  | AttributeError string
  | IndexError string
  | ArgparseError string
  | EvalError string
  | Raised py_exception

type_synonym 'a result = "py_error + 'a"
type_synonym 'v pydict = "(string \<times> 'v) list"

section \<open>Strings\<close>

definition starts_with :: "string \<Rightarrow> string \<Rightarrow> bool" where
  "starts_with p s \<longleftrightarrow> take (length p) s = p"

text \<open>Python's \<open>n in h\<close> for two strings: a substring test.\<close>

definition py_str_in :: "string \<Rightarrow> string \<Rightarrow> bool" where
  "py_str_in n h \<longleftrightarrow> list_ex (\<lambda>i. starts_with n (drop i h)) [0..<Suc (length h)]"

text \<open>\<open>s.split(c)\<close> with a separator of one character: every occurrence of
  \<open>c\<close> separates two pieces, so the result is never empty.\<close>

fun py_split :: "char \<Rightarrow> string \<Rightarrow> string list" where
  "py_split c [] = [[]]"
| "py_split c (x # xs) =
     (let r = py_split c xs in if x = c then [] # r else (x # hd r) # tl r)"

text \<open>\<open>c.join(ws)\<close>.\<close>

fun py_join :: "char \<Rightarrow> string list \<Rightarrow> string" where
  "py_join c [] = []"
| "py_join c [w] = w"
| "py_join c (w # v # ws) = w @ c # py_join c (v # ws)"

text \<open>\<open>sep.join(ws)\<close> for a separator of any length, as in \<open>", ".join(ws)\<close>.\<close>

fun py_join_str :: "string \<Rightarrow> string list \<Rightarrow> string" where
  "py_join_str sep [] = []"
| "py_join_str sep [w] = w"
| "py_join_str sep (w # v # ws) = w @ sep @ py_join_str sep (v # ws)"

text \<open>\<open>s.replace(a, b)\<close> for one character each.\<close>

definition py_replace_char :: "char \<Rightarrow> char \<Rightarrow> string \<Rightarrow> string" where
  "py_replace_char a b s = map (\<lambda>x. if x = a then b else x) s"

text \<open>A Python identifier (ASCII): a letter or \<open>_\<close>, then letters, digits and \<open>_\<close>.\<close>

definition ident_start :: "char \<Rightarrow> bool" where
  "ident_start c \<longleftrightarrow>
     (let n = (of_char c :: nat) in n = 95 \<or> (65 \<le> n \<and> n \<le> 90) \<or> (97 \<le> n \<and> n \<le> 122))"

definition ident_char :: "char \<Rightarrow> bool" where
  "ident_char c \<longleftrightarrow> ident_start c \<or> (let n = (of_char c :: nat) in 48 \<le> n \<and> n \<le> 57)"

definition py_identifier :: "string \<Rightarrow> bool" where
  "py_identifier s \<longleftrightarrow> (case s of [] \<Rightarrow> False | c # cs \<Rightarrow> ident_start c \<and> list_all ident_char cs)"

section \<open>Dictionaries\<close>

text \<open>\<open>d[k]\<close>: \<open>KeyError\<close> when the key is absent.\<close>

definition dict_getitem :: "'v pydict \<Rightarrow> string \<Rightarrow> 'v result" where
  "dict_getitem d k = (case map_of d k of None \<Rightarrow> Inl (KeyError k) | Some v \<Rightarrow> Inr v)"

text \<open>The dictionary built by a loop \<open>for k, v in items: d[k] = v\<close>.\<close>

definition dict_of_items :: "(string \<times> 'v) list \<Rightarrow> 'v pydict" where
  "dict_of_items kvs = foldl (\<lambda>d (k, v). AList.update k v d) [] kvs"

section \<open>Lemmas\<close>

lemma starts_with_iff [py_str_simps]: "starts_with p s \<longleftrightarrow> (\<exists>u. s = p @ u)"
  unfolding starts_with_def by (metis append_eq_conv_conj)

lemma starts_with_append [py_str_simps]: "starts_with p (p @ u)"
  by (simp add: starts_with_def)

lemma py_str_in_iff [py_str_simps]: "py_str_in n h \<longleftrightarrow> (\<exists>a b. h = a @ n @ b)"
proof
  assume "py_str_in n h"
  then have "\<exists>i. starts_with n (drop i h)"
    unfolding py_str_in_def list_ex_iff by blast
  then obtain i where "starts_with n (drop i h)" by blast
  then obtain u where "drop i h = n @ u" by (auto simp: starts_with_iff)
  then have "h = take i h @ n @ u" by (metis append_take_drop_id)
  then show "\<exists>a b. h = a @ n @ b" by blast
next
  assume "\<exists>a b. h = a @ n @ b"
  then obtain a b where h: "h = a @ n @ b" by blast
  then have "starts_with n (drop (length a) h)" by (simp add: starts_with_def)
  moreover have "length a < Suc (length h)" using h by simp
  ultimately show "py_str_in n h" by (auto simp: py_str_in_def list_ex_iff simp del: upt_Suc)
qed

lemma py_str_in_refl [py_str_simps]: "py_str_in s s"
  by (metis append.left_neutral append.right_neutral py_str_in_iff)

lemma py_split_not_Nil [simp]: "py_split c s \<noteq> []"
  by (induction s) (auto simp: Let_def)

lemma py_split_Cons_hd: "py_split c (x # xs) =
  (if x = c then [] # py_split c xs else (x # hd (py_split c xs)) # tl (py_split c xs))"
  by (simp add: Let_def)

lemma py_join_hd_tl:
  assumes "ws \<noteq> []"
  shows "py_join c ((x # hd ws) # tl ws) = x # py_join c ws"
  using assms by (cases ws; cases "tl ws") auto

lemma py_join_split [py_str_simps]: "py_join c (py_split c s) = s"
proof (induction s)
  case Nil
  then show ?case by simp
next
  case (Cons x xs)
  show ?case
  proof (cases "x = c")
    case True
    then show ?thesis using Cons.IH
      by (cases "py_split c xs") auto
  next
    case False
    then have "py_join c (py_split c (x # xs)) = x # py_join c (py_split c xs)"
      by (simp add: Let_def py_join_hd_tl)
    then show ?thesis using Cons.IH by simp
  qed
qed

lemma py_split_no_sep: "w \<in> set (py_split c s) \<Longrightarrow> c \<notin> set w"
proof (induction s arbitrary: w)
  case Nil
  then show ?case by simp
next
  case (Cons x xs)
  obtain r rs where r: "py_split c xs = r # rs"
    using py_split_not_Nil by (metis list.exhaust)
  with Cons show ?case by (auto simp: Let_def split: if_splits)
qed

lemma py_split_append_sep:
  "c \<notin> set w \<Longrightarrow> py_split c (w @ c # s) = w # py_split c s"
  by (induction w) (auto simp: Let_def)

lemma py_split_no_sep_single: "c \<notin> set w \<Longrightarrow> py_split c w = [w]"
  by (induction w) (auto simp: Let_def)

lemma py_split_join [py_str_simps]:
  "ws \<noteq> [] \<Longrightarrow> \<forall>w \<in> set ws. c \<notin> set w \<Longrightarrow> py_split c (py_join c ws) = ws"
proof (induction ws rule: induct_list012)
  case (2 x)
  then show ?case by (simp add: py_split_no_sep_single)
next
  case (3 x y zs)
  then show ?case by (simp add: py_split_append_sep)
qed simp

lemma py_join_str_one_char [py_str_simps]: "py_join_str [c] ws = py_join c ws"
  by (induction ws rule: py_join.induct) simp_all

lemma py_replace_char_length [py_str_simps]: "length (py_replace_char a b s) = length s"
  by (simp add: py_replace_char_def)

lemma py_replace_char_inverse [py_str_simps]:
  "b \<notin> set s \<Longrightarrow> py_replace_char b a (py_replace_char a b s) = s"
  by (induction s) (auto simp: py_replace_char_def)

lemma dict_getitem_Inr [py_dict_simps]: "dict_getitem d k = Inr v \<longleftrightarrow> map_of d k = Some v"
  by (simp add: dict_getitem_def split: option.splits)

lemma dict_getitem_Inl [py_dict_simps]: "dict_getitem d k = Inl e \<longleftrightarrow> map_of d k = None \<and> e = KeyError k"
  by (auto simp: dict_getitem_def split: option.splits)

lemma map_of_dict_of_items_aux:
  "map_of (foldl (\<lambda>d (k, v). AList.update k v d) d0 kvs) = foldl (\<lambda>m (k, v). m(k \<mapsto> v)) (map_of d0) kvs"
  by (induction kvs arbitrary: d0) (auto simp: update_conv')

lemma map_of_dict_of_items [py_dict_simps]: "map_of (dict_of_items kvs) = map_of (rev kvs)"
proof -
  have "\<And>m. foldl (\<lambda>m (k, v). m(k \<mapsto> v)) m kvs = m ++ map_of (rev kvs)"
    by (induction kvs) (auto simp: map_add_def fun_eq_iff split: option.splits)
  then show ?thesis by (simp add: dict_of_items_def map_of_dict_of_items_aux)
qed

lemma distinct_dict_of_items [py_dict_simps]: "distinct (map fst (dict_of_items kvs))"
proof -
  have "\<And>d. distinct (map fst d) \<Longrightarrow> distinct (map fst (foldl (\<lambda>d (k, v). AList.update k v d) d kvs))"
    by (induction kvs) (auto simp: distinct_update)
  then show ?thesis by (simp add: dict_of_items_def)
qed

lemma list_all2_set1: "list_all2 P xs ys \<Longrightarrow> x \<in> set xs \<Longrightarrow> \<exists>y \<in> set ys. P x y"
  by (induction xs ys rule: list_all2_induct) auto

lemma list_all2_set2: "list_all2 P xs ys \<Longrightarrow> y \<in> set ys \<Longrightarrow> \<exists>x \<in> set xs. P x y"
  by (induction xs ys rule: list_all2_induct) auto

end
