(* ===== verification/Argparse.thy ===== *)
theory Argparse
  imports Prelude
begin

text \<open>
  What \<open>argparse\<close> does with the parsers \<open>src/autoui/launcher.py\<close> builds. The
  library is a collaborator outside the repository; this theory models the part
  of it the launcher uses:
  \<^item> \<open>add_argument(name)\<close> for a positional argument and \<open>add_argument("-opt",
    action=...)\<close> for an option with the actions \<open>store_true\<close>, \<open>store_false\<close>
    and \<open>store\<close> (with its \<open>default\<close>). The destination of an option is its
    option string without the leading dashes, with \<open>-\<close> replaced by \<open>_\<close>
    (\<open>_get_optional_kwargs\<close>).
  \<^item> Parsing: every destination starts at its default (\<open>None\<close> for a positional);
    a token that starts with \<open>-\<close>, has another character, is not a negative
    number and has no space is an option; a known option sets its destination, a
    \<open>store\<close> option takes the next token as its value (a string: the launcher
    gives no \<open>type=\<close>); other tokens fill the positionals in order; unknown
    options and surplus tokens are collected and reported after the required
    positionals are checked, each by \<open>parser.error\<close> (\<open>ArgparseError\<close>).
  \<^item> Sub-commands (\<open>add_subparsers(dest=...)\<close>, \<open>required = True\<close>): the
    first token chooses the sub-parser by name (a later \<open>add_parser\<close> of the
    same name replaces the earlier one in the name map); the sub-parser parses the
    rest into a fresh namespace whose entries are then set on the parent's, so an
    entry of the child overwrites the parent's entry of the same name.
  Not modelled: abbreviations of long options, \<open>--opt=value\<close>, \<open>--\<close>, grouped
  short flags and \<open>-h\<close>.
\<close>

datatype arg_action = StoreTrue | StoreFalse | Store pyval

datatype argument =
    Positional string string
  | OptionalArg string string arg_action string

record command_parser =
  cmd_name :: string
  cmd_description :: "string option"
  cmd_arguments :: "argument list"

datatype mode_parser =
    SelectorParser string
  | DirectParser string "command_parser list"

type_synonym namespace = "(string \<times> pyval) list"

definition opt_dest :: "string \<Rightarrow> string" where
  "opt_dest s = py_replace_char CHR ''-'' CHR ''_'' (dropWhile (\<lambda>c. c = CHR ''-'') s)"

definition optional_argument :: "string \<Rightarrow> arg_action \<Rightarrow> string \<Rightarrow> argument" where
  "optional_argument opt act hlp = OptionalArg opt (opt_dest opt) act hlp"

fun arg_dest :: "argument \<Rightarrow> string" where
  "arg_dest (Positional d _) = d"
| "arg_dest (OptionalArg _ d _ _) = d"

fun arg_default :: "argument \<Rightarrow> pyval" where
  "arg_default (Positional _ _) = PyNone"
| "arg_default (OptionalArg _ _ StoreTrue _) = PyBool False"
| "arg_default (OptionalArg _ _ StoreFalse _) = PyBool True"
| "arg_default (OptionalArg _ _ (Store d) _) = d"

fun is_positional :: "argument \<Rightarrow> bool" where
  "is_positional (Positional _ _) = True"
| "is_positional (OptionalArg _ _ _ _) = False"

text \<open>\<open>setattr\<close> of each entry in turn.\<close>

definition ns_set_all :: "namespace \<Rightarrow> namespace \<Rightarrow> namespace" where
  "ns_set_all ns items = foldl (\<lambda>acc (k, v). AList.update k v acc) ns items"

definition defaults_namespace :: "argument list \<Rightarrow> namespace" where
  "defaults_namespace args = ns_set_all [] (map (\<lambda>a. (arg_dest a, arg_default a)) args)"

definition negative_number :: "string \<Rightarrow> bool" where
  "negative_number t \<longleftrightarrow>
     (case t of c # ds \<Rightarrow> c = CHR ''-'' \<and> ds \<noteq> [] \<and> list_all (\<lambda>x. x \<in> set ''0123456789'') ds | [] \<Rightarrow> False)"

definition looks_optional :: "string \<Rightarrow> bool" where
  "looks_optional t \<longleftrightarrow>
     2 \<le> length t \<and> hd t = CHR ''-'' \<and> \<not> negative_number t \<and> CHR '' '' \<notin> set t"

fun find_option :: "argument list \<Rightarrow> string \<Rightarrow> (string \<times> arg_action) option" where
  "find_option [] t = None"
| "find_option (Positional _ _ # as) t = find_option as t"
| "find_option (OptionalArg opt d act _ # as) t = (if opt = t then Some (d, act) else find_option as t)"

text \<open>The loop of \<open>_parse_known_args\<close>: the arguments, the positionals not yet
  filled, the tokens, the namespace and the unrecognised tokens so far.\<close>

fun consume :: "argument list \<Rightarrow> argument list \<Rightarrow> string list \<Rightarrow> namespace \<Rightarrow> string list \<Rightarrow>
    (namespace \<times> argument list \<times> string list) result" where
  "consume args pos [] ns extras = Inr (ns, pos, extras)"
| "consume args pos (t # ts) ns extras =
     (if looks_optional t then
        (case find_option args t of
           None \<Rightarrow> consume args pos ts ns (extras @ [t])
         | Some (d, StoreTrue) \<Rightarrow> consume args pos ts (AList.update d (PyBool True) ns) extras
         | Some (d, StoreFalse) \<Rightarrow> consume args pos ts (AList.update d (PyBool False) ns) extras
         | Some (d, Store _) \<Rightarrow>
             (case ts of
                [] \<Rightarrow> Inl (ArgparseError (''argument '' @ t @ '': expected one argument''))
              | v # ts' \<Rightarrow>
                  (if looks_optional v then Inl (ArgparseError (''argument '' @ t @ '': expected one argument''))
                   else consume args pos ts' (AList.update d (PyStr v) ns) extras)))
      else
        (case pos of
           [] \<Rightarrow> consume args pos ts ns (extras @ [t])
         | p # ps \<Rightarrow> consume args ps ts (AList.update (arg_dest p) (PyStr t) ns) extras))"

text \<open>\<open>parse_known_args\<close> of one parser followed by the checks of \<open>parse_args\<close>.\<close>

definition parse_command :: "argument list \<Rightarrow> string list \<Rightarrow> namespace result" where
  "parse_command args argv =
     (case consume args (filter is_positional args) argv (defaults_namespace args) [] of
        Inl e \<Rightarrow> Inl e
      | Inr (ns, pos, extras) \<Rightarrow>
          (if pos \<noteq> [] then
             Inl (ArgparseError (''the following arguments are required: '' @ py_join_str '', '' (map arg_dest pos)))
           else if extras \<noteq> [] then
             Inl (ArgparseError (''unrecognized arguments: '' @ py_join CHR '' '' extras))
           else Inr ns))"

fun mode_parser_name :: "mode_parser \<Rightarrow> string" where
  "mode_parser_name (SelectorParser n) = n"
| "mode_parser_name (DirectParser n _) = n"

text \<open>The launcher's top-level parser: \<open>mode_name\<close> chooses the mode; a direct
  mode's parser has a required sub-command \<open>program_name\<close>; a selector mode's
  parser has no argument.\<close>

definition parse_args :: "mode_parser list \<Rightarrow> string list \<Rightarrow> namespace result" where
  "parse_args modes argv =
     (case argv of
        [] \<Rightarrow> Inl (ArgparseError ''the following arguments are required: mode_name'')
      | m # rest \<Rightarrow>
          (case map_of (dict_of_items (map (\<lambda>p. (mode_parser_name p, p)) modes)) m of
             None \<Rightarrow> Inl (ArgparseError (''argument mode_name: invalid choice: '' @ m))
           | Some (SelectorParser _) \<Rightarrow>
               (case parse_command [] rest of
                  Inl e \<Rightarrow> Inl e
                | Inr sub \<Rightarrow> Inr (ns_set_all [(''mode_name'', PyStr m)] sub))
           | Some (DirectParser _ cmds) \<Rightarrow>
               (case rest of
                  [] \<Rightarrow> Inl (ArgparseError ''the following arguments are required: program_name'')
                | p # rest' \<Rightarrow>
                    (case map_of (dict_of_items (map (\<lambda>c. (cmd_name c, c)) cmds)) p of
                       None \<Rightarrow> Inl (ArgparseError (''argument program_name: invalid choice: '' @ p))
                     | Some c \<Rightarrow>
                         (case parse_command (cmd_arguments c) rest' of
                            Inl e \<Rightarrow> Inl e
                          | Inr sub \<Rightarrow>
                              Inr (ns_set_all [(''mode_name'', PyStr m)]
                                     (ns_set_all [(''program_name'', PyStr p)] sub)))))))"

text \<open>Every option's destination is computed from its option string, as
  \<open>add_argument\<close> does.\<close>

definition wf_arguments :: "argument list \<Rightarrow> bool" where
  "wf_arguments args \<longleftrightarrow> (\<forall>opt d act h. OptionalArg opt d act h \<in> set args \<longrightarrow> d = opt_dest opt)"

section \<open>Lemmas\<close>

lemma find_option_Some:
  "find_option args t = Some (d, act) \<Longrightarrow> \<exists>h. OptionalArg t d act h \<in> set args"
  by (induction args t rule: find_option.induct) (auto split: if_splits)

lemma find_option_member:
  assumes "OptionalArg opt d act h \<in> set args" and "distinct (map arg_dest args)" and "wf_arguments args"
  shows "find_option args opt = Some (d, act)"
  using assms
proof (induction args opt rule: find_option.induct)
  case (1 t)
  then show ?case by simp
next
  case (2 x y as t)
  then show ?case by (auto simp: wf_arguments_def)
next
  case (3 opt' d' act' h' as t)
  show ?case
  proof (cases "opt' = t")
    case True
    with "3.prems" have "d' = d"
      by (auto simp: wf_arguments_def) (metis arg_dest.simps(2) imageI)
    with True "3.prems" show ?thesis
      by (auto simp: wf_arguments_def) (metis arg_dest.simps(2) image_eqI)
  next
    case False
    with "3.prems" "3.IH" show ?thesis by (auto simp: wf_arguments_def)
  qed
qed

lemma find_option_dest_unique:
  assumes "find_option args t = Some (d, act')" and "OptionalArg opt d act h \<in> set args"
    and "distinct (map arg_dest args)" and "wf_arguments args"
  shows "t = opt \<and> act' = act"
proof -
  obtain h' where t: "OptionalArg t d act' h' \<in> set args" using find_option_Some [OF assms(1)] by blast
  then have "find_option args t = Some (d, act')" using assms(3,4) by (rule find_option_member)
  have inj: "inj_on arg_dest (set args)" using assms(3) by (simp add: distinct_map)
  have "OptionalArg t d act' h' = OptionalArg opt d act h"
    by (rule inj_onD [OF inj _ t assms(2)]) simp
  then show ?thesis by simp
qed

lemma map_of_ns_set_all: "map_of (ns_set_all ns items) = map_of ns ++ map_of (rev items)"
proof (induction items arbitrary: ns)
  case Nil
  then show ?case by (simp add: ns_set_all_def)
next
  case (Cons kv items)
  obtain k v where kv: "kv = (k, v)" by (cases kv)
  have "map_of (ns_set_all ns (kv # items)) = map_of (AList.update k v ns) ++ map_of (rev items)"
    using Cons.IH by (simp add: ns_set_all_def kv)
  then show ?case by (simp add: kv update_conv' map_of_append)
qed

lemma map_of_defaults_namespace:
  assumes "a \<in> set args" and "distinct (map arg_dest args)"
  shows "map_of (defaults_namespace args) (arg_dest a) = Some (arg_default a)"
proof -
  let ?items = "rev (map (\<lambda>a. (arg_dest a, arg_default a)) args)"
  have "map fst ?items = rev (map arg_dest args)" by (simp add: rev_map)
  then have "distinct (map fst ?items)" using assms(2) by simp
  moreover have "(arg_dest a, arg_default a) \<in> set ?items" using assms(1) by simp
  ultimately have "map_of ?items (arg_dest a) = Some (arg_default a)" by (rule map_of_is_SomeI)
  then show ?thesis by (simp add: defaults_namespace_def map_of_ns_set_all)
qed

text \<open>A flag in a successful parse: its destination holds the flag's value when
  the option string is one of the tokens, and what it held before otherwise.\<close>

lemma consume_flag:
  assumes "consume args pos ts ns ex = Inr (ns', pos', ex')"
    and "OptionalArg opt d act h \<in> set args" and "act = StoreTrue \<or> act = StoreFalse"
    and "looks_optional opt" and "distinct (map arg_dest args)" and "wf_arguments args"
    and "\<forall>a \<in> set pos. arg_dest a \<noteq> d"
  shows "map_of ns' d = (if opt \<in> set ts then Some (PyBool (act = StoreTrue)) else map_of ns d)"
  using assms
proof (induction args pos ts ns ex rule: consume.induct)
  case (1 args pos ns extras)
  then show ?case by simp
next
  case (2 args pos t ts ns extras)
  note inv = "2.prems"(2-6)
  note unique = find_option_dest_unique [OF _ "2.prems"(2,5,6)]
  note member = find_option_member [OF "2.prems"(2,5,6)]
  show ?case
  proof (cases "looks_optional t")
    case lo: True
    show ?thesis
    proof (cases "find_option args t")
      case None
      have c: "consume args pos ts ns (extras @ [t]) = Inr (ns', pos', ex')"
        using "2.prems"(1) lo None by simp
      have "t \<noteq> opt" using None member by auto
      then show ?thesis using "2.IH"(1) [OF lo None c inv "2.prems"(7)] by simp
    next
      case (Some da)
      then obtain d' a where S: "find_option args t = Some (d', a)" by (cases da) auto
      have other: "d' \<noteq> d \<Longrightarrow> t \<noteq> opt" using S member by auto
      show ?thesis
      proof (cases a)
        case StoreTrue
        have c: "consume args pos ts (AList.update d' (PyBool True) ns) extras = Inr (ns', pos', ex')"
          using "2.prems"(1) lo S StoreTrue by simp
        have ih: "map_of ns' d = (if opt \<in> set ts then Some (PyBool (act = StoreTrue))
                                  else map_of (AList.update d' (PyBool True) ns) d)"
          by (rule "2.IH"(2) [OF lo S refl StoreTrue c inv "2.prems"(7)])
        show ?thesis
        proof (cases "d' = d")
          case True
          with S unique StoreTrue have "t = opt" "act = StoreTrue" by auto
          with ih True show ?thesis by (auto simp: update_conv')
        next
          case False
          with ih other show ?thesis by (simp add: update_conv')
        qed
      next
        case StoreFalse
        have c: "consume args pos ts (AList.update d' (PyBool False) ns) extras = Inr (ns', pos', ex')"
          using "2.prems"(1) lo S StoreFalse by simp
        have ih: "map_of ns' d = (if opt \<in> set ts then Some (PyBool (act = StoreTrue))
                                  else map_of (AList.update d' (PyBool False) ns) d)"
          by (rule "2.IH"(3) [OF lo S refl StoreFalse c inv "2.prems"(7)])
        show ?thesis
        proof (cases "d' = d")
          case True
          with S unique StoreFalse have "t = opt" "act = StoreFalse" by auto
          with ih True show ?thesis by (auto simp: update_conv')
        next
          case False
          with ih other show ?thesis by (simp add: update_conv')
        qed
      next
        case (Store x)
        have "d' \<noteq> d" using S unique Store "2.prems"(3) by auto
        then have "t \<noteq> opt" by (rule other)
        show ?thesis
        proof (cases ts)
          case Nil
          with "2.prems"(1) lo S Store show ?thesis by simp
        next
          case (Cons v ts')
          have nv: "\<not> looks_optional v" using "2.prems"(1) lo S Store Cons by (auto split: if_splits)
          then have "v \<noteq> opt" using "2.prems"(4) by auto
          have c: "consume args pos ts' (AList.update d' (PyStr v) ns) extras = Inr (ns', pos', ex')"
            using "2.prems"(1) lo S Store Cons nv by simp
          have ih: "map_of ns' d = (if opt \<in> set ts' then Some (PyBool (act = StoreTrue))
                                    else map_of (AList.update d' (PyStr v) ns) d)"
            by (rule "2.IH"(4) [OF lo S refl Store Cons nv c inv "2.prems"(7)])
          with \<open>d' \<noteq> d\<close> \<open>t \<noteq> opt\<close> \<open>v \<noteq> opt\<close> Cons show ?thesis by (simp add: update_conv')
        qed
      qed
    qed
  next
    case nlo: False
    then have "t \<noteq> opt" using "2.prems"(4) by auto
    show ?thesis
    proof (cases pos)
      case Nil
      have c: "consume args pos ts ns (extras @ [t]) = Inr (ns', pos', ex')"
        using "2.prems"(1) nlo Nil by simp
      with "2.IH"(5) [OF nlo Nil c inv "2.prems"(7)] \<open>t \<noteq> opt\<close> show ?thesis by simp
    next
      case (Cons p ps)
      have c: "consume args ps ts (AList.update (arg_dest p) (PyStr t) ns) extras = Inr (ns', pos', ex')"
        using "2.prems"(1) nlo Cons by simp
      have ps: "\<forall>a \<in> set ps. arg_dest a \<noteq> d" and pd: "arg_dest p \<noteq> d"
        using "2.prems"(7) Cons by auto
      from "2.IH"(6) [OF nlo Cons c inv ps] pd \<open>t \<noteq> opt\<close> show ?thesis by (simp add: update_conv')
    qed
  qed
qed

lemma parse_command_Inr:
  "parse_command args argv = Inr ns \<Longrightarrow>
   \<exists>ex. consume args (filter is_positional args) argv (defaults_namespace args) [] = Inr (ns, [], ex)"
  by (auto simp: parse_command_def split: sum.splits prod.splits if_splits)

end
