(* ===== verification/Regex_Search.thy ===== *)
theory Regex_Search
  imports Prelude
begin

text \<open>
  The three regular expressions compiled in \<open>src/autoui/lib/doc_function.py\<close>
  (lines 31--33) and Python's \<open>re.search\<close> on them. Each pattern is modelled by
  its matcher at a fixed start position, written out from the backtracking order
  of Python's engine:
  \<^item> \<open>" *::type (.+) endtype:: *"\<close> and \<open>" *::values (.+) endvalues:: *"\<close> are
    \<open>Directive ''type''\<close> and \<open>Directive ''values''\<close>: a greedy run of spaces, the
    opening token \<open>::type \<close>, a greedy \<open>.+\<close> (one or more characters other than a newline:
    \<open>.\<close> never matches \<open>\<newline>\<close>) that backtracks to the last closing token \<open> endtype::\<close> on
    the line, and a greedy run of spaces;
  \<^item> \<open>"\. Defaults to (.+)\.$"\<close> is \<open>DefaultsClause\<close>: the literal opening, a
    greedy \<open>.+\<close> on the line, a full stop and \<open>$\<close>, which matches at the end of
    the string or before a newline that ends it.
  \<open>re_search\<close> tries the start positions from the left and returns the text
  before the match, the first group and the text after the match.
\<close>

datatype pattern = Directive string | DefaultsClause

definition input_type_reg :: pattern where
  "input_type_reg = Directive ''type''"

definition values_reg :: pattern where
  "values_reg = Directive ''values''"

definition description_default_text_reg :: pattern where
  "description_default_text_reg = DefaultsClause"

definition is_space :: "char \<Rightarrow> bool" where
  "is_space c \<longleftrightarrow> c = CHR '' ''"

definition line_of :: "string \<Rightarrow> string" where
  "line_of s = takeWhile (\<lambda>c. c \<noteq> CHR ''\<newline>'') s"

text \<open>A greedy \<open>.+\<close> followed by the rest of the pattern \<open>P\<close>: the longest
  prefix of the current line, of length at least one, after which \<open>P\<close> holds.\<close>

definition greedy_plus :: "(string \<Rightarrow> bool) \<Rightarrow> string \<Rightarrow> nat option" where
  "greedy_plus P body = find (\<lambda>m. P (drop m body)) (rev [1..<Suc (length (line_of body))])"

definition dir_open :: "string \<Rightarrow> string" where
  "dir_open kw = ''::'' @ kw @ '' ''"

definition dir_close :: "string \<Rightarrow> string" where
  "dir_close kw = '' end'' @ kw @ ''::''"

definition defaults_opening :: string where
  "defaults_opening = ''. Defaults to ''"

text \<open>\<open>\.$\<close>: a full stop, then the end of the string or a final newline.\<close>

definition dot_at_end :: "string \<Rightarrow> bool" where
  "dot_at_end u \<longleftrightarrow> u = ''.'' \<or> u = [CHR ''.'', CHR ''\<newline>'']"

text \<open>The match at the start of \<open>t\<close>: the first group and the text after the match.\<close>

fun match_at :: "pattern \<Rightarrow> string \<Rightarrow> (string \<times> string) option" where
  "match_at (Directive kw) t =
     (let r = dropWhile is_space t in
      if starts_with (dir_open kw) r then
        (let body = drop (length (dir_open kw)) r in
         case greedy_plus (starts_with (dir_close kw)) body of
           None \<Rightarrow> None
         | Some m \<Rightarrow> Some (take m body, dropWhile is_space (drop (m + length (dir_close kw)) body)))
      else None)"
| "match_at DefaultsClause t =
     (if starts_with defaults_opening t then
        (let body = drop (length defaults_opening) t in
         case greedy_plus dot_at_end body of
           None \<Rightarrow> None
         | Some m \<Rightarrow> Some (take m body, drop (Suc m) body))
      else None)"

text \<open>\<open>re.search(p, s)\<close>: (text before the match, \<open>groups()[0]\<close>, text after).\<close>

fun re_search :: "pattern \<Rightarrow> string \<Rightarrow> (string \<times> string \<times> string) option" where
  "re_search p [] = map_option (\<lambda>(g, r). ([], g, r)) (match_at p [])"
| "re_search p (c # cs) =
     (case match_at p (c # cs) of
        Some (g, r) \<Rightarrow> Some ([], g, r)
      | None \<Rightarrow> map_option (\<lambda>(pre, g, r). (c # pre, g, r)) (re_search p cs))"

section \<open>Lemmas\<close>

text \<open>The definitions a closed search unfolds to, for evaluation by \<open>simp\<close>.\<close>

lemmas regex_eval = input_type_reg_def values_reg_def description_default_text_reg_def
  dir_open_def dir_close_def defaults_opening_def greedy_plus_def starts_with_def
  line_of_def is_space_def dot_at_end_def

lemma find_rev_upt_Some:
  "find P (rev [a..<b]) = Some m \<longleftrightarrow> a \<le> m \<and> m < b \<and> P m \<and> (\<forall>m'. m < m' \<and> m' < b \<longrightarrow> \<not> P m')"
proof (induction b)
  case 0
  then show ?case by simp
next
  case (Suc b)
  show ?case
  proof (cases "a \<le> b")
    case True
    then have "rev [a..<Suc b] = b # rev [a..<b]" by simp
    then show ?thesis using Suc.IH True by (auto simp: less_Suc_eq)
  next
    case False
    then show ?thesis by auto
  qed
qed

lemma greedy_plus_Some:
  "greedy_plus P body = Some m \<longleftrightarrow>
     1 \<le> m \<and> m \<le> length (line_of body) \<and> P (drop m body) \<and>
     (\<forall>m'. m < m' \<and> m' \<le> length (line_of body) \<longrightarrow> \<not> P (drop m' body))"
  unfolding greedy_plus_def find_rev_upt_Some by (auto simp: less_Suc_eq_le)

lemma greedy_plus_None:
  "greedy_plus P body = None \<longleftrightarrow> (\<forall>m. 1 \<le> m \<and> m \<le> length (line_of body) \<longrightarrow> \<not> P (drop m body))"
  unfolding greedy_plus_def find_None_iff by (auto simp: less_Suc_eq_le)

lemma line_of_take_no_newline:
  assumes "m \<le> length (line_of s)"
  shows "CHR ''\<newline>'' \<notin> set (take m s)"
proof -
  have "take m s = take m (line_of s)"
    using assms unfolding line_of_def by (metis min.absorb1 take_take takeWhile_eq_take)
  then show ?thesis unfolding line_of_def by (metis in_set_takeD set_takeWhileD)
qed

lemma match_at_drop:
  assumes "match_at p t = Some (g, r)"
  shows "t \<noteq> [] \<and> (\<exists>k>0. r = drop k t)"
proof (cases p)
  case (Directive kw)
  let ?r = "dropWhile is_space t"
  let ?body = "drop (length (dir_open kw)) ?r"
  from assms Directive obtain m where
    sw: "starts_with (dir_open kw) ?r" and
    rr: "r = dropWhile is_space (drop (m + length (dir_close kw)) ?body)"
    by (auto simp: Let_def split: if_splits option.splits)
  have lo: "length (dir_open kw) > 0" by (simp add: dir_open_def)
  with sw have "t \<noteq> []" by (auto simp: starts_with_def)
  obtain k1 where k1: "?r = drop k1 t" using dropWhile_eq_drop by blast
  obtain k3 where k3: "r = drop k3 (drop (m + length (dir_close kw)) ?body)"
    using rr dropWhile_eq_drop by blast
  let ?k = "k1 + length (dir_open kw) + (m + length (dir_close kw)) + k3"
  have "r = drop ?k t" using k1 k3 by (simp add: ac_simps)
  with lo \<open>t \<noteq> []\<close> show ?thesis by (intro conjI exI [of _ ?k]) auto
next
  case DefaultsClause
  from assms DefaultsClause obtain m where
    sw: "starts_with defaults_opening t" and
    rr: "r = drop (Suc m) (drop (length defaults_opening) t)"
    by (auto simp: Let_def split: if_splits option.splits)
  from sw have "t \<noteq> []" by (auto simp: starts_with_def defaults_opening_def)
  with rr show ?thesis by auto
qed

lemma match_at_consumes:
  assumes "match_at p t = Some (g, r)"
  shows "\<exists>mt. t = mt @ r \<and> mt \<noteq> []"
proof -
  from match_at_drop [OF assms] obtain k where "t \<noteq> []" "k > 0" "r = drop k t" by blast
  then show ?thesis by (metis append_take_drop_id take_eq_Nil gr_implies_not0)
qed

lemma re_search_Some:
  assumes "re_search p s = Some (pre, g, r)"
  shows "\<exists>mt. s = pre @ mt @ r \<and> mt \<noteq> [] \<and> match_at p (mt @ r) = Some (g, r)"
  using assms
proof (induction s arbitrary: pre)
  case Nil
  then show ?case by (auto dest: match_at_consumes)
next
  case (Cons c cs)
  show ?case
  proof (cases "match_at p (c # cs)")
    case None
    with Cons.prems obtain pre' where "re_search p cs = Some (pre', g, r)" and "pre = c # pre'"
      by auto
    with Cons.IH show ?thesis by fastforce
  next
    case (Some gr)
    with Cons.prems have m: "match_at p (c # cs) = Some (g, r)" and "pre = []"
      by (auto split: prod.splits)
    from match_at_consumes [OF m] obtain mt where "c # cs = mt @ r" "mt \<noteq> []" by blast
    with m \<open>pre = []\<close> show ?thesis by auto
  qed
qed

lemma re_search_shorter:
  "re_search p s = Some (pre, g, r) \<Longrightarrow> length r < length s"
  by (auto dest!: re_search_Some)

lemma re_search_leftmost:
  "re_search p s = Some (pre, g, r) \<Longrightarrow> i < length pre \<Longrightarrow> match_at p (drop i s) = None"
proof (induction s arbitrary: pre i)
  case Nil
  then show ?case by auto
next
  case (Cons c cs)
  then show ?case by (cases i) (auto split: option.splits)
qed

lemma re_search_None:
  "re_search p s = None \<longleftrightarrow> (\<forall>i \<le> length s. match_at p (drop i s) = None)"
proof (induction s)
  case Nil
  then show ?case by simp
next
  case (Cons c cs)
  have "(\<forall>i \<le> length (c # cs). match_at p (drop i (c # cs)) = None) \<longleftrightarrow>
        match_at p (c # cs) = None \<and> (\<forall>i \<le> length cs. match_at p (drop i cs) = None)"
    by (simp only: less_Suc_eq_le [symmetric] length_Cons All_less_Suc2) simp
  with Cons.IH show ?case by (auto split: option.splits)
qed

lemma length_line_of_le: "length (line_of s) \<le> length s"
  unfolding line_of_def by (rule length_takeWhile_le)

lemma match_at_group_nonempty:
  assumes "match_at p t = Some (g, r)"
  shows "g \<noteq> [] \<and> CHR ''\<newline>'' \<notin> set g"
proof (cases p)
  case (Directive kw)
  let ?body = "drop (length (dir_open kw)) (dropWhile is_space t)"
  from assms Directive obtain m where
    m: "greedy_plus (starts_with (dir_close kw)) ?body = Some m" and g: "g = take m ?body"
    by (auto simp: Let_def split: if_splits option.splits)
  from m have "1 \<le> m" "m \<le> length (line_of ?body)" by (simp_all add: greedy_plus_Some)
  moreover have "length (line_of ?body) \<le> length ?body" by (rule length_line_of_le)
  ultimately show ?thesis using g line_of_take_no_newline by fastforce
next
  case DefaultsClause
  let ?body = "drop (length defaults_opening) t"
  from assms DefaultsClause obtain m where
    m: "greedy_plus dot_at_end ?body = Some m" and g: "g = take m ?body"
    by (auto simp: Let_def split: if_splits option.splits)
  from m have "1 \<le> m" "m \<le> length (line_of ?body)" by (simp_all add: greedy_plus_Some)
  moreover have "length (line_of ?body) \<le> length ?body" by (rule length_line_of_le)
  ultimately show ?thesis using g line_of_take_no_newline by fastforce
qed

lemma re_search_group_nonempty:
  "re_search p s = Some (pre, g, r) \<Longrightarrow> g \<noteq> [] \<and> CHR ''\<newline>'' \<notin> set g"
  by (auto dest!: re_search_Some dest: match_at_group_nonempty)

end
