(* ===== verification/Regex_Sub.thy ===== *)
theory Regex_Sub
  imports Regex_Search
begin

text \<open>
  \<open>re.sub(p, "", s)\<close> as \<open>doc_function.py\<close> calls it (lines 36, 41 and 49):
  every non-overlapping match, found from the left, is deleted, and the scan
  resumes after the deleted text. None of the three patterns matches the empty
  string, so the scan ends: the termination measure is the length of the
  text still to scan (\<open>re_search_shorter\<close>).
\<close>

function re_sub :: "pattern \<Rightarrow> string \<Rightarrow> string" where
  "re_sub p s = (case re_search p s of
                   None \<Rightarrow> s
                 | Some (pre, g, rest) \<Rightarrow> pre @ re_sub p rest)"
  by pat_completeness auto
termination
  by (relation "measure (\<lambda>(p, s). length s)") (auto dest: re_search_shorter)

declare re_sub.simps [simp del]

section \<open>Lemmas\<close>

lemma re_sub_None: "re_search p s = None \<Longrightarrow> re_sub p s = s"
  by (simp add: re_sub.simps)

lemma re_sub_Some: "re_search p s = Some (pre, g, rest) \<Longrightarrow> re_sub p s = pre @ re_sub p rest"
  by (simp add: re_sub.simps)

lemma re_sub_length: "length (re_sub p s) \<le> length s"
proof (induction p s rule: re_sub.induct)
  case (1 p s)
  show ?case
  proof (cases "re_search p s")
    case None
    then show ?thesis by (simp add: re_sub_None)
  next
    case (Some a)
    then obtain pre g rest where a: "re_search p s = Some (pre, g, rest)"
      by (cases a) auto
    then obtain mt where "s = pre @ mt @ rest" by (auto dest: re_search_Some)
    with a "1.IH" show ?thesis by (fastforce simp: re_sub_Some)
  qed
qed

end
