(* ===== verification/Directive_Removal.thy ===== *)
theory Directive_Removal
  imports Regex_Sub
begin

text \<open>
  A reference for the directive patterns of \<open>doc_function.py\<close> (lines 31--32)
  that does not follow the engine: a text has a directive \<open>kw\<close> when some
  position starts the opening token \<open>::kw \<close>, followed by a non-empty run of
  characters on the same line and the closing token \<open> endkw::\<close>. Python's
  greedy, leftmost search finds a match exactly when the reference says there
  is one. The removal of all directives by \<open>re.sub\<close> leaves none behind:
  the engine's match runs to the last closing token of its line, so nothing
  after it on the line can close a directive, and nothing before it can open
  one.
\<close>

definition directive_at :: "string \<Rightarrow> string \<Rightarrow> bool" where
  "directive_at kw t \<longleftrightarrow>
     starts_with (dir_open kw) t \<and>
     list_ex (\<lambda>m. starts_with (dir_close kw) (drop m (drop (length (dir_open kw)) t)))
       [1..<Suc (length (line_of (drop (length (dir_open kw)) t)))]"

definition has_directive :: "string \<Rightarrow> string \<Rightarrow> bool" where
  "has_directive kw s \<longleftrightarrow> list_ex (\<lambda>i. directive_at kw (drop i s)) [0..<Suc (length s)]"

section \<open>Lemmas\<close>

lemma line_of_append_no_nl:
  "CHR ''\<newline>'' \<notin> set g \<Longrightarrow> line_of (g @ x) = g @ line_of x"
  unfolding line_of_def by (rule takeWhile_append2) auto

lemma directive_at_iff:
  "directive_at kw t \<longleftrightarrow>
     (\<exists>g b. t = dir_open kw @ g @ dir_close kw @ b \<and> g \<noteq> [] \<and> CHR ''\<newline>'' \<notin> set g)"
proof
  assume "directive_at kw t"
  then obtain body m where t: "t = dir_open kw @ body" and m: "1 \<le> m" "m \<le> length (line_of body)"
    and c: "starts_with (dir_close kw) (drop m body)"
    by (auto simp: directive_at_def list_ex_iff starts_with_iff)
  from c obtain b where b: "drop m body = dir_close kw @ b" by (auto simp: starts_with_iff)
  have "m \<le> length body" using m(2) length_line_of_le order_trans by blast
  with m(1) have ne: "take m body \<noteq> []" by auto
  have "body = take m body @ dir_close kw @ b" using b by (metis append_take_drop_id)
  with t ne line_of_take_no_newline [OF m(2)] show "\<exists>g b. t = dir_open kw @ g @ dir_close kw @ b \<and> g \<noteq> [] \<and> CHR ''\<newline>'' \<notin> set g"
    by blast
next
  assume "\<exists>g b. t = dir_open kw @ g @ dir_close kw @ b \<and> g \<noteq> [] \<and> CHR ''\<newline>'' \<notin> set g"
  then obtain g b where t: "t = dir_open kw @ g @ dir_close kw @ b" and g: "g \<noteq> []" "CHR ''\<newline>'' \<notin> set g"
    by blast
  let ?body = "drop (length (dir_open kw)) t"
  have body: "?body = g @ dir_close kw @ b" using t by simp
  have "length g \<le> length (line_of ?body)" by (simp add: body line_of_append_no_nl [OF g(2)])
  moreover have "1 \<le> length g" using g(1) by (simp add: Suc_le_eq)
  ultimately have mem: "length g \<in> set [1..<Suc (length (line_of ?body))]"
    by (simp add: less_Suc_eq_le del: upt_Suc)
  have "starts_with (dir_close kw) (drop (length g) ?body)" by (simp add: body starts_with_def)
  with mem have "list_ex (\<lambda>m. starts_with (dir_close kw) (drop m ?body)) [1..<Suc (length (line_of ?body))]"
    unfolding list_ex_iff by blast
  moreover have "starts_with (dir_open kw) t" using t by (simp add: starts_with_def)
  ultimately show "directive_at kw t" by (simp add: directive_at_def)
qed

lemma has_directive_iff:
  "has_directive kw s \<longleftrightarrow>
     (\<exists>a g b. s = a @ dir_open kw @ g @ dir_close kw @ b \<and> g \<noteq> [] \<and> CHR ''\<newline>'' \<notin> set g)"
proof
  assume "has_directive kw s"
  then obtain i where "directive_at kw (drop i s)"
    by (auto simp: has_directive_def list_ex_iff simp del: upt_Suc)
  then obtain g b where "drop i s = dir_open kw @ g @ dir_close kw @ b" "g \<noteq> []" "CHR ''\<newline>'' \<notin> set g"
    by (auto simp: directive_at_iff)
  then show "\<exists>a g b. s = a @ dir_open kw @ g @ dir_close kw @ b \<and> g \<noteq> [] \<and> CHR ''\<newline>'' \<notin> set g"
    by (metis append_take_drop_id)
next
  assume "\<exists>a g b. s = a @ dir_open kw @ g @ dir_close kw @ b \<and> g \<noteq> [] \<and> CHR ''\<newline>'' \<notin> set g"
  then obtain a g b where s: "s = a @ dir_open kw @ g @ dir_close kw @ b" and g: "g \<noteq> []" "CHR ''\<newline>'' \<notin> set g"
    by blast
  then have "directive_at kw (drop (length a) s)" by (auto simp: directive_at_iff)
  moreover have "length a < Suc (length s)" using s by simp
  ultimately show "has_directive kw s"
    by (auto simp: has_directive_def list_ex_iff simp del: upt_Suc)
qed

lemma greedy_plus_not_None:
  "greedy_plus P body \<noteq> None \<longleftrightarrow> list_ex (\<lambda>m. P (drop m body)) [1..<Suc (length (line_of body))]"
  unfolding greedy_plus_None list_ex_iff by (auto simp: less_Suc_eq_le simp del: upt_Suc)

lemma match_at_directive_None:
  "match_at (Directive kw) t = None \<longleftrightarrow> \<not> directive_at kw (dropWhile is_space t)"
proof -
  let ?r = "dropWhile is_space t"
  have "match_at (Directive kw) t = None \<longleftrightarrow>
        \<not> (starts_with (dir_open kw) ?r \<and> greedy_plus (starts_with (dir_close kw)) (drop (length (dir_open kw)) ?r) \<noteq> None)"
    by (auto simp: Let_def split: option.splits)
  then show ?thesis by (simp only: greedy_plus_not_None directive_at_def)
qed

lemma directive_at_no_space: "directive_at kw t \<Longrightarrow> dropWhile is_space t = t"
  by (auto simp: directive_at_def starts_with_iff dir_open_def is_space_def)

text \<open>The engine's search for a directive finds none exactly when the
  reference says the text has none.\<close>

lemma re_search_directive_None:
  "re_search (Directive kw) s = None \<longleftrightarrow> \<not> has_directive kw s"
proof
  assume none: "re_search (Directive kw) s = None"
  show "\<not> has_directive kw s"
  proof
    assume "has_directive kw s"
    then obtain i where i: "i \<le> length s" "directive_at kw (drop i s)"
      by (auto simp: has_directive_def list_ex_iff less_Suc_eq_le simp del: upt_Suc)
    with none have "match_at (Directive kw) (drop i s) = None" by (simp add: re_search_None)
    then have "\<not> directive_at kw (dropWhile is_space (drop i s))" using match_at_directive_None by blast
    with i(2) show False by (simp add: directive_at_no_space)
  qed
next
  assume no: "\<not> has_directive kw s"
  have "match_at (Directive kw) (drop i s) = None" if "i \<le> length s" for i
  proof -
    obtain k where k: "dropWhile is_space (drop i s) = drop k (drop i s)" using dropWhile_eq_drop by blast
    have "\<not> directive_at kw (drop (i + k) s)"
    proof
      assume d: "directive_at kw (drop (i + k) s)"
      then have "drop (i + k) s \<noteq> []" by (auto simp: directive_at_def starts_with_iff dir_open_def)
      then have "i + k < Suc (length s)" by simp
      with d no show False by (auto simp: has_directive_def list_ex_iff simp del: upt_Suc)
    qed
    with k have "\<not> directive_at kw (dropWhile is_space (drop i s))" by (simp add: add.commute)
    then show ?thesis using match_at_directive_None by blast
  qed
  then show "re_search (Directive kw) s = None" by (simp add: re_search_None)
qed

subsection \<open>Removal\<close>

lemma dir_open_close_no_nl:
  "CHR ''\<newline>'' \<notin> set kw \<Longrightarrow> CHR ''\<newline>'' \<notin> set (dir_open kw) \<and> CHR ''\<newline>'' \<notin> set (dir_close kw)"
  by (simp add: dir_open_def dir_close_def)

lemma dir_close_not_Nil: "dir_close kw \<noteq> []"
  by (simp add: dir_close_def)

lemma spaces_no_nl: "set sp \<subseteq> {CHR '' ''} \<Longrightarrow> CHR ''\<newline>'' \<notin> set sp"
  by auto

lemma takeWhile_is_space: "set (takeWhile is_space x) \<subseteq> {CHR '' ''}"
  by (auto simp: is_space_def dest: set_takeWhileD)

lemma line_of_append_nl: "CHR ''\<newline>'' \<in> set p \<Longrightarrow> line_of (p @ z) = line_of p"
  unfolding line_of_def by (rule takeWhile_append1) auto

text \<open>A match of the engine, taken apart: the spaces before it, the opening
  token, the group, the closing token and the spaces after it; the group is
  the greedy choice of the closing token.\<close>

lemma re_search_Directive_Some:
  assumes "re_search (Directive kw) s = Some (pre, g, rest)"
  shows "\<exists>sp sp2. s = pre @ sp @ dir_open kw @ g @ dir_close kw @ sp2 @ rest \<and>
           set sp \<subseteq> {CHR '' ''} \<and> set sp2 \<subseteq> {CHR '' ''} \<and> g \<noteq> [] \<and> CHR ''\<newline>'' \<notin> set g \<and>
           greedy_plus (starts_with (dir_close kw)) (g @ dir_close kw @ sp2 @ rest) = Some (length g)"
proof -
  from re_search_Some [OF assms] obtain mt where s: "s = pre @ mt @ rest"
    and m: "match_at (Directive kw) (mt @ rest) = Some (g, rest)" by blast
  let ?t = "mt @ rest"
  let ?r = "dropWhile is_space ?t"
  let ?body = "drop (length (dir_open kw)) ?r"
  from m obtain k where sw: "starts_with (dir_open kw) ?r"
    and gp: "greedy_plus (starts_with (dir_close kw)) ?body = Some k"
    and g: "g = take k ?body" and rest: "rest = dropWhile is_space (drop (k + length (dir_close kw)) ?body)"
    by (auto simp: Let_def split: if_splits option.splits)
  from gp have k: "k \<le> length (line_of ?body)" "starts_with (dir_close kw) (drop k ?body)"
    by (simp_all add: greedy_plus_Some)
  have lenk: "length g = k" using g k(1) length_line_of_le [of ?body] by simp
  obtain b where b: "drop k ?body = dir_close kw @ b" using k(2) by (auto simp: starts_with_iff)
  have body: "?body = g @ dir_close kw @ b" using g b by (metis append_take_drop_id)
  have "drop (k + length (dir_close kw)) ?body = b" using body lenk by simp
  then have b2: "b = takeWhile is_space b @ rest" using rest by simp
  have r: "?r = dir_open kw @ ?body" using sw by (auto simp: starts_with_iff)
  have t: "?t = takeWhile is_space ?t @ ?r" by simp
  have "s = pre @ takeWhile is_space ?t @ dir_open kw @ g @ dir_close kw @ takeWhile is_space b @ rest"
    using s t r body b2 by (metis append.assoc)
  moreover have "greedy_plus (starts_with (dir_close kw)) (g @ dir_close kw @ takeWhile is_space b @ rest) = Some (length g)"
    using gp body b2 lenk by metis
  ultimately show ?thesis using match_at_group_nonempty [OF m] takeWhile_is_space by blast
qed

text \<open>Nothing after the engine's match closes a directive on the match's line.\<close>

lemma greedy_last_close:
  assumes "greedy_plus (starts_with (dir_close kw)) (g @ dir_close kw @ sp2 @ rest) = Some (length g)"
    and "CHR ''\<newline>'' \<notin> set kw" and "CHR ''\<newline>'' \<notin> set g" and "set sp2 \<subseteq> {CHR '' ''}"
    and "rest = x @ dir_close kw @ y"
  shows "CHR ''\<newline>'' \<in> set x"
proof (rule ccontr)
  assume x: "CHR ''\<newline>'' \<notin> set x"
  let ?body = "g @ dir_close kw @ sp2 @ rest"
  let ?m = "length g + length (dir_close kw) + length sp2 + length x"
  have nl: "CHR ''\<newline>'' \<notin> set (g @ dir_close kw @ sp2 @ x)"
    using assms(3,4) x dir_open_close_no_nl [OF assms(2)] by auto
  have "line_of ?body = (g @ dir_close kw @ sp2 @ x) @ line_of (dir_close kw @ y)"
    using line_of_append_no_nl [OF nl, of "dir_close kw @ y"] assms(5) by simp
  then have "?m \<le> length (line_of ?body)" by simp
  moreover have "length g < ?m" using dir_close_not_Nil [of kw] by simp
  moreover have "starts_with (dir_close kw) (drop ?m ?body)" using assms(5) by (simp add: starts_with_def)
  moreover have "\<forall>m'. length g < m' \<and> m' \<le> length (line_of ?body) \<longrightarrow>
                     \<not> starts_with (dir_close kw) (drop m' ?body)"
    using assms(1) unfolding greedy_plus_Some by blast
  ultimately show False by blast
qed

text \<open>Nothing before the engine's match opens a directive.\<close>

lemma re_search_Directive_leftmost:
  assumes "re_search (Directive kw) s = Some (pre, g, rest)"
    and "s = a @ dir_open kw @ g' @ dir_close kw @ b'" and "g' \<noteq> []" and "CHR ''\<newline>'' \<notin> set g'"
  shows "length pre \<le> length a"
proof (rule ccontr)
  assume "\<not> length pre \<le> length a"
  then have "match_at (Directive kw) (drop (length a) s) = None"
    using re_search_leftmost [OF assms(1)] by simp
  then have "\<not> directive_at kw (dropWhile is_space (drop (length a) s))"
    using match_at_directive_None by blast
  moreover have d: "directive_at kw (drop (length a) s)" using assms(2-4) by (auto simp: directive_at_iff)
  ultimately show False by (simp add: directive_at_no_space)
qed

text \<open>When the first line of a text closes no directive, the removal leaves
  that line as it is.\<close>

lemma re_sub_first_line:
  assumes "CHR ''\<newline>'' \<notin> set kw" and "\<forall>x y. rest = x @ dir_close kw @ y \<longrightarrow> CHR ''\<newline>'' \<in> set x"
  shows "line_of (re_sub (Directive kw) rest) = line_of rest"
proof (cases "re_search (Directive kw) rest")
  case None
  then show ?thesis by (simp add: re_sub_None)
next
  case (Some res)
  then obtain pre2 g2 rest2 where sr: "re_search (Directive kw) rest = Some (pre2, g2, rest2)"
    by (cases res) auto
  from re_search_Directive_Some [OF sr] obtain sp sp2 where
    r: "rest = pre2 @ sp @ dir_open kw @ g2 @ dir_close kw @ sp2 @ rest2"
    and sp: "set sp \<subseteq> {CHR '' ''}" and g2: "CHR ''\<newline>'' \<notin> set g2" by blast
  have "CHR ''\<newline>'' \<in> set (pre2 @ sp @ dir_open kw @ g2)"
    using assms(2) r by (metis append.assoc)
  then have nl: "CHR ''\<newline>'' \<in> set pre2" using sp g2 dir_open_close_no_nl [OF assms(1)] by auto
  have "line_of (re_sub (Directive kw) rest) = line_of pre2"
    using re_sub_Some [OF sr] line_of_append_nl [OF nl] by simp
  moreover have "line_of rest = line_of pre2" by (subst r) (rule line_of_append_nl [OF nl])
  ultimately show ?thesis by simp
qed

text \<open>The text before a match followed by the removal of the rest has no
  directive when the rest's removal has none: a directive of the result would
  open before the match and close on the match's line, and it would then
  have been a match of the engine further left.\<close>

lemma no_directive_across:
  assumes nlkw: "CHR ''\<newline>'' \<notin> set kw"
    and s: "s = pre @ sp @ dir_open kw @ g @ dir_close kw @ sp2 @ rest"
    and sp: "set sp \<subseteq> {CHR '' ''}" and g: "CHR ''\<newline>'' \<notin> set g"
    and left: "\<And>a g' b'. s = a @ dir_open kw @ g' @ dir_close kw @ b' \<Longrightarrow> g' \<noteq> [] \<Longrightarrow>
                 CHR ''\<newline>'' \<notin> set g' \<Longrightarrow> length pre \<le> length a"
    and last: "\<And>x y. rest = x @ dir_close kw @ y \<Longrightarrow> CHR ''\<newline>'' \<in> set x"
    and line: "line_of R = line_of rest"
    and noR: "\<not> has_directive kw R"
  shows "\<not> has_directive kw (pre @ R)"
proof
  assume "has_directive kw (pre @ R)"
  then obtain a g' b' where N: "pre @ R = a @ dir_open kw @ g' @ dir_close kw @ b'"
    and g': "g' \<noteq> []" "CHR ''\<newline>'' \<notin> set g'"
    by (auto simp: has_directive_iff)
  let ?D = "dir_open kw @ g' @ dir_close kw"
  have oc: "CHR ''\<newline>'' \<notin> set (dir_open kw)" "CHR ''\<newline>'' \<notin> set (dir_close kw)"
    using dir_open_close_no_nl [OF nlkw] by simp_all
  have nlD: "CHR ''\<newline>'' \<notin> set ?D" using g' oc by simp
  from N obtain us where
    split: "(pre = a @ us \<and> us @ R = ?D @ b') \<or> (pre @ us = a \<and> R = us @ ?D @ b')"
    by (auto simp: append_eq_append_conv2)
  show False
  proof (cases "pre @ us = a \<and> R = us @ ?D @ b'")
    case True
    then have "has_directive kw R" using g' by (auto simp: has_directive_iff)
    with noR show False by contradiction
  next
    case False
    with split have pre: "pre = a @ us" and usR: "us @ R = ?D @ b'" by auto
    have us_ne: "us \<noteq> []" using False pre usR by auto
    have short: "length pre > length a" using pre us_ne by simp
    show False
    proof (cases "length ?D \<le> length us")
      case True
      have "take (length ?D) (us @ R) = take (length ?D) (?D @ b')" using usR by (rule arg_cong)
      then have "take (length ?D) us = ?D" using True by simp
      then obtain q where "us = ?D @ q" by (metis append_take_drop_id)
      then have "s = a @ dir_open kw @ g' @ dir_close kw @ (q @ sp @ dir_open kw @ g @ dir_close kw @ sp2 @ rest)"
        using s pre by simp
      from left [OF this g'] short show False by simp
    next
      case False
      let ?p2 = "drop (length us) ?D"
      have "take (length us) (us @ R) = take (length us) (?D @ b')" using usR by (rule arg_cong)
      then have "take (length us) ?D = us" using False by simp
      then have D: "?D = us @ ?p2" by (metis append_take_drop_id)
      have "drop (length us) (us @ R) = drop (length us) (?D @ b')" using usR by (rule arg_cong)
      then have R: "R = ?p2 @ b'" using False by simp
      obtain p2 where p2: "p2 = ?p2" by blast
      with D R have D: "?D = us @ p2" and R: "R = p2 @ b'" by simp_all
      have nlp2: "CHR ''\<newline>'' \<notin> set p2" using nlD D by auto
      have "line_of rest = p2 @ line_of b'" using line R line_of_append_no_nl [OF nlp2] by simp
      then have tw: "takeWhile (\<lambda>c. c \<noteq> CHR ''\<newline>'') rest = p2 @ line_of b'" by (simp add: line_of_def)
      obtain z where rest: "rest = p2 @ z"
        using takeWhile_dropWhile_id [of "\<lambda>c. c \<noteq> CHR ''\<newline>''" rest] unfolding tw
        by (metis append.assoc)
      show False
      proof (cases "length us \<le> length (dir_open kw @ g')")
        case True
        have "p2 = drop (length us) ?D" using D by simp
        also have "\<dots> = drop (length us) (dir_open kw @ g') @ dir_close kw"
          using True by (simp only: append.assoc [symmetric] drop_append) simp
        finally have "p2 = drop (length us) (dir_open kw @ g') @ dir_close kw" .
        with rest have "rest = drop (length us) (dir_open kw @ g') @ dir_close kw @ z" by simp
        from last [OF this] g'(2) oc(1) show False by (auto dest: in_set_dropD)
      next
        case False
        let ?c1 = "drop (length (dir_open kw @ g')) us"
        let ?n = "length (dir_open kw @ g')"
        have "take ?n us = take ?n (us @ p2)" using False by simp
        also have "\<dots> = take ?n ?D" by (simp only: D)
        also have "\<dots> = dir_open kw @ g'" by simp
        finally have "take ?n us = dir_open kw @ g'" .
        then have us: "us = dir_open kw @ g' @ ?c1" by (metis append.assoc append_take_drop_id)
        have c1: "CHR ''\<newline>'' \<notin> set ?c1" using nlD D by (auto dest: in_set_dropD)
        have "s = a @ dir_open kw @ (g' @ ?c1 @ sp @ dir_open kw @ g) @ dir_close kw @ (sp2 @ rest)"
          using s pre us by simp
        moreover have "CHR ''\<newline>'' \<notin> set (g' @ ?c1 @ sp @ dir_open kw @ g)"
          using g'(2) c1 spaces_no_nl [OF sp] oc(1) g by simp
        ultimately have "length pre \<le> length a" using left g'(1) by blast
        with short show False by simp
      qed
    qed
  qed
qed

text \<open>\<open>re.sub\<close> with a directive pattern leaves no directive of its keyword.\<close>

lemma re_sub_no_directive:
  assumes nlkw: "CHR ''\<newline>'' \<notin> set kw"
  shows "\<not> has_directive kw (re_sub (Directive kw) s)"
proof (induction "length s" arbitrary: s rule: less_induct)
  case less
  show ?case
  proof (cases "re_search (Directive kw) s")
    case None
    then show ?thesis using re_search_directive_None by (simp add: re_sub_None)
  next
    case (Some res)
    then obtain pre g rest where sr: "re_search (Directive kw) s = Some (pre, g, rest)"
      by (cases res) auto
    from re_search_Directive_Some [OF sr] obtain sp sp2 where
      s: "s = pre @ sp @ dir_open kw @ g @ dir_close kw @ sp2 @ rest"
      and sp: "set sp \<subseteq> {CHR '' ''}" and sp2: "set sp2 \<subseteq> {CHR '' ''}"
      and g: "CHR ''\<newline>'' \<notin> set g"
      and gp: "greedy_plus (starts_with (dir_close kw)) (g @ dir_close kw @ sp2 @ rest) = Some (length g)"
      by blast
    have IH: "\<not> has_directive kw (re_sub (Directive kw) rest)"
      using less re_search_shorter [OF sr] by blast
    have last: "\<And>x y. rest = x @ dir_close kw @ y \<Longrightarrow> CHR ''\<newline>'' \<in> set x"
      using greedy_last_close [OF gp nlkw g sp2] by blast
    have line: "line_of (re_sub (Directive kw) rest) = line_of rest"
      using re_sub_first_line [OF nlkw] last by blast
    have left: "\<And>a g' b'. s = a @ dir_open kw @ g' @ dir_close kw @ b' \<Longrightarrow> g' \<noteq> [] \<Longrightarrow>
                  CHR ''\<newline>'' \<notin> set g' \<Longrightarrow> length pre \<le> length a"
      using re_search_Directive_leftmost [OF sr] by blast
    have "\<not> has_directive kw (pre @ re_sub (Directive kw) rest)"
      by (rule no_directive_across [OF nlkw s sp g left last line IH])
    then show ?thesis by (simp add: re_sub_Some [OF sr])
  qed
qed

text \<open>C31: Python's greedy, leftmost search for a directive succeeds exactly
  when the text contains the opening token, a non-empty group on one line and
  the closing token, in this order.\<close>

theorem re_search_directive_exists:
  "re_search (Directive kw) s \<noteq> None \<longleftrightarrow>
     (\<exists>a g b. s = a @ dir_open kw @ g @ dir_close kw @ b \<and> g \<noteq> [] \<and> CHR ''\<newline>'' \<notin> set g)"
  by (simp add: re_search_directive_None has_directive_iff)

text \<open>A description that is one directive: the search finds it at the start
and leaves nothing after it.\<close>

lemma match_at_single_directive:
  assumes "g \<noteq> []" and "CHR ''\<newline>'' \<notin> set g"
  shows "match_at (Directive kw) (dir_open kw @ g @ dir_close kw) = Some (g, [])"
proof -
  let ?body = "g @ dir_close kw"
  have sp: "dropWhile is_space (dir_open kw @ g @ dir_close kw) = dir_open kw @ g @ dir_close kw"
    by (simp add: dir_open_def is_space_def)
  have lo: "length g \<le> length (line_of ?body)"
    using assms(2) by (simp add: line_of_append_no_nl)
  have short: "\<not> starts_with (dir_close kw) (drop m ?body)" if "length g < m" for m
  proof -
    have len: "length (drop m ?body) < length (dir_close kw)" using that by (simp add: dir_close_def)
    show ?thesis
    proof
      assume "starts_with (dir_close kw) (drop m ?body)"
      then obtain u where "drop m ?body = dir_close kw @ u" by (auto simp: starts_with_iff)
      then have "length (dir_close kw) \<le> length (drop m ?body)" by (metis le_add1 length_append)
      with len show False by simp
    qed
  qed
  have "greedy_plus (starts_with (dir_close kw)) ?body = Some (length g)"
    unfolding greedy_plus_Some using assms(1) lo short by (simp add: starts_with_iff Suc_le_eq)
  then show ?thesis using sp by (simp add: starts_with_iff)
qed

lemma re_search_single_directive:
  "g \<noteq> [] \<Longrightarrow> CHR ''\<newline>'' \<notin> set g \<Longrightarrow>
   re_search (Directive kw) (dir_open kw @ g @ dir_close kw) = Some ([], g, [])"
  using match_at_single_directive [of g kw] by (simp add: dir_open_def)

lemma re_search_Nil_directive: "re_search (Directive kw) [] = None"
  by (simp add: starts_with_iff dir_open_def)

end
