(* ===== verification/Doc_Function.thy ===== *)
theory Doc_Function
  imports Directive_Removal "HOL-Library.Sublist"
begin

text \<open>
  \<open>parse_function_doc\<close> of \<open>src/autoui/lib/doc_function.py\<close>: the DocSchema
  extractor. The Google-style docstring parser (\<open>docstring_parser.parse\<close>) and
  \<open>inspect.getfullargspec\<close> are collaborators outside the repository: the model
  takes their results, the parsed \<open>docstring\<close> record and the list of argument
  names, as inputs. The parser's parameter objects are \<open>docstring_param\<close>; the
  two attributes the code adds to them on the fly (\<open>input_type\<close> and
  \<open>values\<close>) make the extended record \<open>param_spec\<close>, so that a parameter that
  went through the loop of lines 34--53 has a different type from one that did not.
\<close>

record docstring_param =
  arg_name :: string
  description :: string
  is_optional :: bool
  type_name :: "string option"
  default :: "string option"

record param_spec = docstring_param +
  input_type :: string
  param_values :: "string list option"

record 'p docstring =
  short_description :: "string option"
  long_description :: "string option"
  params :: "'p list"

text \<open>The parameter \<open>p\<close> after the loop body has set its description, its
  \<open>input_type\<close> and its \<open>values\<close>.\<close>

definition with_widget :: "docstring_param \<Rightarrow> string \<Rightarrow> string \<Rightarrow> string list option \<Rightarrow> param_spec" where
  "with_widget p d it vs =
     \<lparr>arg_name = arg_name p, description = d, is_optional = is_optional p,
      type_name = type_name p, default = default p, input_type = it, param_values = vs\<rparr>"

text \<open>Line 36: the optional removal of a trailing \<open>". Defaults to X."\<close>.\<close>

definition strip_default_text :: "bool \<Rightarrow> string \<Rightarrow> string" where
  "strip_default_text remove_default_text d =
     (if remove_default_text then re_sub description_default_text_reg d else d)"

text \<open>
  The loop body, lines 35--53. The test \<open>param.input_type in ("select")\<close> of
  line 43 is a test against the string \<open>"select"\<close>, not against a one-element
  tuple (there is no comma), so it is Python's substring test \<open>py_str_in\<close>.
\<close>

definition process_param :: "bool \<Rightarrow> docstring_param \<Rightarrow> param_spec result" where
  "process_param remove_default_text p =
     (let d0 = strip_default_text remove_default_text (description p) in
      case re_search input_type_reg d0 of
        Some (_, it, _) \<Rightarrow>
          (let d1 = re_sub input_type_reg d0 in
           if py_str_in it ''select'' then
             (case re_search values_reg d1 of
                None \<Rightarrow> Inl (SelectWithoutValues (arg_name p))
              | Some (_, vs, _) \<Rightarrow>
                  Inr (with_widget p (re_sub values_reg d1) it (Some (py_split CHR '';'' vs))))
           else Inr (with_widget p d1 it None))
      | None \<Rightarrow>
          Inr (with_widget p d0 (if type_name p = Some ''bool'' then ''checkbox'' else ''text'') None))"

text \<open>The loop of line 34: the parameters in order, the first error raised.\<close>

fun process_params :: "bool \<Rightarrow> docstring_param list \<Rightarrow> param_spec list result" where
  "process_params r [] = Inr []"
| "process_params r (p # ps) =
     (case process_param r p of
        Inl e \<Rightarrow> Inl e
      | Inr q \<Rightarrow> (case process_params r ps of Inl e \<Rightarrow> Inl e | Inr qs \<Rightarrow> Inr (q # qs)))"

text \<open>Lines 16--22: the three diagnostic lists of the mismatch error.\<close>

definition doc_mismatch :: "string list \<Rightarrow> string list \<Rightarrow> py_error" where
  "doc_mismatch function_args function_doc_args =
     DocMismatch
       [x \<leftarrow> function_args. x \<notin> set function_doc_args]
       [x \<leftarrow> function_doc_args. x \<notin> set function_args]
       [(actual, doc). (actual, doc) \<leftarrow> zip function_args function_doc_args, actual \<noteq> doc]"

text \<open>\<open>parse_function_doc(function, remove_default_text)\<close>: \<open>function_args\<close> is
  \<open>getfullargspec(function).args\<close> and \<open>function_doc\<close> the parsed docstring.\<close>

definition parse_function_doc ::
  "bool \<Rightarrow> string list \<Rightarrow> docstring_param docstring \<Rightarrow> param_spec docstring result" where
  "parse_function_doc remove_default_text function_args function_doc =
     (let function_doc_args = map arg_name (params function_doc) in
      if function_args \<noteq> function_doc_args then Inl (doc_mismatch function_args function_doc_args)
      else
        (case process_params remove_default_text (params function_doc) of
           Inl e \<Rightarrow> Inl e
         | Inr ps \<Rightarrow> Inr \<lparr>short_description = short_description function_doc,
                          long_description = long_description function_doc, params = ps\<rparr>))"

text \<open>The guard of the \<open>ValueError\<close> of lines 46--48, stated on its own: the
  parameter declares a widget whose name passes the test of line 43 and the
  description left after removing the widget directive declares no values.\<close>

definition select_missing_values :: "bool \<Rightarrow> docstring_param \<Rightarrow> bool" where
  "select_missing_values r p \<longleftrightarrow>
     (let d0 = strip_default_text r (description p) in
      case re_search input_type_reg d0 of
        None \<Rightarrow> False
      | Some (_, it, _) \<Rightarrow> py_str_in it ''select'' \<and> re_search values_reg (re_sub input_type_reg d0) = None)"

text \<open>The well-formedness of a parameter of a schema: it names a widget, and
  when it has choices the widget passes the test of line 43 and the choices
  are a non-empty list of texts without the separator.\<close>

definition param_wf :: "param_spec \<Rightarrow> bool" where
  "param_wf q \<longleftrightarrow>
     input_type q \<noteq> [] \<and>
     (case param_values q of
        None \<Rightarrow> True
      | Some vs \<Rightarrow> py_str_in (input_type q) ''select'' \<and> vs \<noteq> [] \<and> list_all (\<lambda>v. CHR '';'' \<notin> set v) vs)"

text \<open>The docstrings of \<open>src/test.py\<close>: \<open>test_params(a: str, b: bool = True)\<close>
  as Google-style parsing gives it, and the two functions without parameters.\<close>

definition test_params_a :: docstring_param where
  "test_params_a = \<lparr>arg_name = ''a'', description = ''descr a'', is_optional = False,
     type_name = Some ''str'', default = None\<rparr>"

definition test_params_b :: docstring_param where
  "test_params_b = \<lparr>arg_name = ''b'', description = ''descr b. Defaults to True.'',
     is_optional = True, type_name = Some ''bool'', default = Some ''True''\<rparr>"

definition test_params_doc :: "docstring_param docstring" where
  "test_params_doc = \<lparr>short_description = Some ''test_params function'',
     long_description = Some ''long descr test_params'', params = [test_params_a, test_params_b]\<rparr>"

definition test_noparam_doc :: "docstring_param docstring" where
  "test_noparam_doc = \<lparr>short_description = Some ''test_noparam function'',
     long_description = Some ''long descr test_noparam'', params = []\<rparr>"

definition test_err_doc :: "docstring_param docstring" where
  "test_err_doc = \<lparr>short_description = Some ''test_err function'',
     long_description = Some ''long descr test_err'', params = []\<rparr>"

text \<open>Parameters with widget directives, for the witnesses: a select with
  its values, a select without values, and a widget named \<open>lect\<close>.\<close>

definition choice_param :: docstring_param where
  "choice_param = \<lparr>arg_name = ''mode'',
     description = ''pick one ::type select endtype:: ::values fast;slow endvalues::'',
     is_optional = True, type_name = Some ''str'', default = Some (CHR 0x27 # ''fast'' @ [CHR 0x27])\<rparr>"

definition bare_select_param :: docstring_param where
  "bare_select_param = \<lparr>arg_name = ''mode'', description = ''pick one ::type select endtype::'',
     is_optional = False, type_name = Some ''str'', default = None\<rparr>"

definition lect_param :: docstring_param where
  "lect_param = \<lparr>arg_name = ''when'', description = ''::type lect endtype::'',
     is_optional = False, type_name = Some ''str'', default = None\<rparr>"

text \<open>Two descriptions where directive text survives extraction: removing the
  values directive joins \<open>::ty\<close> and \<open>pe x endtype::\<close>, and a widget other than
  a select keeps its values directive.\<close>

definition residue_param :: docstring_param where
  "residue_param = \<lparr>arg_name = ''mode'',
     description = ''::type select endtype::'' @ CHR ''\<newline>'' # ''::ty::values a endvalues::pe x endtype::'',
     is_optional = False, type_name = Some ''str'', default = None\<rparr>"

definition kept_values_param :: docstring_param where
  "kept_values_param = \<lparr>arg_name = ''when'', description = ''a date ::type date endtype:: ::values x endvalues::'',
     is_optional = False, type_name = Some ''str'', default = None\<rparr>"

section \<open>Lemmas\<close>

lemmas example_params = choice_param_def bare_select_param_def lect_param_def residue_param_def
  kept_values_param_def

lemmas test_docs = test_params_a_def test_params_b_def test_params_doc_def
  test_noparam_doc_def test_err_doc_def

lemma with_widget_fields [simp]:
  "arg_name (with_widget p d it vs) = arg_name p"
  "description (with_widget p d it vs) = d"
  "is_optional (with_widget p d it vs) = is_optional p"
  "type_name (with_widget p d it vs) = type_name p"
  "default (with_widget p d it vs) = default p"
  "input_type (with_widget p d it vs) = it"
  "param_values (with_widget p d it vs) = vs"
  by (simp_all add: with_widget_def)

lemma process_param_Inr_fields:
  assumes "process_param r p = Inr q"
  shows "arg_name q = arg_name p \<and> is_optional q = is_optional p \<and>
         type_name q = type_name p \<and> default q = default p"
  using assms by (auto simp: process_param_def Let_def split: option.splits prod.splits if_splits)

lemma process_param_Inl:
  "process_param r p = Inl e \<longleftrightarrow> select_missing_values r p \<and> e = SelectWithoutValues (arg_name p)"
  by (auto simp: process_param_def select_missing_values_def Let_def
      split: option.splits prod.splits if_splits)

lemma process_param_ok:
  "\<not> select_missing_values r p \<Longrightarrow> \<exists>q. process_param r p = Inr q"
  by (cases "process_param r p") (auto simp: process_param_Inl)

lemma process_params_Inl:
  "process_params r ps = Inl e \<Longrightarrow> \<exists>p \<in> set ps. e = SelectWithoutValues (arg_name p)"
  by (induction ps) (auto simp: process_param_Inl split: sum.splits)

lemma process_params_Inr:
  "process_params r ps = Inr qs \<longleftrightarrow> list_all2 (\<lambda>p q. process_param r p = Inr q) ps qs"
proof (induction ps arbitrary: qs)
  case Nil
  then show ?case by auto
next
  case (Cons p ps)
  have "process_params r (p # ps) = Inr qs \<longleftrightarrow>
        (\<exists>q qs'. qs = q # qs' \<and> process_param r p = Inr q \<and> process_params r ps = Inr qs')"
    by (auto split: sum.splits)
  with Cons.IH show ?case by (auto simp: list_all2_Cons1)
qed

lemma process_params_ok:
  "\<forall>p \<in> set ps. \<not> select_missing_values r p \<Longrightarrow> \<exists>qs. process_params r ps = Inr qs"
proof (induction ps)
  case Nil
  then show ?case by simp
next
  case (Cons p ps)
  then obtain q qs where "process_param r p = Inr q" "process_params r ps = Inr qs"
    using process_param_ok by fastforce
  then show ?case by simp
qed

lemma process_params_names:
  "process_params r ps = Inr qs \<Longrightarrow> map arg_name qs = map arg_name ps"
proof (induction ps arbitrary: qs)
  case Nil
  then show ?case by simp
next
  case (Cons p ps)
  then show ?case
    by (auto split: sum.splits dest: process_param_Inr_fields)
qed

lemma parse_function_doc_Inl_mismatch:
  "function_args \<noteq> map arg_name (params d) \<Longrightarrow>
   parse_function_doc r function_args d = Inl (doc_mismatch function_args (map arg_name (params d)))"
  by (simp add: parse_function_doc_def)

lemma zip_mismatch_Nil:
  "length xs = length ys \<Longrightarrow> [(a, d). (a, d) \<leftarrow> zip xs ys, a \<noteq> d] = [] \<Longrightarrow> xs = ys"
proof (induction xs ys rule: list_induct2)
  case Nil
  then show ?case by simp
next
  case (Cons x xs y ys)
  then show ?case by (cases "x = y") auto
qed

lemma distinct_same_set_length:
  "distinct xs \<Longrightarrow> distinct ys \<Longrightarrow> set xs = set ys \<Longrightarrow> length xs = length ys"
  by (metis distinct_card)

lemma mem_mismatch_pairs:
  "(a, d) \<in> set [(a, d). (a, d) \<leftarrow> zip xs ys, a \<noteq> d] \<longleftrightarrow> (a, d) \<in> set (zip xs ys) \<and> a \<noteq> d"
  by auto

lemma mismatch_pairs_nth:
  "[(a, b). (a, b) \<leftarrow> zip xs ys, a \<noteq> b] =
   [(xs ! i, ys ! i). i \<leftarrow> [0..<min (length xs) (length ys)], xs ! i \<noteq> ys ! i]"
proof -
  have "zip xs ys = map (\<lambda>i. (xs ! i, ys ! i)) [0..<min (length xs) (length ys)]"
    by (rule nth_equalityI) simp_all
  then show ?thesis by (simp add: comp_def)
qed

lemma mismatch_pairs_Nil_iff:
  "[(a, b). (a, b) \<leftarrow> zip xs ys, a \<noteq> b] = [] \<longleftrightarrow> prefix xs ys \<or> prefix ys xs"
proof (induction xs arbitrary: ys)
  case (Cons x xs)
  then show ?case by (cases ys) auto
qed simp

text \<open>C1: a function whose documented parameters match its signature name for
  name and position, and none of which declares a select widget without values,
  gets a schema; its parameters are the documented ones in signature order, each
  processed by the loop body, and the descriptions are kept.\<close>

theorem parse_function_doc_success:
  assumes "function_args = map arg_name (params d)"
    and "\<forall>p \<in> set (params d). \<not> select_missing_values r p"
  shows "\<exists>d'. parse_function_doc r function_args d = Inr d' \<and>
           map arg_name (params d') = function_args \<and>
           list_all2 (\<lambda>p q. process_param r p = Inr q) (params d) (params d') \<and>
           short_description d' = short_description d \<and>
           long_description d' = long_description d"
proof -
  obtain qs where qs: "process_params r (params d) = Inr qs"
    using process_params_ok [OF assms(2)] by blast
  let ?d' = "\<lparr>short_description = short_description d, long_description = long_description d,
              params = qs\<rparr>"
  have "parse_function_doc r function_args d = Inr ?d'"
    using assms(1) qs by (simp add: parse_function_doc_def)
  moreover have "map arg_name qs = function_args"
    using assms(1) process_params_names [OF qs] by simp
  moreover have "list_all2 (\<lambda>p q. process_param r p = Inr q) (params d) qs"
    using qs process_params_Inr by blast
  ultimately show ?thesis by auto
qed

text \<open>C2: when the signature and the documentation differ, extraction fails with
  the mismatch error, whose first list holds exactly the undocumented arguments,
  whose second list holds exactly the documented names absent from the signature,
  and whose third list is the pairs (argument, documented name) at the common
  positions where they differ, in position order, and nothing else.\<close>

theorem parse_function_doc_mismatch:
  assumes "function_args \<noteq> map arg_name (params d)"
  shows "\<exists>missing excess.
           parse_function_doc r function_args d =
             Inl (DocMismatch missing excess
                    [(function_args ! i, arg_name (params d ! i)).
                       i \<leftarrow> [0..<min (length function_args) (length (params d))],
                       function_args ! i \<noteq> arg_name (params d ! i)]) \<and>
           set missing = set function_args - set (map arg_name (params d)) \<and>
           set excess = set (map arg_name (params d)) - set function_args"
proof -
  let ?ds = "map arg_name (params d)"
  have o: "[(a, b). (a, b) \<leftarrow> zip function_args ?ds, a \<noteq> b] =
      [(function_args ! i, arg_name (params d ! i)).
         i \<leftarrow> [0..<min (length function_args) (length (params d))], function_args ! i \<noteq> arg_name (params d ! i)]"
    unfolding mismatch_pairs_nth by (intro arg_cong [where f = concat] map_cong) auto
  have "parse_function_doc r function_args d =
          Inl (DocMismatch [x \<leftarrow> function_args. x \<notin> set ?ds] [x \<leftarrow> ?ds. x \<notin> set function_args]
                 [(a, b). (a, b) \<leftarrow> zip function_args ?ds, a \<noteq> b])"
    using assms by (simp add: parse_function_doc_def doc_mismatch_def Let_def)
  then show ?thesis unfolding o by auto
qed

theorem parse_function_doc_success_witness:
  "\<exists>d'. parse_function_doc True [''a'', ''b''] test_params_doc = Inr d' \<and>
     map arg_name (params d') = [''a'', ''b''] \<and>
     list_all2 (\<lambda>p q. process_param True p = Inr q) (params test_params_doc) (params d') \<and>
     short_description d' = Some ''test_params function'' \<and>
     long_description d' = Some ''long descr test_params''"
proof -
  have h1: "[''a'', ''b''] = map arg_name (params test_params_doc)"
    by (simp add: test_docs)
  have h2: "\<forall>p \<in> set (params test_params_doc). \<not> select_missing_values True p"
    by (simp add: test_docs select_missing_values_def strip_default_text_def re_sub.simps regex_eval cong: option.case_cong_weak)
  from parse_function_doc_success [OF h1 h2] show ?thesis by (simp add: test_docs)
qed

theorem parse_function_doc_mismatch_witness:
  "\<exists>missing excess.
     parse_function_doc False [''b'', ''c''] test_params_doc =
       Inl (DocMismatch missing excess [(''b'', ''a''), (''c'', ''b'')]) \<and>
     set missing = {''c''} \<and> set excess = {''a''}"
proof -
  have h: "[''b'', ''c''] \<noteq> map arg_name (params test_params_doc)" by (simp add: test_docs)
  from parse_function_doc_mismatch [OF h, of False] show ?thesis
    by (simp add: test_docs upt_rec insert_commute)
qed

text \<open>C3: for a function whose signature and documentation have no repeated
  names, a mismatch error always carries at least one non-empty diagnostic list.\<close>

theorem doc_mismatch_nonempty:
  assumes "distinct function_args" and "distinct (map arg_name (params d))"
    and "parse_function_doc r function_args d = Inl (DocMismatch missing excess order)"
  shows "missing \<noteq> [] \<or> excess \<noteq> [] \<or> order \<noteq> []"
proof (rule ccontr)
  let ?ds = "map arg_name (params d)"
  assume "\<not> (missing \<noteq> [] \<or> excess \<noteq> [] \<or> order \<noteq> [])"
  then have empty: "missing = []" "excess = []" "order = []" by auto
  have ne: "function_args \<noteq> ?ds"
  proof
    assume "function_args = ?ds"
    with assms(3) have "process_params r (params d) = Inl (DocMismatch missing excess order)"
      by (simp add: parse_function_doc_def split: sum.splits)
    then show False by (auto dest: process_params_Inl)
  qed
  from assms(3) parse_function_doc_Inl_mismatch [OF ne]
  have "doc_mismatch function_args ?ds = DocMismatch missing excess order" by simp
  then have lists: "missing = [x \<leftarrow> function_args. x \<notin> set ?ds]"
      "excess = [x \<leftarrow> ?ds. x \<notin> set function_args]"
      "order = [(a, b). (a, b) \<leftarrow> zip function_args ?ds, a \<noteq> b]"
    unfolding doc_mismatch_def by simp_all
  have "set function_args \<subseteq> set ?ds"
    using empty(1) lists(1) by (simp add: filter_empty_conv subset_iff)
  moreover have "set ?ds \<subseteq> set function_args"
    using empty(2) lists(2) by (simp only: filter_empty_conv subset_iff) blast
  ultimately have "set function_args = set ?ds" by (rule equalityI)
  then have "length function_args = length ?ds"
    by (rule distinct_same_set_length [OF assms(1,2)])
  then have "function_args = ?ds"
    using empty(3) lists(3) by (simp add: zip_mismatch_Nil)
  with ne show False by contradiction
qed

theorem doc_mismatch_nonempty_witness:
  "parse_function_doc False [''b'', ''a''] test_params_doc =
     Inl (DocMismatch [] [] [(''b'', ''a''), (''a'', ''b'')]) \<and>
   [(''b'', ''a''), (''a'', ''b'')] \<noteq> []"
proof -
  have h: "parse_function_doc False [''b'', ''a''] test_params_doc =
             Inl (DocMismatch [] [] [(''b'', ''a''), (''a'', ''b'')])"
    by (simp add: test_docs parse_function_doc_def doc_mismatch_def)
  have "distinct [''b'', ''a'']" and "distinct (map arg_name (params test_params_doc))"
    by (simp_all add: test_docs)
  from doc_mismatch_nonempty [OF this h] h show ?thesis by simp
qed

text \<open>C4: a mismatch error carries three empty diagnostic lists exactly when the
  signature and the documentation differ but name the same parameters and one
  is a prefix of the other (a name repeated at the end of one of them): only
  then do the lists fail to account for the discrepancy.\<close>

theorem doc_mismatch_lists_empty:
  "parse_function_doc r function_args d = Inl (DocMismatch [] [] []) \<longleftrightarrow>
   function_args \<noteq> map arg_name (params d) \<and> set function_args = set (map arg_name (params d)) \<and>
   (prefix function_args (map arg_name (params d)) \<or> prefix (map arg_name (params d)) function_args)"
proof (cases "function_args = map arg_name (params d)")
  case True
  have "process_params r (params d) \<noteq> Inl (DocMismatch [] [] [])"
    using process_params_Inl by fastforce
  with True show ?thesis by (auto simp: parse_function_doc_def split: sum.splits)
next
  case False
  let ?ds = "map arg_name (params d)"
  have r: "parse_function_doc r function_args d =
             Inl (DocMismatch [x \<leftarrow> function_args. x \<notin> set ?ds] [x \<leftarrow> ?ds. x \<notin> set function_args]
                    [(a, b). (a, b) \<leftarrow> zip function_args ?ds, a \<noteq> b])"
    using False by (simp add: parse_function_doc_Inl_mismatch doc_mismatch_def)
  have m: "[x \<leftarrow> function_args. x \<notin> set ?ds] = [] \<longleftrightarrow> set function_args \<subseteq> set ?ds"
    by (auto simp: filter_empty_conv)
  have e: "[x \<leftarrow> ?ds. x \<notin> set function_args] = [] \<longleftrightarrow> set ?ds \<subseteq> set function_args"
    by (simp only: filter_empty_conv subset_iff) blast
  show ?thesis
    unfolding r sum.inject py_error.inject m e mismatch_pairs_Nil_iff using False by blast
qed

theorem doc_mismatch_lists_empty_witness:
  "parse_function_doc False [''a'']
     \<lparr>short_description = None, long_description = None, params = [test_params_a, test_params_a]\<rparr> =
   Inl (DocMismatch [] [] [])"
  using doc_mismatch_lists_empty [of False "[''a'']"
      "\<lparr>short_description = None, long_description = None, params = [test_params_a, test_params_a]\<rparr>"]
  by (simp add: test_docs)

text \<open>C5: a parameter whose description carries no widget directive gets the
  widget \<open>checkbox\<close> when its declared type is \<open>bool\<close> and \<open>text\<close> otherwise,
  no choices, and its description unchanged.\<close>

theorem process_param_default_widget:
  assumes "re_search input_type_reg (strip_default_text r (description p)) = None"
  shows "\<exists>q. process_param r p = Inr q \<and>
           input_type q = (if type_name p = Some ''bool'' then ''checkbox'' else ''text'') \<and>
           param_values q = None \<and> description q = strip_default_text r (description p)"
  using assms by (simp add: process_param_def)

theorem process_param_default_widget_witness:
  "\<exists>q. process_param False test_params_b = Inr q \<and> input_type q = ''checkbox'' \<and>
     param_values q = None \<and> description q = ''descr b. Defaults to True.''"
proof -
  have h: "re_search input_type_reg (strip_default_text False (description test_params_b)) = None"
    by (simp add: test_docs strip_default_text_def regex_eval)
  from process_param_default_widget [OF h] show ?thesis
    by (simp add: test_docs strip_default_text_def)
qed

text \<open>C6: a parameter that declares a widget passing the \<open>select\<close> test of line 43
  but no values directive makes the extraction fail with the select error naming
  the parameter.\<close>

theorem process_param_select_no_values:
  assumes "re_search input_type_reg (strip_default_text r (description p)) = Some (pre, it, post)"
    and "py_str_in it ''select''"
    and "re_search values_reg (re_sub input_type_reg (strip_default_text r (description p))) = None"
  shows "process_param r p = Inl (SelectWithoutValues (arg_name p))"
  using assms by (simp add: process_param_def)

theorem process_param_select_no_values_witness:
  "process_param False bare_select_param = Inl (SelectWithoutValues ''mode'')"
proof -
  have h1: "re_search input_type_reg (strip_default_text False (description bare_select_param)) =
              Some (''pick one'', ''select'', [])"
    by (simp add: example_params strip_default_text_def regex_eval)
  have h2: "py_str_in ''select'' ''select''" by (rule py_str_in_refl)
  have h3: "re_search values_reg (re_sub input_type_reg
              (strip_default_text False (description bare_select_param))) = None"
    by (simp add: example_params strip_default_text_def re_sub.simps regex_eval cong: option.case_cong_weak)
  from process_param_select_no_values [OF h1 h2 h3] show ?thesis
    by (simp add: example_params)
qed

text \<open>C7: a select widget with a values directive gets as choices the directive's
  text split at every semicolon, in order.\<close>

theorem process_param_select_values:
  assumes "re_search input_type_reg (strip_default_text r (description p)) = Some (pre, it, post)"
    and "py_str_in it ''select''"
    and "re_search values_reg (re_sub input_type_reg (strip_default_text r (description p))) =
           Some (pre', vs, post')"
  shows "\<exists>q. process_param r p = Inr q \<and> input_type q = it \<and>
           param_values q = Some (py_split CHR '';'' vs)"
  using assms by (simp add: process_param_def)

theorem process_param_select_values_witness:
  "\<exists>q. process_param False choice_param = Inr q \<and> input_type q = ''select'' \<and>
     param_values q = Some [''fast'', ''slow'']"
proof -
  have h1: "re_search input_type_reg (strip_default_text False (description choice_param)) =
              Some (''pick one'', ''select'', ''::values fast;slow endvalues::'')"
    by (simp add: example_params strip_default_text_def regex_eval)
  have h2: "py_str_in ''select'' ''select''" by (rule py_str_in_refl)
  have h3: "re_search values_reg (re_sub input_type_reg
              (strip_default_text False (description choice_param))) =
              Some (''pick one'', ''fast;slow'', [])"
    by (simp add: example_params strip_default_text_def re_sub.simps regex_eval cong: option.case_cong_weak)
  from process_param_select_values [OF h1 h2 h3] show ?thesis
    by (simp add: Let_def)
qed

text \<open>C8: the test of line 43 is a substring test: for a description that is
  one type directive naming a widget \<open>w\<close>, extraction fails with the select
  error exactly when \<open>w\<close> is a substring of \<open>select\<close> (\<open>lect\<close>, \<open>e\<close>, ...),
  and otherwise gives the widget \<open>w\<close> with an empty description and no
  choices.\<close>

theorem select_substring_test:
  assumes "description p = ''::type '' @ w @ '' endtype::''" and "w \<noteq> []" and "CHR ''\<newline>'' \<notin> set w"
  shows "process_param False p =
           (if py_str_in w ''select'' then Inl (SelectWithoutValues (arg_name p)) else Inr (with_widget p [] w None))"
proof -
  have d: "description p = dir_open ''type'' @ w @ dir_close ''type''"
    using assms(1) by (simp add: dir_open_def dir_close_def)
  have s: "re_search input_type_reg (description p) = Some ([], w, [])"
    unfolding d input_type_reg_def by (rule re_search_single_directive [OF assms(2,3)])
  have "re_sub input_type_reg (description p) = []"
    using re_sub_Some [OF s] re_sub_None [OF re_search_Nil_directive] by (simp add: input_type_reg_def)
  moreover have "re_search values_reg [] = None" unfolding values_reg_def by (rule re_search_Nil_directive)
  ultimately show ?thesis using s
    by (simp add: process_param_def strip_default_text_def del: re_search.simps)
qed

theorem select_substring_test_witness:
  "process_param False lect_param = Inl (SelectWithoutValues ''when'')"
proof -
  have "description lect_param = ''::type '' @ ''lect'' @ '' endtype::''"
    "''lect'' \<noteq> []" "CHR ''\<newline>'' \<notin> set ''lect''" by (simp_all add: lect_param_def)
  moreover have "py_str_in ''lect'' ''select''" by (simp add: py_str_in_def starts_with_def)
  ultimately show ?thesis using select_substring_test [of lect_param "''lect''"]
    by (simp add: lect_param_def)
qed

text \<open>C9: the choices of a parameter are never empty, no choice contains a
  semicolon, and joining them with semicolons gives back the text of the values
  directive the description declared.\<close>

theorem process_param_values_roundtrip:
  assumes "process_param r p = Inr q" and "param_values q = Some vs"
  shows "vs \<noteq> [] \<and> (\<forall>v \<in> set vs. CHR '';'' \<notin> set v) \<and>
         (\<exists>pre post. re_search values_reg (re_sub input_type_reg (strip_default_text r (description p))) =
                       Some (pre, py_join CHR '';'' vs, post))"
proof -
  obtain g pre post where
    g: "re_search values_reg (re_sub input_type_reg (strip_default_text r (description p))) = Some (pre, g, post)"
    and vs: "vs = py_split CHR '';'' g"
    using assms by (auto simp: process_param_def Let_def split: option.splits prod.splits if_splits)
  have "py_join CHR '';'' vs = g" by (simp add: vs py_join_split)
  with g vs show ?thesis by (auto dest: py_split_no_sep)
qed

theorem process_param_values_roundtrip_witness:
  "process_param False choice_param = Inr (with_widget choice_param ''pick one'' ''select'' (Some [''fast'', ''slow''])) \<and>
   [''fast'', ''slow''] \<noteq> [] \<and>
   (\<exists>pre post. re_search values_reg (re_sub input_type_reg (strip_default_text False (description choice_param))) =
      Some (pre, ''fast;slow'', post))"
proof -
  have h: "process_param False choice_param = Inr (with_widget choice_param ''pick one'' ''select'' (Some [''fast'', ''slow'']))"
    by (simp add: example_params process_param_def strip_default_text_def re_sub.simps regex_eval
        py_str_in_def with_widget_def cong: option.case_cong_weak)
  from process_param_values_roundtrip [OF h] h show ?thesis by simp
qed

lemma parse_function_doc_descriptions:
  "parse_function_doc r function_args d = Inr d' \<Longrightarrow>
   short_description d' = short_description d \<and> long_description d' = long_description d"
  by (auto simp: parse_function_doc_def Let_def split: if_splits sum.splits)

lemma process_param_wf: "process_param r p = Inr q \<Longrightarrow> param_wf q"
  by (auto simp: process_param_def param_wf_def Let_def list_all_iff
      split: option.splits prod.splits if_splits
      dest: re_search_group_nonempty py_split_no_sep)

text \<open>C30: every parameter of a schema the extractor produces is well formed
  (\<open>param_wf\<close>), and the schema has the signature's parameters in order.\<close>

theorem parse_function_doc_wf:
  assumes "parse_function_doc r function_args d = Inr d'"
  shows "list_all param_wf (params d') \<and> map arg_name (params d') = function_args"
proof -
  from assms have args: "function_args = map arg_name (params d)"
    and ps: "process_params r (params d) = Inr (params d')"
    by (auto simp: parse_function_doc_def Let_def split: if_splits sum.splits)
  have "list_all2 (\<lambda>p q. process_param r p = Inr q) (params d) (params d')"
    using ps process_params_Inr by blast
  then have "list_all param_wf (params d')"
    by (induction rule: list_all2_induct) (auto dest: process_param_wf)
  with args process_params_names [OF ps] show ?thesis by simp
qed

theorem parse_function_doc_wf_witness:
  "parse_function_doc False [''mode'']
     \<lparr>short_description = None, long_description = None, params = [choice_param]\<rparr> =
     Inr \<lparr>short_description = None, long_description = None,
          params = [with_widget choice_param ''pick one'' ''select'' (Some [''fast'', ''slow''])]\<rparr> \<and>
   list_all param_wf [with_widget choice_param ''pick one'' ''select'' (Some [''fast'', ''slow''])]"
proof -
  have h: "parse_function_doc False [''mode'']
     \<lparr>short_description = None, long_description = None, params = [choice_param]\<rparr> =
     Inr \<lparr>short_description = None, long_description = None,
          params = [with_widget choice_param ''pick one'' ''select'' (Some [''fast'', ''slow''])]\<rparr>"
    by (simp add: parse_function_doc_def example_params process_param_def strip_default_text_def
        re_sub.simps regex_eval py_str_in_def with_widget_def cong: option.case_cong_weak)
  from parse_function_doc_wf [OF h] h show ?thesis by simp
qed

text \<open>C32: the directive the extractor consumes is gone from the description it
  keeps: for a select widget no values directive is left, for any other widget
  no type directive is left.\<close>

theorem process_param_directive_removed:
  assumes "process_param r p = Inr q"
  shows "if py_str_in (input_type q) ''select'' then \<not> has_directive ''values'' (description q)
         else \<not> has_directive ''type'' (description q)"
proof -
  let ?d0 = "strip_default_text r (description p)"
  show ?thesis
  proof (cases "re_search input_type_reg ?d0")
    case None
    with assms have q: "q = with_widget p ?d0 (if type_name p = Some ''bool'' then ''checkbox'' else ''text'') None"
      by (simp add: process_param_def)
    have "\<not> py_str_in (input_type q) ''select''" using q by (simp add: py_str_in_def starts_with_def)
    moreover have "\<not> has_directive ''type'' (description q)"
      using None q re_search_directive_None by (simp add: input_type_reg_def)
    ultimately show ?thesis by simp
  next
    case (Some x)
    then obtain it where it: "re_search input_type_reg ?d0 = Some (fst x, it, snd (snd x))"
      by (cases x) auto
    let ?d1 = "re_sub input_type_reg ?d0"
    show ?thesis
    proof (cases "py_str_in it ''select''")
      case True
      with assms it obtain vs where
        q: "q = with_widget p (re_sub values_reg ?d1) it (Some (py_split CHR '';'' vs))"
        by (auto simp: process_param_def Let_def split: option.splits)
      have "\<not> has_directive ''values'' (re_sub (Directive ''values'') ?d1)"
        by (rule re_sub_no_directive) simp
      with q True show ?thesis by (simp add: values_reg_def)
    next
      case False
      with assms it have q: "q = with_widget p ?d1 it None"
        by (simp add: process_param_def Let_def)
      have "\<not> has_directive ''type'' (re_sub (Directive ''type'') ?d0)"
        by (rule re_sub_no_directive) simp
      with q False show ?thesis by (simp add: input_type_reg_def)
    qed
  qed
qed

theorem process_param_directive_removed_witness:
  "process_param False choice_param = Inr (with_widget choice_param ''pick one'' ''select'' (Some [''fast'', ''slow''])) \<and>
   \<not> has_directive ''values'' ''pick one''"
proof -
  have h: "process_param False choice_param = Inr (with_widget choice_param ''pick one'' ''select'' (Some [''fast'', ''slow'']))"
    by (simp add: example_params process_param_def strip_default_text_def re_sub.simps regex_eval
        py_str_in_def with_widget_def cong: option.case_cong_weak)
  from process_param_directive_removed [OF h] h show ?thesis by (simp add: py_str_in_refl)
qed

text \<open>For a select widget the type directive is removed before the values
  directive, and removing the values directive can assemble a new type
  directive: the description the schema keeps contains \<open>::type x endtype::\<close>.\<close>

lemma select_type_residue:
  "process_param False residue_param =
     Inr (with_widget residue_param (CHR ''\<newline>'' # ''::type x endtype::'') ''select'' (Some [''a''])) \<and>
   has_directive ''type'' (CHR ''\<newline>'' # ''::type x endtype::'')"
proof -
  have "process_param False residue_param =
     Inr (with_widget residue_param (CHR ''\<newline>'' # ''::type x endtype::'') ''select'' (Some [''a'']))"
    by (simp add: example_params process_param_def strip_default_text_def re_sub.simps regex_eval
        py_str_in_def cong: option.case_cong_weak)
  moreover have "has_directive ''type'' (CHR ''\<newline>'' # ''::type x endtype::'')"
    unfolding has_directive_iff
    by (rule exI [of _ "[CHR ''\<newline>'']"], rule exI [of _ "''x''"], rule exI [of _ "[]"])
       (simp add: dir_open_def dir_close_def)
  ultimately show ?thesis by simp
qed

text \<open>A widget other than a select keeps its values directive in the
  description the schema shows.\<close>

lemma non_select_values_kept:
  "process_param False kept_values_param =
     Inr (with_widget kept_values_param ''a date::values x endvalues::'' ''date'' None) \<and>
   has_directive ''values'' ''a date::values x endvalues::''"
proof -
  have "process_param False kept_values_param =
     Inr (with_widget kept_values_param ''a date::values x endvalues::'' ''date'' None)"
    by (simp add: example_params process_param_def strip_default_text_def re_sub.simps regex_eval
        py_str_in_def cong: option.case_cong_weak)
  moreover have "has_directive ''values'' ''a date::values x endvalues::''"
    unfolding has_directive_iff
    by (rule exI [of _ "''a date''"], rule exI [of _ "''x''"], rule exI [of _ "[]"])
       (simp add: dir_open_def dir_close_def)
  ultimately show ?thesis by simp
qed

end
