(* ===== verification/Web_Logger.thy ===== *)
theory Web_Logger
  imports Prelude
begin

text \<open>
  \<open>src/autoui/lib/utils.py\<close> (\<open>convert_date_to_string\<close>) and
  \<open>src/autoui/lib/web_logger.py\<close> (the handler \<open>LogHandlerWeb\<close>), with the part
  of Python's \<open>logging\<close> they rely on: a logger has a level, a list of
  handlers and ancestors; a record at a level below the logger's effective level
  (its own level, or the nearest ancestor's when its own is \<open>NOTSET\<close>) is
  dropped, otherwise every handler of the logger receives it (handlers are
  created at level \<open>NOTSET\<close>).
  The browser callback a \<open>LogHandlerWeb\<close> holds is named by a number; what the
  handler sends to it is a \<open>web_event\<close>, the four arguments of
  \<open>self.callback(datetime, record.levelname, is_error, record.msg)\<close>.
\<close>

section \<open>Dates\<close>

record datetime =
  dt_year :: nat
  dt_month :: nat
  dt_day :: nat
  dt_hour :: nat
  dt_minute :: nat
  dt_second :: nat

text \<open>The values \<open>convert_date_to_string\<close> distinguishes by \<open>type(...)\<close>: a float
  timestamp (as \<open>record.created\<close>, in whole seconds here), a \<open>datetime\<close>, or
  anything else.\<close>

datatype time_value = TFloat int | TDatetime datetime | TOther string

definition digit_char :: "nat \<Rightarrow> char" where
  "digit_char d =
     (if d = 0 then CHR ''0'' else if d = 1 then CHR ''1'' else if d = 2 then CHR ''2''
      else if d = 3 then CHR ''3'' else if d = 4 then CHR ''4'' else if d = 5 then CHR ''5''
      else if d = 6 then CHR ''6'' else if d = 7 then CHR ''7'' else if d = 8 then CHR ''8''
      else CHR ''9'')"

text \<open>\<open>str(n)\<close> for a natural number.\<close>

fun digits10 :: "nat \<Rightarrow> string" where
  "digits10 n = (if n < 10 then [digit_char n] else digits10 (n div 10) @ [digit_char (n mod 10)])"

declare digits10.simps [simp del]

definition zero_pad :: "nat \<Rightarrow> nat \<Rightarrow> string" where
  "zero_pad w n = replicate (w - length (digits10 n)) CHR ''0'' @ digits10 n"

text \<open>\<open>strftime("%Y-%m-%d %H:%M:%S")\<close> as the C library of Linux (glibc)
  renders it, which both branches of \<open>convert_date_to_string\<close> call: \<open>%Y\<close> is
  the year in decimal without padding (\<open>999\<close> for the year 999), the other
  fields are padded to two digits.\<close>

definition format_datetime :: "datetime \<Rightarrow> string" where
  "format_datetime d =
     digits10 (dt_year d) @ ''-'' @ zero_pad 2 (dt_month d) @ ''-'' @ zero_pad 2 (dt_day d) @ '' '' @
     zero_pad 2 (dt_hour d) @ '':'' @ zero_pad 2 (dt_minute d) @ '':'' @ zero_pad 2 (dt_second d)"

text \<open>\<open>convert_date_to_string\<close>, lines 10--17; \<open>localtime\<close> (the time zone) is a
  parameter.\<close>

definition convert_date_to_string :: "(int \<Rightarrow> datetime) \<Rightarrow> time_value \<Rightarrow> string result" where
  "convert_date_to_string localtime v =
     (case v of
        TFloat t \<Rightarrow> Inr (format_datetime (localtime t))
      | TDatetime d \<Rightarrow> Inr (format_datetime d)
      | TOther _ \<Rightarrow> Inl (ValueError ''no valid type''))"

text \<open>\<open>exception_detail\<close>, lines 6--7: the lines \<open>traceback.format_exception\<close>
  renders for the exception, joined; the rendered text is the \<open>exc_trace\<close> the
  exception carries.\<close>

definition exception_detail :: "py_exception \<Rightarrow> string" where
  "exception_detail e = exc_trace e"

section \<open>Logging\<close>

record log_record =
  rec_levelno :: nat
  rec_msg :: string
  rec_created :: int

definition DEBUG :: nat where "DEBUG = 10"
definition INFO :: nat where "INFO = 20"
definition WARNING :: nat where "WARNING = 30"
definition ERROR :: nat where "ERROR = 40"
definition CRITICAL :: nat where "CRITICAL = 50"

text \<open>\<open>logging.getLevelName\<close>, which gives \<open>record.levelname\<close>.\<close>

definition level_name :: "nat \<Rightarrow> string" where
  "level_name n =
     (if n = 50 then ''CRITICAL'' else if n = 40 then ''ERROR'' else if n = 30 then ''WARNING''
      else if n = 20 then ''INFO'' else if n = 10 then ''DEBUG'' else if n = 0 then ''NOTSET''
      else ''Level '' @ digits10 n)"

datatype handler = LogHandlerWeb nat | OtherHandler string

text \<open>A logger: its own level (\<open>logger.level\<close>, \<open>0\<close> for \<open>NOTSET\<close>), its
  handlers, and the levels of its ancestors, nearest first (the chain of
  \<open>logger.parent\<close>).\<close>

record logger =
  logger_level :: nat
  logger_handlers :: "handler list"
  logger_ancestor_levels :: "nat list"

text \<open>\<open>Logger.getEffectiveLevel\<close>: the first level of the chain that is not
  \<open>NOTSET\<close>, \<open>NOTSET\<close> when there is none.\<close>

fun effective_level_of :: "nat list \<Rightarrow> nat" where
  "effective_level_of [] = 0"
| "effective_level_of (l # ls) = (if l \<noteq> 0 then l else effective_level_of ls)"

definition effective_level :: "logger \<Rightarrow> nat" where
  "effective_level lg = effective_level_of (logger_level lg # logger_ancestor_levels lg)"

record web_event =
  ev_datetime :: string
  ev_levelname :: string
  ev_is_error :: bool
  ev_msg :: string

text \<open>\<open>LogHandlerWeb.emit\<close>, lines 10--13.\<close>

definition emit :: "(int \<Rightarrow> datetime) \<Rightarrow> log_record \<Rightarrow> web_event result" where
  "emit localtime r =
     (case convert_date_to_string localtime (TFloat (rec_created r)) of
        Inl e \<Rightarrow> Inl e
      | Inr dt \<Rightarrow> Inr \<lparr>ev_datetime = dt, ev_levelname = level_name (rec_levelno r),
                      ev_is_error = (ERROR \<le> rec_levelno r), ev_msg = rec_msg r\<rparr>)"

text \<open>\<open>type(handler) is type(self)\<close>: both are web handlers.\<close>

fun same_handler_type :: "handler \<Rightarrow> handler \<Rightarrow> bool" where
  "same_handler_type (LogHandlerWeb _) (LogHandlerWeb _) = True"
| "same_handler_type (OtherHandler a) (OtherHandler b) = (a = b)"
| "same_handler_type _ _ = False"

text \<open>\<open>LogHandlerWeb.add_to_logger\<close>, lines 15--22: the handler is added unless a
  handler of its type is attached already.\<close>

definition add_to_logger :: "handler \<Rightarrow> logger \<Rightarrow> logger" where
  "add_to_logger h lg =
     (if list_ex (\<lambda>h'. same_handler_type h' h) (logger_handlers lg) then lg
      else lg\<lparr>logger_handlers := logger_handlers lg @ [h]\<rparr>)"

text \<open>\<open>Logger.log\<close>: a record \<open>isEnabledFor\<close> lets through (its level is at
  least the logger's effective level) is handled by every handler of the logger
  in order; what the web handlers send, with the callback it goes to.\<close>

fun web_deliveries :: "(int \<Rightarrow> datetime) \<Rightarrow> handler list \<Rightarrow> log_record \<Rightarrow> (nat \<times> web_event) list result" where
  "web_deliveries lt [] r = Inr []"
| "web_deliveries lt (LogHandlerWeb cb # hs) r =
     (case emit lt r of
        Inl e \<Rightarrow> Inl e
      | Inr ev \<Rightarrow> (case web_deliveries lt hs r of Inl e \<Rightarrow> Inl e | Inr evs \<Rightarrow> Inr ((cb, ev) # evs)))"
| "web_deliveries lt (OtherHandler _ # hs) r = web_deliveries lt hs r"

definition logger_log :: "(int \<Rightarrow> datetime) \<Rightarrow> logger \<Rightarrow> log_record \<Rightarrow> (nat \<times> web_event) list result" where
  "logger_log lt lg r = (if effective_level lg \<le> rec_levelno r then web_deliveries lt (logger_handlers lg) r else Inr [])"

text \<open>The number of web handlers attached to a logger.\<close>

definition web_handler_count :: "logger \<Rightarrow> nat" where
  "web_handler_count lg = length (filter (\<lambda>h. same_handler_type h (LogHandlerWeb 0)) (logger_handlers lg))"

text \<open>What \<open>emit\<close> sends for a record, and the callbacks of the web handlers
  attached to a logger, in order.\<close>

definition event_of :: "(int \<Rightarrow> datetime) \<Rightarrow> log_record \<Rightarrow> web_event" where
  "event_of lt r = \<lparr>ev_datetime = format_datetime (lt (rec_created r)), ev_levelname = level_name (rec_levelno r),
                     ev_is_error = (ERROR \<le> rec_levelno r), ev_msg = rec_msg r\<rparr>"

definition web_callbacks :: "handler list \<Rightarrow> nat list" where
  "web_callbacks hs = [cb. LogHandlerWeb cb \<leftarrow> hs]"

section \<open>Lemmas\<close>

lemma same_handler_type_web: "same_handler_type h (LogHandlerWeb cb) \<longleftrightarrow> (\<exists>c. h = LogHandlerWeb c)"
  by (cases h) auto

lemma digits10_length: "n < 10 ^ k \<Longrightarrow> 0 < k \<Longrightarrow> length (digits10 n) \<le> k"
proof (induction n arbitrary: k rule: digits10.induct)
  case (1 n)
  show ?case
  proof (cases "n < 10")
    case True
    with "1.prems" show ?thesis by (simp add: digits10.simps)
  next
    case False
    have k: "1 < k"
    proof (rule ccontr)
      assume "\<not> 1 < k"
      then have "k = 1" using "1.prems"(2) by simp
      with "1.prems"(1) False show False by simp
    qed
    then have "(10::nat) ^ k = 10 ^ (k - 1) * 10" by (cases k) simp_all
    then have "n div 10 < 10 ^ (k - 1)" using "1.prems"(1) by (simp add: less_mult_imp_div_less)
    with False "1.IH" k have "length (digits10 (n div 10)) \<le> k - 1" by simp
    with False k show ?thesis by (simp add: digits10.simps [of n])
  qed
qed

lemma zero_pad_length: "length (digits10 n) \<le> w \<Longrightarrow> length (zero_pad w n) = w"
  by (simp add: zero_pad_def)

lemma zero_pad_length_bound: "n < 10 ^ w \<Longrightarrow> 0 < w \<Longrightarrow> length (zero_pad w n) = w"
  by (simp add: digits10_length zero_pad_length)

lemma emit_Inr: "emit lt r = Inr (event_of lt r)"
  by (simp add: emit_def convert_date_to_string_def event_of_def)

lemma web_deliveries_Inr:
  "web_deliveries lt hs r = Inr (map (\<lambda>cb. (cb, event_of lt r)) (web_callbacks hs))"
  by (induction lt hs r rule: web_deliveries.induct) (simp_all add: emit_Inr event_of_def web_callbacks_def)

lemma add_to_logger_web:
  "add_to_logger (LogHandlerWeb cb) lg =
     (if \<exists>c. LogHandlerWeb c \<in> set (logger_handlers lg) then lg
      else lg\<lparr>logger_handlers := logger_handlers lg @ [LogHandlerWeb cb]\<rparr>)"
  by (auto simp: add_to_logger_def list_ex_iff same_handler_type_web)

lemma web_callbacks_append [simp]: "web_callbacks (hs @ hs') = web_callbacks hs @ web_callbacks hs'"
  by (simp add: web_callbacks_def)

lemma web_callbacks_Cons [simp]:
  "web_callbacks (LogHandlerWeb cb # hs) = cb # web_callbacks hs"
  "web_callbacks (OtherHandler n # hs) = web_callbacks hs"
  "web_callbacks [] = []"
  by (simp_all add: web_callbacks_def)

lemma web_callbacks_Nil_iff: "web_callbacks hs = [] \<longleftrightarrow> (\<forall>c. LogHandlerWeb c \<notin> set hs)"
proof (induction hs)
  case (Cons h hs)
  then show ?case by (cases h) auto
qed simp

lemma add_to_logger_level [simp]: "logger_level (add_to_logger h lg) = logger_level lg"
  by (simp add: add_to_logger_def)

lemma add_to_logger_ancestors [simp]: "logger_ancestor_levels (add_to_logger h lg) = logger_ancestor_levels lg"
  by (simp add: add_to_logger_def)

lemma add_to_logger_effective_level [simp]: "effective_level (add_to_logger h lg) = effective_level lg"
  by (simp add: effective_level_def)

lemma add_to_logger_web_callbacks:
  "web_callbacks (logger_handlers (add_to_logger (LogHandlerWeb cb) lg)) =
     (if web_callbacks (logger_handlers lg) = [] then [cb] else web_callbacks (logger_handlers lg))"
  by (auto simp: add_to_logger_web web_callbacks_Nil_iff)

lemma add_to_logger_other_handlers:
  "[h \<leftarrow> logger_handlers (add_to_logger (LogHandlerWeb cb) lg). \<not> same_handler_type h (LogHandlerWeb 0)] =
   [h \<leftarrow> logger_handlers lg. \<not> same_handler_type h (LogHandlerWeb 0)]"
  by (simp add: add_to_logger_web)

lemma digits10_less_10: "n < 10 \<Longrightarrow> digits10 n = [digit_char n]"
  by (simp add: digits10.simps [of n])

lemma digits10_ge_10: "\<not> n < 10 \<Longrightarrow> digits10 n = digits10 (n div 10) @ [digit_char (n mod 10)]"
  by (simp add: digits10.simps [of n])

text \<open>Rules that evaluate \<open>str(n)\<close> and the timestamp of a record at a concrete
  date by \<open>simp\<close>.\<close>

lemmas date_eval = digits10_less_10 digits10_ge_10 digit_char_def zero_pad_def format_datetime_def

lemmas level_eval = effective_level_def DEBUG_def INFO_def WARNING_def ERROR_def CRITICAL_def

lemma web_handler_count_callbacks:
  "web_handler_count lg = length (web_callbacks (logger_handlers lg))"
proof -
  have "length (filter (\<lambda>h. same_handler_type h (LogHandlerWeb 0)) hs) = length (web_callbacks hs)" for hs
  proof (induction hs)
    case (Cons h hs)
    then show ?case by (cases h) simp_all
  qed simp
  then show ?thesis by (simp add: web_handler_count_def)
qed

text \<open>C28: attaching a handler is idempotent: attaching it a second time leaves
  the logger as the first attachment made it.\<close>

theorem add_to_logger_idempotent:
  "add_to_logger h (add_to_logger h lg) = add_to_logger h lg"
proof (cases "list_ex (\<lambda>h'. same_handler_type h' h) (logger_handlers lg)")
  case True
  then show ?thesis by (simp add: add_to_logger_def)
next
  case False
  have "same_handler_type h h" by (cases h) simp_all
  with False show ?thesis by (simp add: add_to_logger_def)
qed

text \<open>C29: the timestamp the web handler sends is the year's digits and the
  15 characters of \<open>-MM-DD HH:MM:SS\<close> for every date whose other fields are
  below 100: 19 characters for the years 1000 to 9999, fewer for earlier
  years, whose year is not padded.\<close>

theorem format_datetime_length:
  assumes "dt_month d < 100" and "dt_day d < 100"
    and "dt_hour d < 100" and "dt_minute d < 100" and "dt_second d < 100"
  shows "length (format_datetime d) = length (digits10 (dt_year d)) + 15"
proof -
  have two: "n < 100 \<Longrightarrow> length (zero_pad 2 n) = 2" for n
    by (intro zero_pad_length_bound) simp_all
  show ?thesis
    using two [OF assms(1)] two [OF assms(2)] two [OF assms(3)] two [OF assms(4)] two [OF assms(5)]
    by (simp add: format_datetime_def)
qed

theorem format_datetime_length_witness:
  "format_datetime \<lparr>dt_year = 999, dt_month = 1, dt_day = 2, dt_hour = 3, dt_minute = 4, dt_second = 5\<rparr> =
     ''999-01-02 03:04:05'' \<and>
   length (format_datetime \<lparr>dt_year = 999, dt_month = 1, dt_day = 2, dt_hour = 3, dt_minute = 4, dt_second = 5\<rparr>) = 18"
proof -
  have "length (format_datetime \<lparr>dt_year = 999, dt_month = 1, dt_day = 2, dt_hour = 3, dt_minute = 4, dt_second = 5\<rparr>) =
      length (digits10 (dt_year \<lparr>dt_year = 999, dt_month = 1, dt_day = 2, dt_hour = 3, dt_minute = 4, dt_second = 5\<rparr>)) + 15"
    by (rule format_datetime_length) simp_all
  moreover have "digits10 999 = ''999''" by (simp add: date_eval)
  moreover have "format_datetime \<lparr>dt_year = 999, dt_month = 1, dt_day = 2, dt_hour = 3, dt_minute = 4, dt_second = 5\<rparr> =
     ''999-01-02 03:04:05''"
    by (simp add: date_eval)
  ultimately show ?thesis by simp
qed

end
