(* ===== verification/Program.thy ===== *)
theory Program
  imports Doc_Function Web_Logger
begin

text \<open>
  The functions a program exposes through autoui (the values of \<open>program_list\<close>).
  A function has positional-or-keyword parameters, some with a default value
  (what \<open>getfullargspec(f).args\<close> lists), a parsed docstring, and a body that runs
  on the bound arguments and either returns or raises, after asking the process
  logger to log some messages. Calling it binds the arguments as Python does: too
  many positional arguments, an unknown or repeated keyword and a missing required
  argument are each a \<open>TypeError\<close> raised at the call.
  The three functions of \<open>src/test.py\<close> and the \<open>program_list\<close> it launches are
  modelled at the end.
\<close>

text \<open>A message the body asks the logger to log: its level and its text.\<close>

type_synonym log_call = "nat \<times> string"

datatype call_outcome =
    Returned "log_call list"
  | RaisedExc "log_call list" py_exception

record py_function =
  fun_params :: "(string \<times> pyval option) list"
  fun_doc :: "docstring_param docstring"
  fun_body :: "(string \<times> pyval) list \<Rightarrow> call_outcome"

definition fun_args :: "py_function \<Rightarrow> string list" where
  "fun_args f = map fst (fun_params f)"

fun all_bound :: "(string \<times> pyval option) list \<Rightarrow> string + (string \<times> pyval) list" where
  "all_bound [] = Inr []"
| "all_bound ((n, None) # bs) = Inl (''missing a required argument: '' @ n)"
| "all_bound ((n, Some v) # bs) = (case all_bound bs of Inl m \<Rightarrow> Inl m | Inr env \<Rightarrow> Inr ((n, v) # env))"

text \<open>Python's binding of \<open>f(*args, **kwargs)\<close>: the message of the
  \<open>TypeError\<close>, or the value of every parameter in order.\<close>

definition bind_call ::
  "(string \<times> pyval option) list \<Rightarrow> pyval list \<Rightarrow> (string \<times> pyval) list \<Rightarrow> string + (string \<times> pyval) list" where
  "bind_call ps args kwargs =
     (let names = map fst ps; pos = zip names args in
      if length names < length args then Inl ''too many positional arguments''
      else case find (\<lambda>(k, v). k \<notin> set names) kwargs of
        Some (k, v) \<Rightarrow> Inl (''got an unexpected keyword argument '' @ k)
      | None \<Rightarrow>
          (case find (\<lambda>(k, v). k \<in> set (map fst pos)) kwargs of
             Some (k, v) \<Rightarrow> Inl (''got multiple values for argument '' @ k)
           | None \<Rightarrow>
               all_bound (map (\<lambda>(n, d). (n, case map_of pos n of
                                               Some v \<Rightarrow> Some v
                                             | None \<Rightarrow> (case map_of kwargs n of Some v \<Rightarrow> Some v | None \<Rightarrow> d))) ps)))"

definition type_error :: "string \<Rightarrow> py_exception" where
  "type_error m = \<lparr>exc_type = ''TypeError'', exc_msg = m, exc_trace = ''TypeError: '' @ m,
     exc_is_exception = True\<rparr>"

definition call_function :: "py_function \<Rightarrow> pyval list \<Rightarrow> (string \<times> pyval) list \<Rightarrow> call_outcome" where
  "call_function f args kwargs =
     (case bind_call (fun_params f) args kwargs of
        Inl m \<Rightarrow> RaisedExc [] (type_error m)
      | Inr env \<Rightarrow> fun_body f env)"

section \<open>The program of \<open>src/test.py\<close>\<close>

text \<open>\<open>repr\<close> of the values the test functions print.\<close>

fun py_repr :: "pyval \<Rightarrow> string" where
  "py_repr PyNone = ''None''"
| "py_repr (PyBool b) = (if b then ''True'' else ''False'')"
| "py_repr (PyInt i) = (if i < 0 then ''-'' @ digits10 (nat (- i)) else digits10 (nat i))"
| "py_repr (PyStr s) = CHR 0x27 # s @ [CHR 0x27]"
| "py_repr (PyList vs) = ''['' @ py_join_str '', '' (map py_repr vs) @ '']''"
| "py_repr (PyDict kvs) = ''{'' @ py_join_str '', '' (map (\<lambda>(k, v). CHR 0x27 # k @ CHR 0x27 # '': '' @ py_repr v) kvs) @ ''}''"

definition env_value :: "(string \<times> pyval) list \<Rightarrow> string \<Rightarrow> pyval" where
  "env_value env n = (case map_of env n of Some v \<Rightarrow> v | None \<Rightarrow> PyNone)"

definition test_params :: py_function where
  "test_params = \<lparr>fun_params = [(''a'', None), (''b'', Some (PyBool True))],
     fun_doc = test_params_doc,
     fun_body = (\<lambda>env. Returned [(INFO, ''called test_params using ('' @ py_repr (env_value env ''a'') @
                                           '', '' @ py_repr (env_value env ''b'') @ '')'')])\<rparr>"

definition test_noparam :: py_function where
  "test_noparam = \<lparr>fun_params = [], fun_doc = test_noparam_doc,
     fun_body = (\<lambda>env. Returned [(INFO, ''called test_noparam'')])\<rparr>"

definition test_err_exception :: py_exception where
  "test_err_exception = \<lparr>exc_type = ''ValueError'', exc_msg = ''exception on test_err'',
     exc_trace = ''Traceback (most recent call last):\<newline>ValueError: exception on test_err\<newline>'',
     exc_is_exception = True\<rparr>"

definition test_err :: py_function where
  "test_err = \<lparr>fun_params = [], fun_doc = test_err_doc,
     fun_body = (\<lambda>env. RaisedExc [(INFO, ''called test_err'')] test_err_exception)\<rparr>"

text \<open>For the witnesses: a function that logs and then calls \<open>sys.exit()\<close>.\<close>

definition system_exit :: py_exception where
  "system_exit = \<lparr>exc_type = ''SystemExit'', exc_msg = [],
     exc_trace = ''Traceback (most recent call last):\<newline>SystemExit\<newline>'', exc_is_exception = False\<rparr>"

definition quit_function :: py_function where
  "quit_function = \<lparr>fun_params = [], fun_doc = test_noparam_doc,
     fun_body = (\<lambda>env. RaisedExc [(INFO, ''quitting'')] system_exit)\<rparr>"

definition test_program_list :: "py_function pydict" where
  "test_program_list = [(''test_params'', test_params), (''test_noparam'', test_noparam), (''test_err'', test_err)]"

section \<open>Lemmas\<close>

lemma all_bound_names: "all_bound bs = Inr env \<Longrightarrow> map fst env = map fst bs"
  by (induction bs arbitrary: env rule: all_bound.induct) (auto split: sum.splits)

lemma bind_call_no_params: "bind_call [] [] [] = Inr []"
  by (simp add: bind_call_def)

lemmas test_functions = test_params_def test_noparam_def test_err_def test_err_exception_def
  test_program_list_def

end
