(* ===== verification/Launcher.thy ===== *)
theory Launcher
  imports Argparse Program
begin

text \<open>
  \<open>src/autoui/launcher.py\<close>: the mode providers and the dispatcher \<open>launch\<close>.
  A selector mode (\<open>gui_launcher\<close>) adds a parser without arguments and a
  callback that starts the browser interface; a direct mode (\<open>cli_launcher\<close>,
  \<open>json_launcher\<close>) adds a parser with one sub-command per exposed function and a
  callback that calls the chosen function. The providers of the repository are the
  constructors of \<open>selector_mode\<close> and \<open>direct_mode\<close>; \<open>launch\<close> takes the
  ordered lists of them as its parameters \<open>modes_function_list\<close> and
  \<open>modes_target_function\<close>.
  The collaborators outside the repository are the fields of \<open>launch_env\<close>:
  Python's \<open>eval\<close> of a default's text, and reading and decoding a JSON file.
  The result of \<open>launch\<close> is the error it raises, or what it did: started the web
  application (with the arguments of \<open>start_web_app\<close>, whose session
  \<open>Web_Launcher\<close> models), called a function (with its keyword arguments and the
  messages it logged), or nothing, when the mode is in neither table.
\<close>

datatype selector_mode = GuiLauncher

datatype direct_mode = CliLauncher | JsonLauncher

record launch_env =
  env_eval :: "string \<Rightarrow> pyval result"
  env_read_json :: "string \<Rightarrow> pyval result"

datatype launch_outcome =
    StartWebApp "py_function pydict" "param_spec docstring pydict" logger
  | Invoked "(string \<times> pyval) list" "log_call list"
  | NoModeRun

text \<open>\<open>_pop_namespace_item\<close>, lines 10--17: the value (\<open>None\<close> when absent) and
  the namespace without the entry.\<close>

definition pop_namespace_item :: "namespace \<Rightarrow> string \<Rightarrow> pyval \<times> namespace" where
  "pop_namespace_item ns prop =
     (case map_of ns prop of None \<Rightarrow> (PyNone, ns) | Some v \<Rightarrow> (v, AList.delete prop ns))"

fun selector_name :: "selector_mode \<Rightarrow> string" where
  "selector_name GuiLauncher = ''gui''"

fun direct_name :: "direct_mode \<Rightarrow> string" where
  "direct_name CliLauncher = ''cli''"
| "direct_name JsonLauncher = ''json''"

text \<open>The option string of line 63.\<close>

definition cli_flag :: "param_spec \<Rightarrow> string" where
  "cli_flag param = CHR ''-'' # py_replace_char CHR ''_'' CHR ''-'' (arg_name param)"

text \<open>Lines 58--78: the argument \<open>cli_launcher\<close> adds for one parameter.\<close>

definition cli_argument :: "launch_env \<Rightarrow> param_spec \<Rightarrow> argument result" where
  "cli_argument env param =
     (if \<not> is_optional param then Inr (Positional (arg_name param) (description param))
      else if type_name param = Some ''bool'' \<and> default param = Some ''False'' then
        Inr (optional_argument (cli_flag param) StoreTrue (description param))
      else if type_name param = Some ''bool'' \<and> default param = Some ''True'' then
        Inr (optional_argument (cli_flag param) StoreFalse (description param))
      else
        (case default param of
           None \<Rightarrow> Inr (optional_argument (cli_flag param) (Store PyNone) (description param))
         | Some d \<Rightarrow>
             (case env_eval env d of
                Inl e \<Rightarrow> Inl e
              | Inr v \<Rightarrow> Inr (optional_argument (cli_flag param) (Store v) (description param)))))"

fun cli_arguments :: "launch_env \<Rightarrow> param_spec list \<Rightarrow> argument list result" where
  "cli_arguments env [] = Inr []"
| "cli_arguments env (p # ps) =
     (case cli_argument env p of
        Inl e \<Rightarrow> Inl e
      | Inr a \<Rightarrow> (case cli_arguments env ps of Inl e \<Rightarrow> Inl e | Inr as \<Rightarrow> Inr (a # as)))"

text \<open>Lines 52--78: one sub-command per exposed function, in the order of
  \<open>program_list\<close>.\<close>

fun cli_commands :: "launch_env \<Rightarrow> string list \<Rightarrow> param_spec docstring pydict \<Rightarrow> command_parser list result" where
  "cli_commands env [] functions_doc = Inr []"
| "cli_commands env (program # programs) functions_doc =
     (case dict_getitem functions_doc program of
        Inl e \<Rightarrow> Inl e
      | Inr function_doc \<Rightarrow>
          (case cli_arguments env (params function_doc) of
             Inl e \<Rightarrow> Inl e
           | Inr args \<Rightarrow>
               (case cli_commands env programs functions_doc of
                  Inl e \<Rightarrow> Inl e
                | Inr cmds \<Rightarrow> Inr (\<lparr>cmd_name = program, cmd_description = long_description function_doc,
                                     cmd_arguments = args\<rparr> # cmds))))"

text \<open>The help text of line 106 (the source writes a backslash and an \<open>n\<close>).\<close>

definition json_path_help :: string where
  "json_path_help = ''path of the json file with function arguments. file must be encoded using utf8 and using ''
     @ [CHR 0x5C, CHR ''n''] @ '' as line ending''"

text \<open>Lines 100--107: one sub-command per function, with the single positional
  argument \<open>json_path\<close>.\<close>

fun json_commands :: "string list \<Rightarrow> param_spec docstring pydict \<Rightarrow> command_parser list result" where
  "json_commands [] functions_doc = Inr []"
| "json_commands (program # programs) functions_doc =
     (case dict_getitem functions_doc program of
        Inl e \<Rightarrow> Inl e
      | Inr function_doc \<Rightarrow>
          (case json_commands programs functions_doc of
             Inl e \<Rightarrow> Inl e
           | Inr cmds \<Rightarrow> Inr (\<lparr>cmd_name = program, cmd_description = long_description function_doc,
                                cmd_arguments = [Positional ''json_path''
                                  json_path_help]\<rparr> # cmds)))"

text \<open>What a direct mode's provider adds to the mode parsers (lines 47--51 and 92--99).\<close>

fun direct_parser :: "launch_env \<Rightarrow> py_function pydict \<Rightarrow> param_spec docstring pydict \<Rightarrow> direct_mode \<Rightarrow>
    mode_parser result" where
  "direct_parser env program_list functions_doc CliLauncher =
     (case cli_commands env (map fst program_list) functions_doc of
        Inl e \<Rightarrow> Inl e
      | Inr cmds \<Rightarrow> Inr (DirectParser ''cli'' cmds))"
| "direct_parser env program_list functions_doc JsonLauncher =
     (case json_commands (map fst program_list) functions_doc of
        Inl e \<Rightarrow> Inl e
      | Inr cmds \<Rightarrow> Inr (DirectParser ''json'' cmds))"

fun direct_parsers :: "launch_env \<Rightarrow> py_function pydict \<Rightarrow> param_spec docstring pydict \<Rightarrow> direct_mode list \<Rightarrow>
    mode_parser list result" where
  "direct_parsers env program_list functions_doc [] = Inr []"
| "direct_parsers env program_list functions_doc (m # ms) =
     (case direct_parser env program_list functions_doc m of
        Inl e \<Rightarrow> Inl e
      | Inr p \<Rightarrow> (case direct_parsers env program_list functions_doc ms of Inl e \<Rightarrow> Inl e | Inr ps \<Rightarrow> Inr (p # ps)))"

text \<open>The result of calling a function in a direct mode: its exception propagates.\<close>

definition invoke :: "py_function \<Rightarrow> (string \<times> pyval) list \<Rightarrow> launch_outcome result" where
  "invoke f kwargs =
     (case call_function f [] kwargs of
        Returned logs \<Rightarrow> Inr (Invoked kwargs logs)
      | RaisedExc logs e \<Rightarrow> Inl (Raised e))"

text \<open>The JSON callback's filter of line 114: an entry whose value is the empty
  string is dropped.\<close>

definition drop_empty_strings :: "(string \<times> pyval) list \<Rightarrow> (string \<times> pyval) list" where
  "drop_empty_strings kvs = [(k, v) \<leftarrow> kvs. v \<noteq> PyStr []]"

text \<open>The callbacks of the direct modes: lines 80--82 and 109--116.\<close>

fun run_direct :: "launch_env \<Rightarrow> direct_mode \<Rightarrow> py_function \<Rightarrow> namespace \<Rightarrow> launch_outcome result" where
  "run_direct env CliLauncher program_function args_parsed = invoke program_function args_parsed"
| "run_direct env JsonLauncher program_function args_parsed =
     (case map_of args_parsed ''json_path'' of
        None \<Rightarrow> Inl (AttributeError ''json_path'')
      | Some (PyStr path) \<Rightarrow>
          (case env_read_json env path of
             Inl e \<Rightarrow> Inl e
           | Inr (PyDict kvs) \<Rightarrow> invoke program_function (drop_empty_strings kvs)
           | Inr _ \<Rightarrow> Inl (AttributeError ''items''))
      | Some _ \<Rightarrow> Inl (TypeError ''expected str, bytes or os.PathLike object''))"

text \<open>The callback of \<open>gui_launcher\<close>, lines 26--36.\<close>

fun run_selector :: "selector_mode \<Rightarrow> py_function pydict \<Rightarrow> param_spec docstring pydict \<Rightarrow> logger option \<Rightarrow>
    launch_outcome result" where
  "run_selector GuiLauncher program_list functions_doc logger =
     (case logger of
        None \<Rightarrow> Inl (ValueError ''logger arg must be Logger typed if web mode is used'')
      | Some lg \<Rightarrow> Inr (StartWebApp program_list functions_doc lg))"

text \<open>Lines 162--164: the schema of every exposed function, in order;
  \<open>parse_function_doc\<close> is called without \<open>remove_default_text\<close>.\<close>

fun build_functions_doc :: "py_function pydict \<Rightarrow> param_spec docstring pydict result" where
  "build_functions_doc [] = Inr []"
| "build_functions_doc ((program, program_func) # rest) =
     (case parse_function_doc False (fun_args program_func) (fun_doc program_func) of
        Inl e \<Rightarrow> Inl e
      | Inr d \<Rightarrow> (case build_functions_doc rest of Inl e \<Rightarrow> Inl e | Inr ds \<Rightarrow> Inr ((program, d) # ds)))"

text \<open>\<open>launch\<close>, lines 121--190, on the command line \<open>argv\<close>.\<close>

definition launch :: "launch_env \<Rightarrow> py_function pydict \<Rightarrow> selector_mode list \<Rightarrow> direct_mode list \<Rightarrow>
    logger option \<Rightarrow> string list \<Rightarrow> launch_outcome result" where
  "launch env program_list modes_function_list modes_target_function logger argv =
     (case build_functions_doc program_list of
        Inl e \<Rightarrow> Inl e
      | Inr functions_doc \<Rightarrow>
          (case direct_parsers env program_list functions_doc modes_target_function of
             Inl e \<Rightarrow> Inl e
           | Inr target_parsers \<Rightarrow>
               (let mode_parsers = map (\<lambda>m. SelectorParser (selector_name m)) modes_function_list @ target_parsers;
                    modes_function_list_dict = dict_of_items (map (\<lambda>m. (selector_name m, m)) modes_function_list);
                    modes_target_function_dict = dict_of_items (map (\<lambda>m. (direct_name m, m)) modes_target_function)
                in case parse_args mode_parsers argv of
                     Inl e \<Rightarrow> Inl e
                   | Inr args_parsed \<Rightarrow>
                       (case pop_namespace_item args_parsed ''mode_name'' of
                          (PyStr launch_mode, ns1) \<Rightarrow>
                            (case pop_namespace_item ns1 ''program_name'' of
                               (program_name, ns2) \<Rightarrow>
                                 (case map_of modes_function_list_dict launch_mode of
                                    Some sm \<Rightarrow> run_selector sm program_list functions_doc logger
                                  | None \<Rightarrow>
                                      (case program_name of
                                         PyStr pname \<Rightarrow>
                                           (case map_of modes_target_function_dict launch_mode of
                                              Some dm \<Rightarrow>
                                                (case dict_getitem program_list pname of
                                                   Inl e \<Rightarrow> Inl e
                                                 | Inr f \<Rightarrow> run_direct env dm f ns2)
                                            | None \<Rightarrow> Inr NoModeRun)
                                       | _ \<Rightarrow> Inl (ValueError ''program_name should be str typed''))))
                        | _ \<Rightarrow> Inl (ValueError ''mode_name should be str typed'')))))"

section \<open>Examples\<close>

text \<open>For the witnesses: a Python \<open>eval\<close> restricted to the literals the
  examples use, a file system of JSON files already decoded, and the logger of
  \<open>src/test.py\<close> (lines 5--7): the root logger, at level \<open>INFO\<close>, with the
  \<open>StreamHandler\<close> that \<open>logging.basicConfig()\<close> attaches and no web handler
  yet.\<close>

definition py_literal_eval :: "string \<Rightarrow> pyval result" where
  "py_literal_eval s =
     (if s = ''True'' then Inr (PyBool True) else if s = ''False'' then Inr (PyBool False)
      else if s = ''None'' then Inr PyNone
      else if s \<noteq> [] \<and> list_all (\<lambda>c. c \<in> set ''0123456789'') s then Inr (PyInt (int (foldl (\<lambda>n c. 10 * n + (of_char c - 48)) 0 s)))
      else Inl (EvalError s))"

definition example_env :: "(string \<times> pyval) list \<Rightarrow> launch_env" where
  "example_env files =
     \<lparr>env_eval = py_literal_eval,
      env_read_json = (\<lambda>path. case map_of files path of
                                None \<Rightarrow> Inl (ValueError (''No such file or directory: '' @ path))
                              | Some v \<Rightarrow> Inr v)\<rparr>"

definition info_logger :: logger where
  "info_logger = \<lparr>logger_level = INFO, logger_handlers = [OtherHandler ''StreamHandler''],
     logger_ancestor_levels = []\<rparr>"

text \<open>A function with a parameter named \<open>program_name\<close>, and one with an
  optional parameter whose name starts with an underscore.\<close>

definition clash_doc :: "docstring_param docstring" where
  "clash_doc = \<lparr>short_description = Some ''clash'', long_description = None,
     params = [\<lparr>arg_name = ''program_name'', description = ''a name'', is_optional = False,
                 type_name = Some ''str'', default = None\<rparr>]\<rparr>"

definition clash_function :: py_function where
  "clash_function = \<lparr>fun_params = [(''program_name'', None)], fun_doc = clash_doc,
     fun_body = (\<lambda>env. Returned [(INFO, ''called clash'')])\<rparr>"

definition private_doc :: "docstring_param docstring" where
  "private_doc = \<lparr>short_description = Some ''private'', long_description = None,
     params = [\<lparr>arg_name = ''_limit'', description = ''a limit'', is_optional = True,
                 type_name = Some ''int'', default = Some ''1''\<rparr>]\<rparr>"

definition private_function :: py_function where
  "private_function = \<lparr>fun_params = [(''_limit'', Some (PyInt 1))], fun_doc = private_doc,
     fun_body = (\<lambda>env. Returned [(INFO, ''called private'')])\<rparr>"

text \<open>The schemas \<open>launch\<close> builds for the program of \<open>src/test.py\<close>.\<close>

definition test_functions_doc :: "param_spec docstring pydict" where
  "test_functions_doc =
     [(''test_params'', \<lparr>short_description = Some ''test_params function'',
         long_description = Some ''long descr test_params'',
         params = [with_widget test_params_a ''descr a'' ''text'' None,
                   with_widget test_params_b ''descr b. Defaults to True.'' ''checkbox'' None]\<rparr>),
      (''test_noparam'', \<lparr>short_description = Some ''test_noparam function'',
         long_description = Some ''long descr test_noparam'', params = []\<rparr>),
      (''test_err'', \<lparr>short_description = Some ''test_err function'',
         long_description = Some ''long descr test_err'', params = []\<rparr>)]"

section \<open>Lemmas\<close>

lemmas launch_examples = example_env_def py_literal_eval_def info_logger_def clash_doc_def
  clash_function_def private_doc_def private_function_def

text \<open>The definitions a closed run of \<open>launch\<close> unfolds to.\<close>

lemmas launch_eval = launch_def test_functions test_docs launch_examples parse_function_doc_def
  doc_mismatch_def fun_args_def process_param_def strip_default_text_def regex_eval cli_argument_def
  cli_flag_def py_replace_char_def optional_argument_def opt_dest_def parse_args_def parse_command_def
  defaults_namespace_def ns_set_all_def looks_optional_def negative_number_def dict_of_items_def
  dict_getitem_def pop_namespace_item_def drop_empty_strings_def invoke_def call_function_def
  bind_call_def env_value_def json_path_help_def with_widget_def

lemma cli_argument_required:
  "\<not> is_optional p \<Longrightarrow> cli_argument env p = Inr (Positional (arg_name p) (description p))"
  by (simp add: cli_argument_def)

lemma cli_argument_optional:
  assumes "cli_argument env p = Inr a" and "is_optional p"
  shows "\<exists>act. a = optional_argument (cli_flag p) act (description p) \<and>
           (type_name p = Some ''bool'' \<and> default p = Some ''False'' \<longrightarrow> act = StoreTrue) \<and>
           (type_name p = Some ''bool'' \<and> default p = Some ''True'' \<longrightarrow> act = StoreFalse)"
  using assms by (auto simp: cli_argument_def split: if_splits option.splits sum.splits)

lemma cli_argument_kind:
  "cli_argument env p = Inr a \<Longrightarrow> is_positional a \<longleftrightarrow> \<not> is_optional p"
  by (auto simp: cli_argument_def optional_argument_def split: if_splits option.splits sum.splits)

lemma cli_argument_wf:
  "cli_argument env p = Inr a \<Longrightarrow> wf_arguments [a]"
  by (auto simp: cli_argument_def optional_argument_def wf_arguments_def split: if_splits option.splits sum.splits)

lemma cli_arguments_Inr:
  "cli_arguments env ps = Inr args \<longleftrightarrow> list_all2 (\<lambda>p a. cli_argument env p = Inr a) ps args"
proof (induction ps arbitrary: args)
  case Nil
  then show ?case by auto
next
  case (Cons p ps)
  have "cli_arguments env (p # ps) = Inr args \<longleftrightarrow>
        (\<exists>a as. args = a # as \<and> cli_argument env p = Inr a \<and> cli_arguments env ps = Inr as)"
    by (auto split: sum.splits)
  with Cons.IH show ?case by (auto simp: list_all2_Cons1)
qed

lemma cli_arguments_wf:
  assumes "cli_arguments env ps = Inr args"
  shows "wf_arguments args"
proof -
  have "list_all2 (\<lambda>p a. cli_argument env p = Inr a) ps args" using assms cli_arguments_Inr by blast
  then show ?thesis
    by (induction rule: list_all2_induct) (auto simp: wf_arguments_def dest!: cli_argument_wf)
qed

lemma cli_arguments_member:
  assumes "cli_arguments env ps = Inr args" and "q \<in> set ps"
  shows "\<exists>a \<in> set args. cli_argument env q = Inr a"
proof -
  have "list_all2 (\<lambda>p a. cli_argument env p = Inr a) ps args" using assms(1) cli_arguments_Inr by blast
  from this assms(2) show ?thesis by (induction rule: list_all2_induct) auto
qed

lemma ident_start_not: "ident_start c \<Longrightarrow> c \<notin> set ''0123456789- ''"
  by (auto simp: ident_start_def)

lemma ident_char_not: "ident_char c \<Longrightarrow> c \<noteq> CHR '' '' \<and> c \<noteq> CHR ''-''"
  by (auto simp: ident_char_def ident_start_def)

lemma py_identifier_Cons: "py_identifier (c # cs) \<Longrightarrow> c \<notin> set ''0123456789-'' \<and> c \<noteq> CHR '' ''"
  using ident_start_not by (auto simp: py_identifier_def)

lemma py_identifier_no_space_dash: "py_identifier s \<Longrightarrow> CHR '' '' \<notin> set s \<and> CHR ''-'' \<notin> set s"
proof (cases s)
  case (Cons c cs)
  assume "py_identifier s"
  with Cons have "ident_start c" "\<forall>x \<in> set cs. ident_char x" by (auto simp: py_identifier_def list_all_iff)
  with Cons show ?thesis using ident_start_not ident_char_not by fastforce
qed (simp add: py_identifier_def)

lemma looks_optional_cli_flag:
  assumes "py_identifier (arg_name p)"
  shows "looks_optional (cli_flag p)"
proof -
  obtain c cs where n: "arg_name p = c # cs" using assms by (cases "arg_name p") (auto simp: py_identifier_def)
  have "c \<notin> set ''0123456789-''" "c \<noteq> CHR '' ''" using py_identifier_Cons assms n by auto
  moreover have "CHR '' '' \<notin> set (arg_name p)" using py_identifier_no_space_dash assms by blast
  ultimately show ?thesis
    by (auto simp: looks_optional_def cli_flag_def py_replace_char_def negative_number_def n)
qed

text \<open>C10: a boolean optional parameter documented with default \<open>False\<close>
  becomes a flag that, when present on the command line, sets it to \<open>True\<close>;
  one documented with default \<open>True\<close> becomes a flag that sets it to \<open>False\<close>;
  without the flag, the parameter has its documented default. Presence always
  flips the documented default.\<close>

theorem cli_bool_flag_inversion:
  assumes "cli_arguments env ps = Inr args" and "distinct (map arg_dest args)"
    and "q \<in> set ps" and "is_optional q" and "type_name q = Some ''bool''"
    and "default q = Some ''False'' \<or> default q = Some ''True''"
    and "py_identifier (arg_name q)"
    and "parse_command args argv = Inr ns"
  shows "map_of ns (opt_dest (cli_flag q)) =
           Some (PyBool ((cli_flag q \<in> set argv) = (default q = Some ''False'')))"
proof -
  obtain a where a: "a \<in> set args" "cli_argument env q = Inr a"
    using cli_arguments_member [OF assms(1,3)] by blast
  then obtain act where act: "a = optional_argument (cli_flag q) act (description q)"
    and flags: "default q = Some ''False'' \<longrightarrow> act = StoreTrue" "default q = Some ''True'' \<longrightarrow> act = StoreFalse"
    using cli_argument_optional [OF a(2) assms(4)] assms(5) by blast
  let ?d = "opt_dest (cli_flag q)"
  have mem: "OptionalArg (cli_flag q) ?d act (description q) \<in> set args"
    using a(1) act by (simp add: optional_argument_def)
  have act_flag: "act = StoreTrue \<or> act = StoreFalse" using assms(6) flags by auto
  obtain ex where c: "consume args (filter is_positional args) argv (defaults_namespace args) [] = Inr (ns, [], ex)"
    using parse_command_Inr [OF assms(8)] by blast
  have pos: "\<forall>b \<in> set (filter is_positional args). arg_dest b \<noteq> ?d"
  proof
    fix b assume b: "b \<in> set (filter is_positional args)"
    then have "b \<noteq> OptionalArg (cli_flag q) ?d act (description q)" by auto
    with b mem assms(2) show "arg_dest b \<noteq> ?d" by (auto simp: distinct_map inj_on_def)
  qed
  have res: "map_of ns ?d = (if cli_flag q \<in> set argv then Some (PyBool (act = StoreTrue))
                             else map_of (defaults_namespace args) ?d)"
    by (rule consume_flag [OF c mem act_flag looks_optional_cli_flag [OF assms(7)] assms(2)
          cli_arguments_wf [OF assms(1)] pos])
  have "map_of (defaults_namespace args) ?d = Some (arg_default (OptionalArg (cli_flag q) ?d act (description q)))"
    using map_of_defaults_namespace [OF mem assms(2)] by simp
  with res act_flag flags assms(6) show ?thesis by auto
qed

theorem cli_bool_flag_inversion_witness:
  "parse_command [Positional ''a'' ''descr a'', optional_argument ''-b'' StoreFalse ''descr b. Defaults to True.''] [''x'', ''-b''] =
     Inr [(''a'', PyStr ''x''), (''b'', PyBool False)] \<and>
   map_of [(''a'', PyStr ''x''), (''b'', PyBool False)] (opt_dest (cli_flag (with_widget test_params_b ''descr b. Defaults to True.'' ''checkbox'' None))) =
     Some (PyBool False)"
proof -
  let ?qa = "with_widget test_params_a ''descr a'' ''text'' None"
  let ?qb = "with_widget test_params_b ''descr b. Defaults to True.'' ''checkbox'' None"
  let ?args = "[Positional ''a'' ''descr a'', optional_argument ''-b'' StoreFalse ''descr b. Defaults to True.'']"
  have h1: "cli_arguments (example_env []) [?qa, ?qb] = Inr ?args"
    by (simp add: cli_argument_def test_docs cli_flag_def py_replace_char_def)
  have h2: "distinct (map arg_dest ?args)" by (simp add: optional_argument_def opt_dest_def py_replace_char_def)
  have h3: "?qb \<in> set [?qa, ?qb]" by simp
  have h4: "is_optional ?qb" "type_name ?qb = Some ''bool''" "default ?qb = Some ''False'' \<or> default ?qb = Some ''True''"
    by (simp_all add: test_docs)
  have h5: "py_identifier (arg_name ?qb)" by (simp add: test_docs py_identifier_def ident_start_def)
  have h6: "parse_command ?args [''x'', ''-b''] = Inr [(''a'', PyStr ''x''), (''b'', PyBool False)]"
    by (simp add: parse_command_def optional_argument_def opt_dest_def py_replace_char_def
        defaults_namespace_def ns_set_all_def looks_optional_def negative_number_def)
  from cli_bool_flag_inversion [OF h1 h2 h3 h4 h5 h6] h6 show ?thesis
    by (simp add: test_docs cli_flag_def py_replace_char_def)
qed

text \<open>C11: the required parameters of a function become the positional
  arguments of its sub-command, in the order of the signature.\<close>

theorem cli_positional_order:
  assumes "cli_arguments env ps = Inr args"
  shows "map arg_dest (filter is_positional args) = map arg_name (filter (\<lambda>p. \<not> is_optional p) ps)"
proof -
  have "list_all2 (\<lambda>p a. cli_argument env p = Inr a) ps args" using assms cli_arguments_Inr by blast
  then show ?thesis
  proof (induction rule: list_all2_induct)
    case Nil
    then show ?case by simp
  next
    case (Cons p ps a as)
    then show ?case
      by (cases "is_optional p") (auto simp: cli_argument_kind cli_argument_required)
  qed
qed

theorem cli_positional_order_witness:
  "map arg_dest (filter is_positional [Positional ''a'' ''descr a'', optional_argument ''-b'' StoreFalse ''descr b. Defaults to True.'']) = [''a'']"
proof -
  let ?qa = "with_widget test_params_a ''descr a'' ''text'' None"
  let ?qb = "with_widget test_params_b ''descr b. Defaults to True.'' ''checkbox'' None"
  have h: "cli_arguments (example_env []) [?qa, ?qb] =
             Inr [Positional ''a'' ''descr a'', optional_argument ''-b'' StoreFalse ''descr b. Defaults to True.'']"
    by (simp add: cli_argument_def test_docs cli_flag_def py_replace_char_def)
  from cli_positional_order [OF h] show ?thesis by (simp add: test_docs)
qed

text \<open>C12: the JSON mode calls the function with the entries of the file's
  object whose value is not the empty string, in the file's order, and with nothing
  else.\<close>

theorem json_drop_empty_strings:
  assumes "map_of args_parsed ''json_path'' = Some (PyStr path)"
    and "env_read_json env path = Inr (PyDict kvs)"
  shows "run_direct env JsonLauncher f args_parsed = invoke f [(k, v) \<leftarrow> kvs. v \<noteq> PyStr []]"
  using assms by (simp add: drop_empty_strings_def)

theorem json_drop_empty_strings_witness:
  "run_direct (example_env [(''args.json'', PyDict [(''a'', PyStr ''hello''), (''b'', PyStr [])])]) JsonLauncher
     test_params [(''json_path'', PyStr ''args.json'')] =
   Inr (Invoked [(''a'', PyStr ''hello'')] [(INFO, ''called test_params using ('' @ py_repr (PyStr ''hello'') @ '', True)'')])"
proof -
  let ?env = "example_env [(''args.json'', PyDict [(''a'', PyStr ''hello''), (''b'', PyStr [])])]"
  have h1: "map_of [(''json_path'', PyStr ''args.json'')] ''json_path'' = Some (PyStr ''args.json'')" by simp
  have h2: "env_read_json ?env ''args.json'' = Inr (PyDict [(''a'', PyStr ''hello''), (''b'', PyStr [])])"
    by (simp add: example_env_def)
  from json_drop_empty_strings [OF h1 h2, of test_params] show ?thesis
    by (simp add: invoke_def call_function_def bind_call_def test_functions env_value_def)
qed

lemma direct_parser_name:
  "direct_parser env pl fd m = Inr mp \<Longrightarrow> mode_parser_name mp = direct_name m"
  by (cases m) (auto split: sum.splits)

lemma direct_parsers_names:
  "direct_parsers env pl fd ms = Inr ps \<Longrightarrow> map mode_parser_name ps = map direct_name ms"
proof (induction ms arbitrary: ps)
  case Nil
  then show ?case by simp
next
  case (Cons m ms)
  then show ?case by (auto split: sum.splits dest: direct_parser_name)
qed

lemma direct_name_not_gui: "''gui'' \<noteq> direct_name m"
  by (cases m) simp_all

lemma direct_name_inj: "direct_name a = direct_name b \<longleftrightarrow> a = b"
  by (cases a; cases b) simp_all

lemma map_of_keyed:
  assumes "\<exists>x \<in> set xs. k x = key" and "\<forall>x \<in> set xs. k x = key \<longrightarrow> x = v"
  shows "map_of (map (\<lambda>x. (k x, x)) xs) key = Some v"
  using assms by (induction xs) auto

lemma map_of_dict_of_keyed:
  assumes "\<exists>x \<in> set xs. k x = key" and "\<forall>x \<in> set xs. k x = key \<longrightarrow> x = v"
  shows "map_of (dict_of_items (map (\<lambda>x. (k x, x)) xs)) key = Some v"
  using map_of_keyed [of "rev xs" k key v] assms by (simp add: map_of_dict_of_items rev_map)

lemma direct_mode_dict:
  "m \<in> set dms \<Longrightarrow> map_of (dict_of_items (map (\<lambda>m. (direct_name m, m)) dms)) (direct_name m) = Some m"
  by (rule map_of_dict_of_keyed) (auto simp: direct_name_inj)

lemma direct_parsers_list_all2:
  "direct_parsers env pl fd ms = Inr ps \<Longrightarrow> list_all2 (\<lambda>m p. direct_parser env pl fd m = Inr p) ms ps"
  by (induction ms arbitrary: ps) (auto split: sum.splits)

lemma mode_parser_dict:
  assumes "direct_parsers env pl fd dms = Inr tps" and "m \<in> set dms" and "direct_parser env pl fd m = Inr p"
  shows "map_of (dict_of_items (map (\<lambda>p. (mode_parser_name p, p)) (SelectorParser ''gui'' # tps))) (direct_name m) = Some p"
proof (rule map_of_dict_of_keyed)
  have rel: "list_all2 (\<lambda>m p. direct_parser env pl fd m = Inr p) dms tps"
    by (rule direct_parsers_list_all2 [OF assms(1)])
  show "\<exists>x \<in> set (SelectorParser ''gui'' # tps). mode_parser_name x = direct_name m"
    using list_all2_set1 [OF rel] assms(2,3) direct_parser_name by fastforce
  show "\<forall>x \<in> set (SelectorParser ''gui'' # tps). mode_parser_name x = direct_name m \<longrightarrow> x = p"
    using list_all2_set2 [OF rel] assms(3) direct_parser_name direct_name_not_gui
    by (fastforce simp: direct_name_inj)
qed

lemma launch_direct:
  assumes "build_functions_doc pl = Inr fd" and "direct_parsers env pl fd dms = Inr tps" and "m \<in> set dms"
    and "parse_args (SelectorParser ''gui'' # tps) argv = Inr ns"
    and "pop_namespace_item ns ''mode_name'' = (PyStr (direct_name m), ns1)"
    and "pop_namespace_item ns1 ''program_name'' = (PyStr pname, ns2)"
  shows "launch env pl [GuiLauncher] dms lg argv =
           (case dict_getitem pl pname of Inl e \<Rightarrow> Inl e | Inr f \<Rightarrow> run_direct env m f ns2)"
proof -
  have "map_of (dict_of_items [(''gui'', GuiLauncher)]) (direct_name m) = None"
    using direct_name_not_gui [of m] by (simp add: dict_of_items_def)
  then show ?thesis using assms direct_mode_dict [OF assms(3)] by (simp add: launch_def)
qed

lemma parse_args_direct:
  assumes "map_of (dict_of_items (map (\<lambda>p. (mode_parser_name p, p)) ps)) mn = Some (DirectParser x cmds)"
    and "map_of (dict_of_items (map (\<lambda>c. (cmd_name c, c)) cmds)) n = Some c"
    and "parse_command (cmd_arguments c) rest = Inr sub"
  shows "parse_args ps (mn # n # rest) =
           Inr (ns_set_all [(''mode_name'', PyStr mn)] (ns_set_all [(''program_name'', PyStr n)] sub))"
  using assms by (simp add: parse_args_def)

lemma cli_commands_list_all2:
  "cli_commands env names fd = Inr cmds \<Longrightarrow>
   list_all2 (\<lambda>n c. \<exists>d args. map_of fd n = Some d \<and> cli_arguments env (params d) = Inr args \<and>
                       c = \<lparr>cmd_name = n, cmd_description = long_description d, cmd_arguments = args\<rparr>) names cmds"
  by (induction env names fd arbitrary: cmds rule: cli_commands.induct)
     (auto simp: dict_getitem_def split: option.splits sum.splits)

lemma json_commands_list_all2:
  "json_commands names fd = Inr cmds \<Longrightarrow>
   list_all2 (\<lambda>n c. \<exists>d. map_of fd n = Some d \<and>
                       c = \<lparr>cmd_name = n, cmd_description = long_description d,
                            cmd_arguments = [Positional ''json_path'' json_path_help]\<rparr>) names cmds"
  by (induction names fd arbitrary: cmds rule: json_commands.induct)
     (auto simp: dict_getitem_def split: option.splits sum.splits)

lemma command_dict:
  assumes "list_all2 (\<lambda>n c. cmd_name c = n \<and> (cmd_name c = key \<longrightarrow> c = c0)) names cmds" and "key \<in> set names"
  shows "map_of (dict_of_items (map (\<lambda>c. (cmd_name c, c)) cmds)) key = Some c0"
proof (rule map_of_dict_of_keyed)
  show "\<exists>x \<in> set cmds. cmd_name x = key"
    using assms list_all2_set1 [OF assms(1)] by blast
  show "\<forall>x \<in> set cmds. cmd_name x = key \<longrightarrow> x = c0"
    using list_all2_set2 [OF assms(1)] by blast
qed

lemma build_functions_doc_map_of:
  assumes "build_functions_doc pl = Inr fd" and "map_of pl n = Some f"
  shows "\<exists>d. map_of fd n = Some d \<and> parse_function_doc False (fun_args f) (fun_doc f) = Inr d"
  using assms
proof (induction pl arbitrary: fd rule: build_functions_doc.induct)
  case (2 program program_func rest)
  then show ?case by (auto split: sum.splits if_splits)
qed simp

lemma parse_function_doc_no_args:
  "parse_function_doc r [] doc = Inr d \<Longrightarrow> params d = []"
  by (auto simp: parse_function_doc_def split: if_splits sum.splits)

lemma parse_command_one_positional:
  "\<not> looks_optional v \<Longrightarrow> parse_command [Positional k h] [v] = Inr [(k, PyStr v)]"
  by (simp add: parse_command_def defaults_namespace_def ns_set_all_def)

lemma dropWhile_replace_char:
  "CHR ''-'' \<notin> set s \<Longrightarrow>
   dropWhile (\<lambda>x. x = CHR ''-'') (py_replace_char CHR ''_'' CHR ''-'' s) =
   py_replace_char CHR ''_'' CHR ''-'' (dropWhile (\<lambda>x. x = CHR ''_'') s)"
  by (induction s) (auto simp: py_replace_char_def)

text \<open>The schemas and the parsers of the program of \<open>src/test.py\<close>.\<close>

lemma test_build: "build_functions_doc test_program_list = Inr test_functions_doc"
  by (simp add: launch_eval test_functions_doc_def re_sub.simps cong: option.case_cong_weak)

lemma test_parsers:
  "\<exists>tps. direct_parsers env test_program_list test_functions_doc [CliLauncher, JsonLauncher] = Inr tps"
  by (simp add: launch_eval test_functions_doc_def)

text \<open>C13: the JSON mode, end to end: for every function of the program list and
  every file that decodes to a JSON object, the command line
  \<open>json NAME PATH\<close> calls the function with the object's entries whose value is
  not the empty string, and with nothing else.\<close>

theorem launch_json_file:
  assumes "build_functions_doc pl = Inr fd" and "direct_parsers env pl fd dms = Inr tps"
    and "JsonLauncher \<in> set dms" and "map_of pl n = Some f"
    and "\<not> looks_optional path" and "env_read_json env path = Inr (PyDict kvs)"
  shows "launch env pl [GuiLauncher] dms lg [''json'', n, path] = invoke f (drop_empty_strings kvs)"
proof -
  obtain d where d: "map_of fd n = Some d"
    using build_functions_doc_map_of [OF assms(1,4)] by auto
  obtain p where p: "direct_parser env pl fd JsonLauncher = Inr p"
    using list_all2_set1 [OF direct_parsers_list_all2 [OF assms(2)] assms(3)] by blast
  then obtain cmds where cmds: "json_commands (map fst pl) fd = Inr cmds" and pc: "p = DirectParser ''json'' cmds"
    by (auto split: sum.splits)
  let ?c0 = "\<lparr>cmd_name = n, cmd_description = long_description d,
              cmd_arguments = [Positional ''json_path'' json_path_help]\<rparr>"
  have rel: "list_all2 (\<lambda>k c. cmd_name c = k \<and> (cmd_name c = n \<longrightarrow> c = ?c0)) (map fst pl) cmds"
    using json_commands_list_all2 [OF cmds] by (rule list_all2_mono) (auto simp: d)
  have n: "n \<in> set (map fst pl)" using assms(4) by (force dest: map_of_SomeD)
  have cd: "map_of (dict_of_items (map (\<lambda>c. (cmd_name c, c)) cmds)) n = Some ?c0"
    by (rule command_dict [OF rel n])
  have "parse_args (SelectorParser ''gui'' # tps) (direct_name JsonLauncher # n # [path]) =
          Inr (ns_set_all [(''mode_name'', PyStr ''json'')]
                 (ns_set_all [(''program_name'', PyStr n)] [(''json_path'', PyStr path)]))"
    using parse_args_direct [OF mode_parser_dict [OF assms(2,3) p, unfolded pc] cd]
      parse_command_one_positional [OF assms(5)] by simp
  then have pa: "parse_args (SelectorParser ''gui'' # tps) [''json'', n, path] =
      Inr [(''mode_name'', PyStr ''json''), (''program_name'', PyStr n), (''json_path'', PyStr path)]"
    by (simp add: ns_set_all_def)
  have "launch env pl [GuiLauncher] dms lg [''json'', n, path] =
          run_direct env JsonLauncher f [(''json_path'', PyStr path)]"
    using launch_direct [OF assms(1,2,3) pa, of "[(''program_name'', PyStr n), (''json_path'', PyStr path)]" n]
      assms(4) by (simp add: pop_namespace_item_def dict_getitem_def)
  with assms(6) show ?thesis by simp
qed

theorem launch_json_file_witness:
  "launch (example_env [(''args.json'', PyDict [(''a'', PyStr ''hello''), (''b'', PyStr [])])])
     test_program_list [GuiLauncher] [CliLauncher, JsonLauncher] (Some info_logger)
     [''json'', ''test_params'', ''args.json''] =
   Inr (Invoked [(''a'', PyStr ''hello'')] [(INFO, ''called test_params using ('' @ py_repr (PyStr ''hello'') @ '', True)'')])"
proof -
  let ?env = "example_env [(''args.json'', PyDict [(''a'', PyStr ''hello''), (''b'', PyStr [])])]"
  obtain tps where h2: "direct_parsers ?env test_program_list test_functions_doc [CliLauncher, JsonLauncher] = Inr tps"
    using test_parsers by blast
  have h4: "map_of test_program_list ''test_params'' = Some test_params" by (simp add: test_program_list_def)
  have h5: "\<not> looks_optional ''args.json''" by (simp add: looks_optional_def)
  have h6: "env_read_json ?env ''args.json'' = Inr (PyDict [(''a'', PyStr ''hello''), (''b'', PyStr [])])"
    by (simp add: example_env_def)
  from launch_json_file [OF test_build h2 _ h4 h5 h6] show ?thesis
    by (simp add: invoke_def call_function_def bind_call_def test_functions env_value_def drop_empty_strings_def)
qed

text \<open>C14: the CLI mode for a function without parameters, end to end: its
  sub-command has no argument, and the command line \<open>cli NAME\<close> calls it with
  no argument; what the call raises comes out of \<open>launch\<close>, neither caught nor
  lost.\<close>

theorem launch_cli_noparam:
  assumes "build_functions_doc pl = Inr fd" and "direct_parsers env pl fd dms = Inr tps"
    and "CliLauncher \<in> set dms" and "map_of pl n = Some f" and "fun_args f = []"
  shows "(\<exists>cmds. direct_parser env pl fd CliLauncher = Inr (DirectParser ''cli'' cmds) \<and>
                 (\<forall>c \<in> set cmds. cmd_name c = n \<longrightarrow> cmd_arguments c = [])) \<and>
         launch env pl [GuiLauncher] dms lg [''cli'', n] =
           (case call_function f [] [] of
              Returned logs \<Rightarrow> Inr (Invoked [] logs)
            | RaisedExc logs e \<Rightarrow> Inl (Raised e))"
proof -
  obtain d where d: "map_of fd n = Some d" and pf: "parse_function_doc False [] (fun_doc f) = Inr d"
    using build_functions_doc_map_of [OF assms(1,4)] assms(5) by auto
  have pd: "params d = []" by (rule parse_function_doc_no_args [OF pf])
  obtain p where p: "direct_parser env pl fd CliLauncher = Inr p"
    using list_all2_set1 [OF direct_parsers_list_all2 [OF assms(2)] assms(3)] by blast
  then obtain cmds where cmds: "cli_commands env (map fst pl) fd = Inr cmds" and pc: "p = DirectParser ''cli'' cmds"
    by (auto split: sum.splits)
  let ?c0 = "\<lparr>cmd_name = n, cmd_description = long_description d, cmd_arguments = []\<rparr>"
  have rel: "list_all2 (\<lambda>k c. cmd_name c = k \<and> (cmd_name c = n \<longrightarrow> c = ?c0)) (map fst pl) cmds"
    using cli_commands_list_all2 [OF cmds] by (rule list_all2_mono) (auto simp: d pd)
  have n: "n \<in> set (map fst pl)" using assms(4) by (force dest: map_of_SomeD)
  have cd: "map_of (dict_of_items (map (\<lambda>c. (cmd_name c, c)) cmds)) n = Some ?c0"
    by (rule command_dict [OF rel n])
  have "parse_command [] [] = Inr []"
    by (simp add: parse_command_def defaults_namespace_def ns_set_all_def)
  then have "parse_args (SelectorParser ''gui'' # tps) (direct_name CliLauncher # n # []) =
               Inr (ns_set_all [(''mode_name'', PyStr ''cli'')] (ns_set_all [(''program_name'', PyStr n)] []))"
    using parse_args_direct [OF mode_parser_dict [OF assms(2,3) p, unfolded pc] cd] by simp
  then have pa: "parse_args (SelectorParser ''gui'' # tps) [''cli'', n] =
                   Inr [(''mode_name'', PyStr ''cli''), (''program_name'', PyStr n)]"
    by (simp add: ns_set_all_def)
  have "launch env pl [GuiLauncher] dms lg [''cli'', n] = run_direct env CliLauncher f []"
    using launch_direct [OF assms(1,2,3) pa, of "[(''program_name'', PyStr n)]" n "[]"] assms(4)
    by (simp add: pop_namespace_item_def dict_getitem_def)
  moreover have "\<forall>c \<in> set cmds. cmd_name c = n \<longrightarrow> cmd_arguments c = []"
    using list_all2_set2 [OF rel] by fastforce
  ultimately show ?thesis using p pc by (simp add: invoke_def split: call_outcome.splits)
qed

theorem launch_cli_noparam_witness:
  "(\<exists>cmds. direct_parser (example_env []) test_program_list test_functions_doc CliLauncher =
            Inr (DirectParser ''cli'' cmds) \<and>
          set (map cmd_arguments (filter (\<lambda>c. cmd_name c = ''test_err'') cmds)) \<subseteq> {[]}) \<and>
   launch (example_env []) test_program_list [GuiLauncher] [CliLauncher, JsonLauncher] (Some info_logger)
     [''cli'', ''test_err''] = Inl (Raised test_err_exception)"
proof -
  have gen: "\<And>cmds. \<forall>c \<in> set cmds. cmd_name c = ''test_err'' \<longrightarrow> cmd_arguments c = [] \<Longrightarrow>
      set (map cmd_arguments (filter (\<lambda>c. cmd_name c = ''test_err'') cmds)) \<subseteq> {[]}"
    by auto
  obtain tps where h2: "direct_parsers (example_env []) test_program_list test_functions_doc [CliLauncher, JsonLauncher] = Inr tps"
    using test_parsers by blast
  have h4: "map_of test_program_list ''test_err'' = Some test_err" by (simp add: test_program_list_def)
  have h5: "fun_args test_err = []" by (simp add: fun_args_def test_err_def)
  from launch_cli_noparam [OF test_build h2 _ h4 h5] gen show ?thesis
    by (simp add: call_function_def bind_call_def test_err_def) blast
qed

text \<open>C15: with the default selector mode, the command line \<open>gui\<close> runs the
  selector callback on the program list, its schemas and the logger, whatever the
  direct modes are.\<close>

theorem launch_selector_dispatch:
  assumes "build_functions_doc program_list = Inr functions_doc"
    and "direct_parsers env program_list functions_doc modes_target_function = Inr target_parsers"
  shows "launch env program_list [GuiLauncher] modes_target_function logger [''gui''] =
           run_selector GuiLauncher program_list functions_doc logger"
proof -
  let ?items = "map (\<lambda>p. (mode_parser_name p, p)) (SelectorParser ''gui'' # target_parsers)"
  have "''gui'' \<notin> set (map mode_parser_name target_parsers)"
    using direct_parsers_names [OF assms(2)] direct_name_not_gui by auto
  then have none: "map_of (map (\<lambda>p. (mode_parser_name p, p)) (rev target_parsers)) ''gui'' = None"
    by (simp add: map_of_eq_None_iff image_image)
  have "map_of (rev ?items) ''gui'' = Some (SelectorParser ''gui'')"
    by (simp add: map_of_append rev_map none map_add_def)
  then have parse: "parse_args (SelectorParser ''gui'' # target_parsers) [''gui''] = Inr [(''mode_name'', PyStr ''gui'')]"
    by (simp add: parse_args_def map_of_dict_of_items parse_command_def defaults_namespace_def ns_set_all_def)
  show ?thesis
    using assms parse by (simp add: launch_def pop_namespace_item_def dict_of_items_def)
qed

theorem launch_selector_dispatch_witness:
  "launch (example_env []) test_program_list [GuiLauncher] [CliLauncher, JsonLauncher] None [''gui''] =
     Inl (ValueError ''logger arg must be Logger typed if web mode is used'')"
proof -
  obtain tps where h2: "direct_parsers (example_env []) test_program_list test_functions_doc [CliLauncher, JsonLauncher] = Inr tps"
    using test_parsers by blast
  from launch_selector_dispatch [OF test_build h2] show ?thesis by simp
qed

text \<open>C16: the namespace that \<open>launch\<close> pops \<open>program_name\<close> from is shared
  with the sub-command's arguments: for every function whose only parameter is a
  required one named \<open>program_name\<close>, the command line \<open>cli NAME V\<close> does not run
  that function but the function the program list names \<open>V\<close>, with no
  argument (or fails with its \<open>KeyError\<close>).\<close>

theorem launch_cli_program_name_param:
  assumes "build_functions_doc pl = Inr fd" and "direct_parsers env pl fd dms = Inr tps"
    and "CliLauncher \<in> set dms" and "map_of pl n = Some f"
    and "params (fun_doc f) = [p0]" and "arg_name p0 = ''program_name''" and "\<not> is_optional p0"
    and "\<not> looks_optional v"
  shows "launch env pl [GuiLauncher] dms lg [''cli'', n, v] =
           (case dict_getitem pl v of Inl e \<Rightarrow> Inl e | Inr g \<Rightarrow> invoke g [])"
proof -
  obtain d where d: "map_of fd n = Some d" and pf: "parse_function_doc False (fun_args f) (fun_doc f) = Inr d"
    using build_functions_doc_map_of [OF assms(1,4)] by auto
  obtain q where q: "params d = [q]" and pq: "process_param False p0 = Inr q"
    using pf assms(5) by (auto simp: parse_function_doc_def Let_def split: if_splits sum.splits)
  have qf: "arg_name q = ''program_name''" "\<not> is_optional q"
    using process_param_Inr_fields [OF pq] assms(6,7) by simp_all
  obtain p where p: "direct_parser env pl fd CliLauncher = Inr p"
    using list_all2_set1 [OF direct_parsers_list_all2 [OF assms(2)] assms(3)] by blast
  then obtain cmds where cmds: "cli_commands env (map fst pl) fd = Inr cmds" and pc: "p = DirectParser ''cli'' cmds"
    by (auto split: sum.splits)
  let ?c0 = "\<lparr>cmd_name = n, cmd_description = long_description d,
              cmd_arguments = [Positional ''program_name'' (description q)]\<rparr>"
  have rel: "list_all2 (\<lambda>k c. cmd_name c = k \<and> (cmd_name c = n \<longrightarrow> c = ?c0)) (map fst pl) cmds"
    using cli_commands_list_all2 [OF cmds] by (rule list_all2_mono) (auto simp: d q qf cli_argument_def)
  have n: "n \<in> set (map fst pl)" using assms(4) by (force dest: map_of_SomeD)
  have cd: "map_of (dict_of_items (map (\<lambda>c. (cmd_name c, c)) cmds)) n = Some ?c0"
    by (rule command_dict [OF rel n])
  have "parse_args (SelectorParser ''gui'' # tps) (direct_name CliLauncher # n # [v]) =
          Inr (ns_set_all [(''mode_name'', PyStr ''cli'')]
                 (ns_set_all [(''program_name'', PyStr n)] [(''program_name'', PyStr v)]))"
    using parse_args_direct [OF mode_parser_dict [OF assms(2,3) p, unfolded pc] cd]
      parse_command_one_positional [OF assms(8)] by simp
  then have pa: "parse_args (SelectorParser ''gui'' # tps) [''cli'', n, v] =
      Inr [(''mode_name'', PyStr ''cli''), (''program_name'', PyStr v)]"
    by (simp add: ns_set_all_def)
  show ?thesis
    using launch_direct [OF assms(1,2,3) pa, of "[(''program_name'', PyStr v)]" v "[]"]
    by (simp add: pop_namespace_item_def split: sum.splits)
qed

theorem launch_cli_program_name_param_witness:
  "launch (example_env []) [(''clash'', clash_function), (''test_err'', test_err)] [GuiLauncher] [CliLauncher]
     (Some info_logger) [''cli'', ''clash'', ''test_err''] = Inl (Raised test_err_exception)"
proof -
  let ?pl = "[(''clash'', clash_function), (''test_err'', test_err)]"
  have h1: "build_functions_doc ?pl = Inr [(''clash'', \<lparr>short_description = Some ''clash'', long_description = None,
      params = [with_widget (hd (params clash_doc)) ''a name'' ''text'' None]\<rparr>),
      (''test_err'', the (map_of test_functions_doc ''test_err''))]"
    by (simp add: launch_eval test_functions_doc_def re_sub.simps cong: option.case_cong_weak)
  have "\<exists>tps. direct_parsers (example_env []) ?pl
      [(''clash'', \<lparr>short_description = Some ''clash'', long_description = None,
      params = [with_widget (hd (params clash_doc)) ''a name'' ''text'' None]\<rparr>),
      (''test_err'', the (map_of test_functions_doc ''test_err''))] [CliLauncher] = Inr tps"
    by (simp add: launch_eval test_functions_doc_def)
  then obtain tps where h2: "direct_parsers (example_env []) ?pl
      [(''clash'', \<lparr>short_description = Some ''clash'', long_description = None,
      params = [with_widget (hd (params clash_doc)) ''a name'' ''text'' None]\<rparr>),
      (''test_err'', the (map_of test_functions_doc ''test_err''))] [CliLauncher] = Inr tps" by blast
  have h4: "map_of ?pl ''clash'' = Some clash_function" by simp
  have h5: "params (fun_doc clash_function) = [hd (params clash_doc)]"
    "arg_name (hd (params clash_doc)) = ''program_name''" "\<not> is_optional (hd (params clash_doc))"
    by (simp_all add: clash_function_def clash_doc_def)
  have h8: "\<not> looks_optional ''test_err''" by (simp add: looks_optional_def)
  from launch_cli_program_name_param [OF h1 h2 _ h4 h5 h8] show ?thesis
    by (simp add: dict_getitem_def invoke_def call_function_def bind_call_def test_err_def)
qed

text \<open>C17: an optional parameter whose name starts with an underscore gets an
  option whose destination is the name without its leading underscores
  (\<open>--limit\<close> and \<open>limit\<close> for \<open>_limit\<close>), never the parameter's name; a
  function without a parameter of that name, called with the namespace's
  entry, raises a \<open>TypeError\<close>.\<close>

theorem cli_underscore_parameter:
  assumes "py_identifier (arg_name p)" and "hd (arg_name p) = CHR ''_''"
    and "dropWhile (\<lambda>c. c = CHR ''_'') (arg_name p) \<notin> set (fun_args f)"
    and "(opt_dest (cli_flag p), v) \<in> set kwargs"
  shows "opt_dest (cli_flag p) = dropWhile (\<lambda>c. c = CHR ''_'') (arg_name p) \<and>
         opt_dest (cli_flag p) \<noteq> arg_name p \<and>
         (\<exists>m. call_function f [] kwargs = RaisedExc [] (type_error m))"
proof -
  let ?s = "dropWhile (\<lambda>c. c = CHR ''_'') (arg_name p)"
  have nd: "CHR ''-'' \<notin> set (arg_name p)" using py_identifier_no_space_dash assms(1) by blast
  then have "CHR ''-'' \<notin> set ?s" using set_dropWhileD by fastforce
  then have dest: "opt_dest (cli_flag p) = ?s"
    using nd by (simp add: opt_dest_def cli_flag_def dropWhile_replace_char py_replace_char_inverse)
  obtain cs where "arg_name p = CHR ''_'' # cs"
    using assms(1,2) by (cases "arg_name p") (auto simp: py_identifier_def)
  then have ne: "?s \<noteq> arg_name p"
    using length_dropWhile_le [of "\<lambda>c. c = CHR ''_''" cs] by auto
  have "find (\<lambda>(k, v). k \<notin> set (map fst (fun_params f))) kwargs \<noteq> None"
    using assms(3,4) dest by (auto simp: find_None_iff fun_args_def)
  then obtain k w where "find (\<lambda>(k, v). k \<notin> set (map fst (fun_params f))) kwargs = Some (k, w)" by auto
  then have "call_function f [] kwargs = RaisedExc [] (type_error (''got an unexpected keyword argument '' @ k))"
    by (simp add: call_function_def bind_call_def)
  with dest ne show ?thesis by auto
qed

theorem cli_underscore_parameter_witness:
  "opt_dest (cli_flag (with_widget (hd (params private_doc)) ''a limit'' ''text'' None)) = ''limit'' \<and>
   call_function private_function [] [(''limit'', PyInt 1)] =
     RaisedExc [] (type_error ''got an unexpected keyword argument limit'')"
proof -
  let ?p = "with_widget (hd (params private_doc)) ''a limit'' ''text'' None"
  have h: "py_identifier (arg_name ?p)" "hd (arg_name ?p) = CHR ''_''"
    "dropWhile (\<lambda>c. c = CHR ''_'') (arg_name ?p) \<notin> set (fun_args private_function)"
    by (simp_all add: private_doc_def private_function_def fun_args_def py_identifier_def ident_start_def
        ident_char_def)
  have d: "opt_dest (cli_flag ?p) = ''limit''"
    by (simp add: private_doc_def opt_dest_def cli_flag_def py_replace_char_def)
  then have "(opt_dest (cli_flag ?p), PyInt 1) \<in> set [(''limit'', PyInt 1)]" by simp
  from cli_underscore_parameter [OF h this] d show ?thesis
    by (simp add: call_function_def bind_call_def private_function_def)
qed

text \<open>C18: for a parameter whose name is an identifier that does not start with an
  underscore, the destination argparse derives from the option string of line 63
  is the parameter's name again, so the parsed value reaches the right keyword.\<close>

theorem cli_flag_dest_roundtrip:
  assumes "py_identifier (arg_name p)" and "hd (arg_name p) \<noteq> CHR ''_''"
  shows "opt_dest (cli_flag p) = arg_name p"
proof -
  obtain c cs where n: "arg_name p = c # cs"
    using assms(1) by (cases "arg_name p") (auto simp: py_identifier_def)
  have "c \<noteq> CHR ''-''" using py_identifier_Cons assms(1) n by auto
  moreover have "c \<noteq> CHR ''_''" using assms(2) n by simp
  moreover have nd: "CHR ''-'' \<notin> set (arg_name p)" using py_identifier_no_space_dash assms(1) by blast
  ultimately have "dropWhile (\<lambda>x. x = CHR ''-'') (py_replace_char CHR ''_'' CHR ''-'' (arg_name p)) =
                   py_replace_char CHR ''_'' CHR ''-'' (arg_name p)"
    by (simp add: n py_replace_char_def)
  with nd show ?thesis by (simp add: opt_dest_def cli_flag_def py_replace_char_inverse)
qed

theorem cli_flag_dest_roundtrip_witness:
  "opt_dest (cli_flag (with_widget test_params_b ''descr b'' ''checkbox'' None)) = ''b''"
proof -
  have "py_identifier (arg_name (with_widget test_params_b ''descr b'' ''checkbox'' None))"
    "hd (arg_name (with_widget test_params_b ''descr b'' ''checkbox'' None)) \<noteq> CHR ''_''"
    by (simp_all add: test_docs py_identifier_def ident_start_def)
  from cli_flag_dest_roundtrip [OF this] show ?thesis by (simp add: test_docs)
qed

text \<open>C19: \<open>_pop_namespace_item\<close> returns the entry's value, \<open>None\<close> when there
  is none, and removes the entry and nothing else.\<close>

theorem pop_namespace_item_spec:
  assumes "pop_namespace_item ns k = (v, ns')"
  shows "v = (case map_of ns k of None \<Rightarrow> PyNone | Some x \<Rightarrow> x) \<and> map_of ns' = (map_of ns)(k := None)"
  using assms by (auto simp: pop_namespace_item_def delete_conv' split: option.splits)

theorem pop_namespace_item_spec_witness:
  "pop_namespace_item [(''mode_name'', PyStr ''cli''), (''a'', PyStr ''x'')] ''mode_name'' =
     (PyStr ''cli'', [(''a'', PyStr ''x'')]) \<and>
   map_of [(''a'', PyStr ''x'')] = (map_of [(''mode_name'', PyStr ''cli''), (''a'', PyStr ''x'')])(''mode_name'' := None)"
proof -
  have h: "pop_namespace_item [(''mode_name'', PyStr ''cli''), (''a'', PyStr ''x'')] ''mode_name'' =
             (PyStr ''cli'', [(''a'', PyStr ''x'')])"
    by (simp add: pop_namespace_item_def)
  from pop_namespace_item_spec [OF h] h show ?thesis by simp
qed

text \<open>What \<open>launch\<close> hands to \<open>start_web_app\<close>: the program list it was given,
  the schemas it built, the logger it was given.\<close>

lemma invoke_not_start: "invoke f kwargs \<noteq> Inr (StartWebApp pl fd lg)"
  by (simp add: invoke_def split: call_outcome.splits)

lemma run_direct_not_start: "run_direct env dm f ns \<noteq> Inr (StartWebApp pl fd lg)"
  by (cases dm) (auto simp: invoke_not_start split: option.splits pyval.splits sum.splits)

lemma run_selector_start:
  "run_selector sm pl fd lg = Inr (StartWebApp pl' fd' lg') \<Longrightarrow> pl' = pl \<and> fd' = fd \<and> lg = Some lg'"
  by (cases sm) (auto split: option.splits)

lemma launch_start_web_app:
  assumes "launch env pl sms dms lg argv = Inr (StartWebApp pl' fd lg')"
  shows "pl' = pl \<and> build_functions_doc pl = Inr fd \<and> lg = Some lg'"
proof -
  obtain fd0 where b: "build_functions_doc pl = Inr fd0"
    using assms by (cases "build_functions_doc pl") (simp_all add: launch_def)
  have "pl' = pl \<and> fd = fd0 \<and> lg = Some lg'"
    using assms b
    by (auto simp: launch_def Let_def run_direct_not_start dest: run_selector_start
        split: sum.splits prod.splits option.splits pyval.splits)
  with b show ?thesis by simp
qed

lemma build_functions_doc_Inr:
  "build_functions_doc pl = Inr fd \<Longrightarrow>
   list_all2 (\<lambda>(n, f) (n', d). n' = n \<and> parse_function_doc False (fun_args f) (fun_doc f) = Inr d) pl fd"
  by (induction pl arbitrary: fd rule: build_functions_doc.induct) (auto split: sum.splits)

text \<open>With distinct names, the schema of a name is the one built for its function.\<close>

lemma list_all2_keys_map_of:
  assumes "list_all2 (\<lambda>(n, f) (n', d). n' = n \<and> Q f d) xs ys" and "distinct (map fst xs)"
    and "(n, f) \<in> set xs"
  shows "\<exists>d. map_of ys n = Some d \<and> Q f d"
  using assms
proof (induction xs ys rule: list_all2_induct)
  case (Cons x xs y ys)
  obtain n0 f0 n1 d0 where xy: "x = (n0, f0)" "y = (n1, d0)" by fastforce
  with Cons.hyps(1) have n1: "n1 = n0" and q: "Q f0 d0" by auto
  show ?case
  proof (cases "n = n0")
    case True
    with Cons.prems xy have "f = f0" by (force simp: image_iff)
    with True xy n1 q show ?thesis by simp
  next
    case False
    with Cons.prems xy have "(n, f) \<in> set xs" "distinct (map fst xs)" by auto
    with Cons.IH False xy n1 show ?thesis by simp
  qed
qed simp

end
