(* ===== verification/Web_Launcher.thy ===== *)
theory Web_Launcher
  imports Launcher
begin

text \<open>
  \<open>start_web_app\<close> of \<open>src/autoui/lib/web_launcher.py\<close>: the interactive
  session behind the \<open>gui\<close> mode. The eel server and the browser are the
  environment: the session receives one request at a time (eel serves the
  exposed functions from a single event loop), and each request is one of the
  three exposed functions \<open>launch_function\<close>, \<open>get_function_doc\<close> and
  \<open>function_list\<close>, or the \<open>close_callback\<close> eel runs when the last page closes.
  The session state is the process-wide logger (its handlers change), what the
  browser's log callbacks have received, what the process has printed, and
  whether the process is still running; the program list, the schemas and the
  environment (the browser's \<open>eel.logcallback\<close>, \<open>time.localtime\<close>, \<open>eval\<close>
  and \<open>format_stack\<close>) are fixed for the session in \<open>web_config\<close>.
  A request gives the next state and the reply eel sends back: the return
  value, or the exception the exposed function let through.
\<close>

section \<open>Configuration and state\<close>

record web_config =
  wc_program_list :: "py_function pydict"
  wc_functions_doc :: "param_spec docstring pydict"
  wc_logcallback :: nat
  wc_localtime :: "int \<Rightarrow> datetime"
  wc_eval :: "string \<Rightarrow> pyval result"
  wc_stack :: "string list"

record web_session =
  ws_logger :: logger
  ws_log :: "(nat \<times> web_event) list"
  ws_stdout :: "string list"
  ws_alive :: bool

text \<open>The requests the browser (or eel) makes. \<open>LaunchFunction t args kwargs\<close>
  carries the time at which the records it logs are created.\<close>

datatype ui_request =
    LaunchFunction int "pyval list" "(string \<times> pyval) list"
  | GetFunctionDoc pyval
  | FunctionList
  | CloseSession string "string list"

text \<open>Lines 17--18 and 74--78: the session \<open>eel.start\<close> opens. No handler is
  attached yet: \<open>launch_function\<close> attaches it.\<close>

definition start_web_app :: "web_config \<Rightarrow> logger \<Rightarrow> web_session" where
  "start_web_app c logger = \<lparr>ws_logger = logger, ws_log = [], ws_stdout = [], ws_alive = True\<rparr>"

section \<open>Dictionary access with a value from the browser\<close>

text \<open>\<open>d[k]\<close> for a dictionary with string keys and a key decoded from JSON: a
  string is looked up, a list or an object is unhashable, any other value is
  a missing key.\<close>

definition py_dict_lookup :: "'v pydict \<Rightarrow> pyval \<Rightarrow> 'v result" where
  "py_dict_lookup d k =
     (case k of
        PyStr s \<Rightarrow> dict_getitem d s
      | PyList _ \<Rightarrow> Inl (TypeError (''unhashable type: '' @ CHR 0x27 # ''list'' @ [CHR 0x27]))
      | PyDict _ \<Rightarrow> Inl (TypeError (''unhashable type: '' @ CHR 0x27 # ''dict'' @ [CHR 0x27]))
      | _ \<Rightarrow> Inl (KeyError (py_repr k)))"

section \<open>\<open>launch_function\<close>\<close>

text \<open>A message logged through the session's logger at time \<open>t\<close>: what the web
  handlers attached to it send, when the logger's effective level lets the
  record through. \<open>emit\<close> never fails in the model (\<open>emit_Inr\<close>: the
  timestamp is a float), so the \<open>Inl\<close> branch, kept for the type, is never
  taken.\<close>

definition deliver :: "web_config \<Rightarrow> int \<Rightarrow> logger \<Rightarrow> log_call \<Rightarrow> (nat \<times> web_event) list" where
  "deliver c t lg lc =
     (case logger_log (wc_localtime c) lg \<lparr>rec_levelno = fst lc, rec_msg = snd lc, rec_created = t\<rparr> of
        Inl _ \<Rightarrow> []
      | Inr evs \<Rightarrow> evs)"

text \<open>\<open>f"ERROR {type(err)}\n{err}"\<close>: \<open>exc_type\<close> is the class name as
  \<open>type(err)\<close> prints it.\<close>

definition exception_summary :: "py_exception \<Rightarrow> string" where
  "exception_summary e =
     ''ERROR <class '' @ CHR 0x27 # exc_type e @ CHR 0x27 # ''>'' @ CHR ''\<newline>'' # exc_msg e"

text \<open>Lines 29--32: the full traceback when the logger's own level is
  \<open>DEBUG\<close>, the summary otherwise.\<close>

definition failure_message :: "logger \<Rightarrow> py_exception \<Rightarrow> string" where
  "failure_message lg e = (if logger_level lg = DEBUG then exception_detail e else exception_summary e)"

text \<open>Lines 20--32. The handler is attached first (line 23), so it is attached
  even when the lookup of line 24 fails; the lookup and \<open>args[0]\<close> are outside
  the \<open>try\<close>, the call is inside it. What the body logs and the \<open>logger.fatal\<close>
  of the handler go through the logger with the handler attached. Line 28
  catches an exception whose class derives from \<open>Exception\<close>; any other
  (\<open>SystemExit\<close> from \<open>sys.exit()\<close>, \<open>KeyboardInterrupt\<close>) leaves the exposed
  function, gevent hands it to the main greenlet and the process ends, as after
  the \<open>exit()\<close> of \<open>close_callback\<close>.\<close>

definition launch_function ::
  "web_config \<Rightarrow> int \<Rightarrow> pyval list \<Rightarrow> (string \<times> pyval) list \<Rightarrow> web_session \<Rightarrow> web_session \<times> pyval result" where
  "launch_function c t args kwargs s =
     (let lg = add_to_logger (LogHandlerWeb (wc_logcallback c)) (ws_logger s);
          s1 = s\<lparr>ws_logger := lg\<rparr>
      in case args of
           [] \<Rightarrow> (s1, Inl (IndexError ''tuple index out of range''))
         | name # rest \<Rightarrow>
             (case py_dict_lookup (wc_program_list c) name of
                Inl e \<Rightarrow> (s1, Inl e)
              | Inr function \<Rightarrow>
                  (case call_function function rest kwargs of
                     Returned logs \<Rightarrow>
                       (s1\<lparr>ws_log := ws_log s1 @ concat (map (deliver c t lg) logs)\<rparr>, Inr PyNone)
                   | RaisedExc logs err \<Rightarrow>
                       (if exc_is_exception err then
                          (s1\<lparr>ws_log := ws_log s1 @ concat (map (deliver c t lg) logs) @
                                         deliver c t lg (CRITICAL, failure_message lg err)\<rparr>, Inr PyNone)
                        else
                          (s1\<lparr>ws_log := ws_log s1 @ concat (map (deliver c t lg) logs), ws_alive := False\<rparr>,
                           Inl (Raised err))))))"

section \<open>\<open>get_function_doc\<close>\<close>

definition py_opt_str :: "string option \<Rightarrow> pyval" where
  "py_opt_str v = (case v of None \<Rightarrow> PyNone | Some s \<Rightarrow> PyStr s)"

text \<open>Lines 42--52: the dictionary of one parameter; the key \<open>default\<close> is
  added, with the evaluated default, only when the schema has a default.\<close>

definition param_obj :: "web_config \<Rightarrow> param_spec \<Rightarrow> pyval pydict result" where
  "param_obj c param =
     (let obj = [(''arg_name'', PyStr (arg_name param)), (''description'', PyStr (description param)),
                 (''is_optional'', PyBool (is_optional param)), (''type_name'', py_opt_str (type_name param)),
                 (''input_type'', PyStr (input_type param)),
                 (''values'', case param_values param of None \<Rightarrow> PyNone | Some vs \<Rightarrow> PyList (map PyStr vs))]
      in case default param of
           None \<Rightarrow> Inr obj
         | Some d \<Rightarrow> (case wc_eval c d of Inl e \<Rightarrow> Inl e | Inr v \<Rightarrow> Inr (AList.update ''default'' v obj)))"

text \<open>The loop of line 42: the parameters in order, the first exception raised.\<close>

fun param_objs :: "web_config \<Rightarrow> param_spec list \<Rightarrow> pyval list result" where
  "param_objs c [] = Inr []"
| "param_objs c (p # ps) =
     (case param_obj c p of
        Inl e \<Rightarrow> Inl e
      | Inr obj \<Rightarrow> (case param_objs c ps of Inl e \<Rightarrow> Inl e | Inr objs \<Rightarrow> Inr (PyDict obj # objs)))"

text \<open>Lines 34--53.\<close>

definition get_function_doc :: "web_config \<Rightarrow> pyval \<Rightarrow> pyval result" where
  "get_function_doc c function_name =
     (case py_dict_lookup (wc_functions_doc c) function_name of
        Inl e \<Rightarrow> Inl e
      | Inr function_doc \<Rightarrow>
          (case param_objs c (params function_doc) of
             Inl e \<Rightarrow> Inl e
           | Inr ps \<Rightarrow> Inr (PyDict [(''short_description'', py_opt_str (short_description function_doc)),
                                    (''long_description'', py_opt_str (long_description function_doc)),
                                    (''params'', PyList ps)])))"

section \<open>\<open>function_list\<close>\<close>

text \<open>Lines 55--60: one row \<open>[name, short_description]\<close> per key of
  \<open>program_list\<close>, in order; a key without a schema is a \<open>KeyError\<close>.\<close>

fun function_rows :: "param_spec docstring pydict \<Rightarrow> string list \<Rightarrow> pyval list result" where
  "function_rows fd [] = Inr []"
| "function_rows fd (program_name # names) =
     (case dict_getitem fd program_name of
        Inl e \<Rightarrow> Inl e
      | Inr d \<Rightarrow> (case function_rows fd names of
                   Inl e \<Rightarrow> Inl e
                 | Inr rows \<Rightarrow> Inr (PyList [PyStr program_name, py_opt_str (short_description d)] # rows)))"

definition function_list :: "web_config \<Rightarrow> pyval result" where
  "function_list c =
     (case function_rows (wc_functions_doc c) (map fst (wc_program_list c)) of
        Inl e \<Rightarrow> Inl e
      | Inr rows \<Rightarrow> Inr (PyList rows))"

section \<open>\<open>close_callback\<close>\<close>

definition print_stack_on_exit :: bool where
  "print_stack_on_exit = False"

text \<open>Lines 64--71: four lines printed (the sockets as \<open>print\<close> renders a list
  of their representations), the stack when \<open>print_stack_on_exit\<close>, then
  \<open>bye!\<close> and \<open>exit()\<close>, which ends the process.\<close>

definition close_callback :: "web_config \<Rightarrow> string \<Rightarrow> string list \<Rightarrow> web_session \<Rightarrow> web_session" where
  "close_callback c page sockets s =
     s\<lparr>ws_stdout := ws_stdout s @ [''closing web app'', ''page: '' @ page,
                                    ''sockets: ['' @ py_join_str '', '' sockets @ '']''] @
                     (if print_stack_on_exit then wc_stack c else []) @ [''bye!''],
       ws_alive := False\<rparr>"

section \<open>The session\<close>

text \<open>One request and its reply.\<close>

fun web_step :: "web_config \<Rightarrow> web_session \<Rightarrow> ui_request \<Rightarrow> web_session \<times> pyval result" where
  "web_step c s (LaunchFunction t args kwargs) = launch_function c t args kwargs s"
| "web_step c s (GetFunctionDoc n) = (s, get_function_doc c n)"
| "web_step c s FunctionList = (s, function_list c)"
| "web_step c s (CloseSession page sockets) = (close_callback c page sockets s, Inr PyNone)"

text \<open>A sequence of requests: once the process has exited none is served.\<close>

fun web_run :: "web_config \<Rightarrow> web_session \<Rightarrow> ui_request list \<Rightarrow> web_session \<times> pyval result list" where
  "web_run c s [] = (s, [])"
| "web_run c s (r # rs) =
     (if ws_alive s then
        (case web_step c s r of
           (s', a) \<Rightarrow> (case web_run c s' rs of (s'', as) \<Rightarrow> (s'', a # as)))
      else (s, []))"

text \<open>The requests that end the process: closing the last page, and launching
  a function of the program list whose call raises an exception that does not
  derive from \<open>Exception\<close>. Whether a request ends the process does not depend
  on the state.\<close>

fun request_exits :: "web_config \<Rightarrow> ui_request \<Rightarrow> bool" where
  "request_exits c (LaunchFunction t (name # rest) kwargs) =
     (case py_dict_lookup (wc_program_list c) name of
        Inl _ \<Rightarrow> False
      | Inr f \<Rightarrow> (case call_function f rest kwargs of
                   Returned _ \<Rightarrow> False
                 | RaisedExc _ e \<Rightarrow> \<not> exc_is_exception e))"
| "request_exits c (LaunchFunction t [] kwargs) = False"
| "request_exits c (GetFunctionDoc n) = False"
| "request_exits c FunctionList = False"
| "request_exits c (CloseSession _ _) = True"

text \<open>The states a session reaches from \<open>s0\<close>, whatever the browser asks.\<close>

inductive web_reach :: "web_config \<Rightarrow> web_session \<Rightarrow> web_session \<Rightarrow> bool" where
  start: "web_reach c s0 s0"
| step: "web_reach c s0 s \<Longrightarrow> ws_alive s \<Longrightarrow> web_step c s r = (s', a) \<Longrightarrow> web_reach c s0 s'"

text \<open>The configuration \<open>launch\<close> hands to \<open>start_web_app\<close> in the \<open>gui\<close> mode,
  in an environment of the browser and the process.\<close>

definition web_config_of ::
  "web_config \<Rightarrow> py_function pydict \<Rightarrow> param_spec docstring pydict \<Rightarrow> web_config" where
  "web_config_of env program_list functions_doc =
     env\<lparr>wc_program_list := program_list, wc_functions_doc := functions_doc\<rparr>"

text \<open>The invariant of a session whose logger had no web handler at the start:
  the only web handler ever attached is the one for \<open>eel.logcallback\<close>, and
  every log event the browser received went to that callback.\<close>

definition session_inv :: "web_config \<Rightarrow> web_session \<Rightarrow> bool" where
  "session_inv c s \<longleftrightarrow>
     web_callbacks (logger_handlers (ws_logger s)) \<in> {[], [wc_logcallback c]} \<and>
     set (map fst (ws_log s)) \<subseteq> {wc_logcallback c}"

section \<open>The log channel, abstractly\<close>

text \<open>What the specification promises the page's log stream shows for one
  launch: the messages the target logs and, when it raises an exception that
  derives from \<open>Exception\<close>, the failure at \<open>CRITICAL\<close>, each once, with its level
  name and error flag, as far as the logger's effective level lets them
  through. \<open>channel_view\<close> is what the page sees of
  the events it received.\<close>

definition reported :: "logger \<Rightarrow> call_outcome \<Rightarrow> log_call list" where
  "reported lg out =
     (case out of
        Returned logs \<Rightarrow> logs
      | RaisedExc logs e \<Rightarrow> logs @ (if exc_is_exception e then [(CRITICAL, failure_message lg e)] else []))"

definition channel_spec :: "logger \<Rightarrow> log_call list \<Rightarrow> (string \<times> bool \<times> string) list" where
  "channel_spec lg lcs = [(level_name l, ERROR \<le> l, m). (l, m) \<leftarrow> lcs, effective_level lg \<le> l]"

definition channel_view :: "(nat \<times> web_event) list \<Rightarrow> (string \<times> bool \<times> string) list" where
  "channel_view evs = map (\<lambda>(cb, ev). (ev_levelname ev, ev_is_error ev, ev_msg ev)) evs"

section \<open>Example session\<close>

text \<open>The program of \<open>src/test.py\<close> in the \<open>gui\<close> mode: the browser's log
  callback is number 7, every record is created at 2024-01-02 03:04:05, and
  defaults are evaluated as literals.\<close>

definition demo_web_config :: web_config where
  "demo_web_config = \<lparr>wc_program_list = test_program_list, wc_functions_doc = test_functions_doc,
     wc_logcallback = 7,
     wc_localtime = (\<lambda>t. \<lparr>dt_year = 2024, dt_month = 1, dt_day = 2, dt_hour = 3, dt_minute = 4, dt_second = 5\<rparr>),
     wc_eval = py_literal_eval, wc_stack = []\<rparr>"

text \<open>A schema whose default is an expression \<open>eval\<close> cannot evaluate here.\<close>

definition bad_default_doc :: "param_spec docstring" where
  "bad_default_doc = \<lparr>short_description = None, long_description = None,
     params = [with_widget test_params_a ''descr a'' ''text'' None,
               (with_widget test_params_b ''descr b'' ''checkbox'' None)\<lparr>default := Some ''os.getcwd()''\<rparr>]\<rparr>"

section \<open>Lemmas\<close>

lemmas web_defs = start_web_app_def launch_function_def get_function_doc_def function_list_def
  close_callback_def print_stack_on_exit_def py_dict_lookup_def web_config_of_def

lemma deliver_eq:
  "deliver c t lg lc =
     (if effective_level lg \<le> fst lc
      then map (\<lambda>cb. (cb, event_of (wc_localtime c) \<lparr>rec_levelno = fst lc, rec_msg = snd lc, rec_created = t\<rparr>))
             (web_callbacks (logger_handlers lg))
      else [])"
  by (simp add: deliver_def logger_log_def web_deliveries_Inr)

lemma deliver_callbacks: "set (map fst (deliver c t lg lc)) \<subseteq> set (web_callbacks (logger_handlers lg))"
  by (auto simp: deliver_eq)

lemma deliver_all_callbacks:
  "set (map fst (concat (map (deliver c t lg) lcs))) \<subseteq> set (web_callbacks (logger_handlers lg))"
  using deliver_callbacks by (fastforce simp: image_Union)

text \<open>What one call of \<open>launch_function\<close> changes, on every branch: the logger
  gets the handler, new events are appended and they go to the handlers of the
  new logger; the rest of the state is unchanged.\<close>

lemma launch_function_frame:
  assumes "launch_function c t args kwargs s = (s', r)"
  shows "ws_logger s' = add_to_logger (LogHandlerWeb (wc_logcallback c)) (ws_logger s) \<and>
         ws_stdout s' = ws_stdout s \<and>
         (\<exists>new. ws_log s' = ws_log s @ new \<and> set (map fst new) \<subseteq> set (web_callbacks (logger_handlers (ws_logger s'))))"
proof -
  let ?lg = "add_to_logger (LogHandlerWeb (wc_logcallback c)) (ws_logger s)"
  show ?thesis
  proof (cases args)
    case Nil
    with assms show ?thesis by (auto simp: launch_function_def)
  next
    case (Cons name rest)
    show ?thesis
    proof (cases "py_dict_lookup (wc_program_list c) name")
      case (Inl e)
      with assms Cons show ?thesis by (auto simp: launch_function_def)
    next
      case (Inr f)
      show ?thesis
      proof (cases "call_function f rest kwargs")
        case (Returned logs)
        with assms Cons Inr
        have "s' = s\<lparr>ws_logger := ?lg, ws_log := ws_log s @ concat (map (deliver c t ?lg) logs)\<rparr>"
          by (simp add: launch_function_def Let_def)
        with deliver_all_callbacks [of c t ?lg logs] show ?thesis by auto
      next
        case (RaisedExc logs err)
        show ?thesis
        proof (cases "exc_is_exception err")
          case True
          let ?new = "concat (map (deliver c t ?lg) logs) @ deliver c t ?lg (CRITICAL, failure_message ?lg err)"
          from assms Cons Inr RaisedExc True
          have "s' = s\<lparr>ws_logger := ?lg, ws_log := ws_log s @ ?new\<rparr>"
            by (simp add: launch_function_def Let_def)
          moreover have "set (map fst ?new) \<subseteq> set (web_callbacks (logger_handlers ?lg))"
            using deliver_all_callbacks [of c t ?lg logs] deliver_callbacks [of c t ?lg] by simp
          ultimately show ?thesis by auto
        next
          case False
          from assms Cons Inr RaisedExc False
          have "s' = s\<lparr>ws_logger := ?lg, ws_log := ws_log s @ concat (map (deliver c t ?lg) logs), ws_alive := False\<rparr>"
            by (simp add: launch_function_def Let_def)
          with deliver_all_callbacks [of c t ?lg logs] show ?thesis by auto
        qed
      qed
    qed
  qed
qed

text \<open>A request leaves the process running exactly when it does not end it.\<close>

lemma launch_function_alive:
  "launch_function c t args kwargs s = (s', r) \<Longrightarrow>
   ws_alive s' = (ws_alive s \<and> \<not> request_exits c (LaunchFunction t args kwargs))"
  by (auto simp: launch_function_def Let_def split: list.splits sum.splits call_outcome.splits if_splits)

lemma web_step_frame:
  assumes "web_step c s r = (s', a)"
  shows "(ws_logger s' = ws_logger s \<or> ws_logger s' = add_to_logger (LogHandlerWeb (wc_logcallback c)) (ws_logger s)) \<and>
         (\<exists>new. ws_log s' = ws_log s @ new \<and> set (map fst new) \<subseteq> set (web_callbacks (logger_handlers (ws_logger s'))))"
  using assms
proof (cases r)
  case (LaunchFunction t args kwargs)
  with assms have "launch_function c t args kwargs s = (s', a)" by simp
  then show ?thesis using launch_function_frame by blast
qed (auto simp: close_callback_def)

lemma session_inv_start:
  "web_callbacks (logger_handlers lg) = [] \<Longrightarrow> session_inv c (start_web_app c lg)"
  by (simp add: session_inv_def start_web_app_def)

lemma web_step_inv:
  assumes "web_step c s r = (s', a)" and "session_inv c s"
  shows "session_inv c s'"
proof -
  have cbs: "web_callbacks (logger_handlers (ws_logger s')) \<in> {[], [wc_logcallback c]}"
    using web_step_frame [OF assms(1)] assms(2)
    by (auto simp: session_inv_def add_to_logger_web_callbacks)
  from web_step_frame [OF assms(1)] obtain new where
    "ws_log s' = ws_log s @ new" "set (map fst new) \<subseteq> set (web_callbacks (logger_handlers (ws_logger s')))"
    by blast
  with cbs assms(2) show ?thesis by (auto simp: session_inv_def)
qed

lemma web_reach_inv:
  "web_reach c s0 s \<Longrightarrow> session_inv c s0 \<Longrightarrow> session_inv c s"
  by (induction rule: web_reach.induct) (auto intro: web_step_inv)

lemma failure_message_level:
  "logger_level a = logger_level b \<Longrightarrow> failure_message a e = failure_message b e"
  by (simp add: failure_message_def)

lemma web_step_level:
  "web_step c s r = (s', a) \<Longrightarrow>
   logger_level (ws_logger s') = logger_level (ws_logger s) \<and>
   logger_ancestor_levels (ws_logger s') = logger_ancestor_levels (ws_logger s)"
  using web_step_frame [of c s r s' a] by auto

lemma web_step_other_handlers:
  "web_step c s r = (s', a) \<Longrightarrow>
   [h \<leftarrow> logger_handlers (ws_logger s'). \<not> same_handler_type h (LogHandlerWeb 0)] =
   [h \<leftarrow> logger_handlers (ws_logger s). \<not> same_handler_type h (LogHandlerWeb 0)]"
  using web_step_frame [of c s r s' a] add_to_logger_other_handlers by metis

lemma web_reach_level:
  "web_reach c s0 s \<Longrightarrow>
   logger_level (ws_logger s) = logger_level (ws_logger s0) \<and>
   logger_ancestor_levels (ws_logger s) = logger_ancestor_levels (ws_logger s0)"
  by (induction rule: web_reach.induct) (auto dest: web_step_level)

lemma web_reach_effective_level:
  "web_reach c s0 s \<Longrightarrow> effective_level (ws_logger s) = effective_level (ws_logger s0)"
  using web_reach_level by (simp add: effective_level_def)

lemma web_reach_other_handlers:
  "web_reach c s0 s \<Longrightarrow>
   [h \<leftarrow> logger_handlers (ws_logger s). \<not> same_handler_type h (LogHandlerWeb 0)] =
   [h \<leftarrow> logger_handlers (ws_logger s0). \<not> same_handler_type h (LogHandlerWeb 0)]"
  by (induction rule: web_reach.induct) (auto dest: web_step_other_handlers)

lemma session_inv_attach:
  "session_inv c s \<Longrightarrow>
   web_callbacks (logger_handlers (add_to_logger (LogHandlerWeb (wc_logcallback c)) (ws_logger s))) = [wc_logcallback c]"
  by (auto simp: session_inv_def add_to_logger_web_callbacks)

text \<open>The definitions a closed run of the example session unfolds to.\<close>

lemmas web_eval = web_defs demo_web_config_def deliver_eq effective_level_def event_of_def failure_message_def
  exception_detail_def
  exception_summary_def call_function_def bind_call_def test_functions add_to_logger_def info_logger_def
  dict_getitem_def date_eval level_name_def INFO_def CRITICAL_def ERROR_def DEBUG_def
  test_functions_doc_def py_opt_str_def

text \<open>C20: in a session started on a logger without a web handler, whatever the
  browser asks, at most one web handler is ever attached to the logger, and every
  log event the browser receives goes to the page's \<open>eel.logcallback\<close>.\<close>

theorem web_session_single_handler:
  assumes "web_reach c (start_web_app c lg) s" and "web_callbacks (logger_handlers lg) = []"
  shows "web_handler_count (ws_logger s) \<le> 1 \<and> (\<forall>(cb, ev) \<in> set (ws_log s). cb = wc_logcallback c)"
proof -
  have "session_inv c s" using web_reach_inv [OF assms(1) session_inv_start [OF assms(2)]] .
  then show ?thesis by (auto simp: session_inv_def web_handler_count_callbacks)
qed

theorem web_session_single_handler_witness:
  "web_handler_count (ws_logger (fst (web_step demo_web_config (start_web_app demo_web_config info_logger)
      (LaunchFunction 0 [PyStr ''test_err''] [])))) \<le> 1 \<and>
   set (map fst (ws_log (fst (web_step demo_web_config (start_web_app demo_web_config info_logger)
      (LaunchFunction 0 [PyStr ''test_err''] []))))) \<subseteq> {7}"
proof -
  let ?s0 = "start_web_app demo_web_config info_logger"
  let ?r = "LaunchFunction 0 [PyStr ''test_err''] []"
  have h1: "web_reach demo_web_config ?s0 (fst (web_step demo_web_config ?s0 ?r))"
    by (rule web_reach.step [OF web_reach.start, of _ _ ?r _ "snd (web_step demo_web_config ?s0 ?r)"])
       (simp_all add: start_web_app_def)
  have h2: "web_callbacks (logger_handlers info_logger) = []" by (simp add: info_logger_def)
  have cb: "wc_logcallback demo_web_config = 7" by (simp add: demo_web_config_def)
  have gen: "\<And>s. (\<forall>(cb, ev) \<in> set (ws_log s). cb = 7) \<Longrightarrow> set (map fst (ws_log s)) \<subseteq> {7}"
    by auto
  from web_session_single_handler [OF h1 h2, unfolded cb] gen show ?thesis by blast
qed

text \<open>C21: the interactive adapter never lets the target's exception through:
  in a session started on a logger without a web handler that lets \<open>CRITICAL\<close>
  records through, launching a function of the program list that raises an
  exception derived from \<open>Exception\<close> replies \<open>None\<close>, keeps the session
  running, and the last event the page's callback receives is the \<open>CRITICAL\<close>
  record of the failure (the traceback when the logger's own level is
  \<open>DEBUG\<close>, the summary otherwise).\<close>

theorem web_launch_exception_logged:
  assumes "web_reach c (start_web_app c lg) s" and "web_callbacks (logger_handlers lg) = []"
    and "effective_level lg \<le> CRITICAL"
    and "map_of (wc_program_list c) n = Some f" and "call_function f args kwargs = RaisedExc logs e"
    and "exc_is_exception e"
    and "web_step c s (LaunchFunction t (PyStr n # args) kwargs) = (s', r)"
  shows "r = Inr PyNone \<and> ws_alive s' = ws_alive s \<and> ws_log s' \<noteq> [] \<and>
         last (ws_log s') = (wc_logcallback c, event_of (wc_localtime c)
            \<lparr>rec_levelno = CRITICAL, rec_msg = failure_message lg e, rec_created = t\<rparr>)"
proof -
  let ?lg = "add_to_logger (LogHandlerWeb (wc_logcallback c)) (ws_logger s)"
  have inv: "session_inv c s" using web_reach_inv [OF assms(1) session_inv_start [OF assms(2)]] .
  have lvl: "logger_level ?lg = logger_level lg"
    using web_reach_level [OF assms(1)] by (simp add: start_web_app_def)
  have eff: "effective_level ?lg = effective_level lg"
    using web_reach_effective_level [OF assms(1)] by (simp add: start_web_app_def)
  have fm: "failure_message ?lg e = failure_message lg e" by (rule failure_message_level [OF lvl])
  have last_ev: "deliver c t ?lg (CRITICAL, failure_message ?lg e) =
      [(wc_logcallback c, event_of (wc_localtime c) \<lparr>rec_levelno = CRITICAL, rec_msg = failure_message lg e, rec_created = t\<rparr>)]"
    using session_inv_attach [OF inv] eff assms(3) fm by (simp add: deliver_eq)
  from assms(4,5,6,7) have "s' = s\<lparr>ws_logger := ?lg, ws_log := ws_log s @ concat (map (deliver c t ?lg) logs) @
                                   deliver c t ?lg (CRITICAL, failure_message ?lg e)\<rparr>" and "r = Inr PyNone"
    by (simp_all add: launch_function_def Let_def py_dict_lookup_def dict_getitem_def)
  with last_ev show ?thesis by simp
qed

theorem web_launch_exception_logged_witness:
  "web_step demo_web_config (start_web_app demo_web_config info_logger) (LaunchFunction 0 [PyStr ''test_err''] []) =
     (fst (web_step demo_web_config (start_web_app demo_web_config info_logger) (LaunchFunction 0 [PyStr ''test_err''] [])),
      Inr PyNone) \<and>
   last (ws_log (fst (web_step demo_web_config (start_web_app demo_web_config info_logger)
      (LaunchFunction 0 [PyStr ''test_err''] [])))) =
     (7, event_of (wc_localtime demo_web_config)
       \<lparr>rec_levelno = CRITICAL, rec_msg = exception_summary test_err_exception, rec_created = 0\<rparr>)"
proof -
  let ?s0 = "start_web_app demo_web_config info_logger"
  let ?r = "LaunchFunction 0 [PyStr ''test_err''] []"
  obtain s' r where st: "web_step demo_web_config ?s0 ?r = (s', r)" by fastforce
  have h1: "web_reach demo_web_config ?s0 ?s0" by (rule web_reach.start)
  have h2: "web_callbacks (logger_handlers info_logger) = []" "effective_level info_logger \<le> CRITICAL"
    by (simp_all add: info_logger_def effective_level_def INFO_def CRITICAL_def)
  have h3: "map_of (wc_program_list demo_web_config) ''test_err'' = Some test_err"
    by (simp add: demo_web_config_def test_program_list_def)
  have h4: "call_function test_err [] [] = RaisedExc [(INFO, ''called test_err'')] test_err_exception"
    by (simp add: call_function_def bind_call_def test_err_def)
  have h5: "exc_is_exception test_err_exception" by (simp add: test_err_exception_def)
  from web_launch_exception_logged [OF h1 h2 h3 h4 h5 st] st show ?thesis
    by (simp add: failure_message_def info_logger_def INFO_def DEBUG_def demo_web_config_def)
qed

text \<open>C22: launching a name the program list does not hold replies with the
  \<open>KeyError\<close> and logs nothing, but the web handler has been attached all the
  same: line 23 runs before the lookup of line 24.\<close>

theorem web_launch_unknown_function:
  assumes "map_of (wc_program_list c) n = None"
  shows "web_step c s (LaunchFunction t (PyStr n # args) kwargs) =
           (s\<lparr>ws_logger := add_to_logger (LogHandlerWeb (wc_logcallback c)) (ws_logger s)\<rparr>, Inl (KeyError n))"
  using assms by (simp add: launch_function_def py_dict_lookup_def dict_getitem_def)

theorem web_launch_unknown_function_witness:
  "web_step demo_web_config (start_web_app demo_web_config info_logger) (LaunchFunction 0 [PyStr ''nope''] []) =
     (start_web_app demo_web_config (info_logger\<lparr>logger_handlers := [OtherHandler ''StreamHandler'', LogHandlerWeb 7]\<rparr>),
      Inl (KeyError ''nope''))"
proof -
  have "map_of (wc_program_list demo_web_config) ''nope'' = None"
    by (simp add: demo_web_config_def test_program_list_def)
  from web_launch_unknown_function [OF this] show ?thesis
    by (simp add: start_web_app_def demo_web_config_def info_logger_def add_to_logger_def)
qed

text \<open>C26: the close callback ends the session: it prints the four lines of
  lines 65--70 (no stack, \<open>print_stack_on_exit\<close> being false), the process
  exits, and no request after it is served.\<close>

theorem close_session_ends:
  assumes "ws_alive s"
  shows "web_run c s (CloseSession page sockets # rs) =
           (s\<lparr>ws_stdout := ws_stdout s @ [''closing web app'', ''page: '' @ page,
                                          ''sockets: ['' @ py_join_str '', '' sockets @ '']'', ''bye!''],
              ws_alive := False\<rparr>, [Inr PyNone])"
proof (cases rs)
  case Nil
  with assms show ?thesis by (simp add: close_callback_def print_stack_on_exit_def)
next
  case (Cons r rs')
  with assms show ?thesis by (simp add: close_callback_def print_stack_on_exit_def)
qed

theorem close_session_ends_witness:
  "web_run demo_web_config (start_web_app demo_web_config info_logger)
     [CloseSession ''main.html'' [], FunctionList] =
   (\<lparr>ws_logger = info_logger, ws_log = [],
     ws_stdout = [''closing web app'', ''page: main.html'', ''sockets: []'', ''bye!''], ws_alive = False\<rparr>,
    [Inr PyNone])"
proof -
  have "ws_alive (start_web_app demo_web_config info_logger)" by (simp add: start_web_app_def)
  from close_session_ends [OF this, of demo_web_config "''main.html''" "[]" "[FunctionList]"] show ?thesis
    by (simp add: start_web_app_def)
qed

text \<open>The loop of \<open>function_list\<close> against a reference: when every name has a
  schema, its rows are the map of the row of each name over the names.\<close>

lemma function_rows_map:
  "\<forall>n \<in> set names. n \<in> dom (map_of fd) \<Longrightarrow>
   function_rows fd names = Inr (map (\<lambda>n. PyList [PyStr n, py_opt_str (short_description (the (map_of fd n)))]) names)"
  by (induction names) (auto simp: dict_getitem_def)

text \<open>C23: the session \<open>launch\<close> starts in the \<open>gui\<close> mode answers the
  function list with one row per function of the program list, in its order,
  each with the short description of the function's docstring: the schemas
  \<open>launch\<close> builds cover the program list exactly.\<close>

theorem gui_function_list:
  assumes "launch env pl sms dms lg argv = Inr (StartWebApp pl' fd lg')"
    and "distinct (map fst pl)"
  shows "function_list (web_config_of w pl' fd) =
           Inr (PyList (map (\<lambda>(n, f). PyList [PyStr n, py_opt_str (short_description (fun_doc f))]) pl))"
proof -
  from launch_start_web_app [OF assms(1)] have pl': "pl' = pl" and b: "build_functions_doc pl = Inr fd"
    by simp_all
  let ?Q = "\<lambda>f d. parse_function_doc False (fun_args f) (fun_doc f) = Inr d"
  have rel: "list_all2 (\<lambda>(n, f) (n', d). n' = n \<and> ?Q f d) pl fd"
    using build_functions_doc_Inr [OF b] by simp
  have sd: "\<exists>d. map_of fd n = Some d \<and> short_description d = short_description (fun_doc f)"
    if "(n, f) \<in> set pl" for n f
    using list_all2_keys_map_of [OF rel assms(2) that] parse_function_doc_descriptions by blast
  have dom: "\<forall>n \<in> set (map fst pl). n \<in> dom (map_of fd)"
    using sd by fastforce
  have "map (\<lambda>n. PyList [PyStr n, py_opt_str (short_description (the (map_of fd n)))]) (map fst pl) =
        map (\<lambda>(n, f). PyList [PyStr n, py_opt_str (short_description (fun_doc f))]) pl"
    using sd by (fastforce intro: map_cong)
  with function_rows_map [OF dom] pl' show ?thesis
    by (simp add: function_list_def web_config_of_def)
qed

theorem gui_function_list_witness:
  "launch (example_env []) test_program_list [GuiLauncher] [CliLauncher, JsonLauncher] (Some info_logger) [''gui''] =
     Inr (StartWebApp test_program_list test_functions_doc info_logger) \<and>
   function_list (web_config_of demo_web_config test_program_list test_functions_doc) =
     Inr (PyList [PyList [PyStr ''test_params'', PyStr ''test_params function''],
                  PyList [PyStr ''test_noparam'', PyStr ''test_noparam function''],
                  PyList [PyStr ''test_err'', PyStr ''test_err function'']])"
proof -
  have h1: "launch (example_env []) test_program_list [GuiLauncher] [CliLauncher, JsonLauncher] (Some info_logger) [''gui''] =
     Inr (StartWebApp test_program_list test_functions_doc info_logger)"
    by (simp add: launch_eval test_functions_doc_def re_sub.simps cong: option.case_cong_weak)
  have h2: "distinct (map fst test_program_list)" by (simp add: test_program_list_def)
  from gui_function_list [OF h1 h2, of demo_web_config] h1 show ?thesis
    by (simp add: test_functions test_docs py_opt_str_def)
qed

lemma param_obj_Inr:
  "param_obj c p = Inr obj \<Longrightarrow>
   map fst obj = [''arg_name'', ''description'', ''is_optional'', ''type_name'', ''input_type'', ''values''] @
                 (if default p = None then [] else [''default'']) \<and>
   map_of obj ''arg_name'' = Some (PyStr (arg_name p)) \<and>
   map_of obj ''input_type'' = Some (PyStr (input_type p)) \<and>
   map_of obj ''values'' = Some (case param_values p of None \<Rightarrow> PyNone | Some vs \<Rightarrow> PyList (map PyStr vs)) \<and>
   map_option Inr (map_of obj ''default'') = map_option (wc_eval c) (default p)"
  by (auto simp: param_obj_def Let_def split: option.splits sum.splits)

lemma param_obj_ok:
  "(\<forall>x. default p = Some x \<longrightarrow> (\<exists>v. wc_eval c x = Inr v)) \<Longrightarrow> \<exists>obj. param_obj c p = Inr obj"
  by (auto simp: param_obj_def Let_def split: option.splits sum.splits)

lemma param_objs_Inr:
  "param_objs c ps = Inr os \<longleftrightarrow> list_all2 (\<lambda>p o'. \<exists>obj. param_obj c p = Inr obj \<and> o' = PyDict obj) ps os"
proof (induction ps arbitrary: os)
  case (Cons p ps)
  have "param_objs c (p # ps) = Inr os \<longleftrightarrow>
        (\<exists>obj os'. os = PyDict obj # os' \<and> param_obj c p = Inr obj \<and> param_objs c ps = Inr os')"
    by (auto split: sum.splits)
  with Cons.IH show ?case by (auto simp: list_all2_Cons1)
qed auto

lemma param_objs_ok:
  "\<forall>p \<in> set ps. \<forall>x. default p = Some x \<longrightarrow> (\<exists>v. wc_eval c x = Inr v) \<Longrightarrow> \<exists>os. param_objs c ps = Inr os"
proof (induction ps)
  case (Cons p ps)
  then obtain obj os where "param_obj c p = Inr obj" "param_objs c ps = Inr os"
    using param_obj_ok by fastforce
  then show ?case by simp
qed simp

lemma param_objs_first_error:
  "\<forall>q \<in> set pre. \<exists>obj. param_obj c q = Inr obj \<Longrightarrow> param_obj c p = Inl e \<Longrightarrow>
   param_objs c (pre @ p # post) = Inl e"
  by (induction pre) auto

text \<open>C24: the schema a page fetches for a documented function: its two
  descriptions and one dictionary per parameter, in order, with the keys of
  lines 43--50 and the key \<open>default\<close> exactly for the parameters that have a
  default, whose value is the evaluated default; the widget and the choices
  are those of the schema.\<close>

theorem get_function_doc_params:
  assumes "map_of (wc_functions_doc c) n = Some d"
    and "\<forall>p \<in> set (params d). \<forall>x. default p = Some x \<longrightarrow> (\<exists>v. wc_eval c x = Inr v)"
  shows "\<exists>os. get_function_doc c (PyStr n) =
              Inr (PyDict [(''short_description'', py_opt_str (short_description d)),
                           (''long_description'', py_opt_str (long_description d)), (''params'', PyList os)]) \<and>
            list_all2 (\<lambda>p o'. \<exists>obj. o' = PyDict obj \<and>
               map fst obj = [''arg_name'', ''description'', ''is_optional'', ''type_name'', ''input_type'', ''values''] @
                             (if default p = None then [] else [''default'']) \<and>
               map_of obj ''arg_name'' = Some (PyStr (arg_name p)) \<and>
               map_of obj ''input_type'' = Some (PyStr (input_type p)) \<and>
               map_of obj ''values'' = Some (case param_values p of None \<Rightarrow> PyNone | Some vs \<Rightarrow> PyList (map PyStr vs)) \<and>
               map_option Inr (map_of obj ''default'') = map_option (wc_eval c) (default p)) (params d) os"
proof -
  obtain os where os: "param_objs c (params d) = Inr os" using param_objs_ok [OF assms(2)] by blast
  have "list_all2 (\<lambda>p o'. \<exists>obj. param_obj c p = Inr obj \<and> o' = PyDict obj) (params d) os"
    using os param_objs_Inr by blast
  then have rel: "list_all2 (\<lambda>p o'. \<exists>obj. o' = PyDict obj \<and>
               map fst obj = [''arg_name'', ''description'', ''is_optional'', ''type_name'', ''input_type'', ''values''] @
                             (if default p = None then [] else [''default'']) \<and>
               map_of obj ''arg_name'' = Some (PyStr (arg_name p)) \<and>
               map_of obj ''input_type'' = Some (PyStr (input_type p)) \<and>
               map_of obj ''values'' = Some (case param_values p of None \<Rightarrow> PyNone | Some vs \<Rightarrow> PyList (map PyStr vs)) \<and>
               map_option Inr (map_of obj ''default'') = map_option (wc_eval c) (default p)) (params d) os"
    by (rule list_all2_mono) (auto dest: param_obj_Inr)
  from assms(1) os have "get_function_doc c (PyStr n) =
      Inr (PyDict [(''short_description'', py_opt_str (short_description d)),
                   (''long_description'', py_opt_str (long_description d)), (''params'', PyList os)])"
    by (simp add: get_function_doc_def py_dict_lookup_def dict_getitem_def)
  with rel show ?thesis by blast
qed

theorem get_function_doc_params_witness:
  "get_function_doc demo_web_config (PyStr ''test_params'') =
     Inr (PyDict [(''short_description'', PyStr ''test_params function''),
                  (''long_description'', PyStr ''long descr test_params''),
                  (''params'', PyList
                     [PyDict [(''arg_name'', PyStr ''a''), (''description'', PyStr ''descr a''),
                              (''is_optional'', PyBool False), (''type_name'', PyStr ''str''),
                              (''input_type'', PyStr ''text''), (''values'', PyNone)],
                      PyDict [(''arg_name'', PyStr ''b''), (''description'', PyStr ''descr b. Defaults to True.''),
                              (''is_optional'', PyBool True), (''type_name'', PyStr ''bool''),
                              (''input_type'', PyStr ''checkbox''), (''values'', PyNone),
                              (''default'', PyBool True)]])])"
proof -
  let ?d = "the (map_of test_functions_doc ''test_params'')"
  have h1: "map_of (wc_functions_doc demo_web_config) ''test_params'' = Some ?d"
    by (simp add: demo_web_config_def test_functions_doc_def)
  have h2: "\<forall>p \<in> set (params ?d). \<forall>x. default p = Some x \<longrightarrow> (\<exists>v. wc_eval demo_web_config x = Inr v)"
    by (simp add: demo_web_config_def test_functions_doc_def test_docs py_literal_eval_def)
  from get_function_doc_params [OF h1 h2] obtain os where
    "get_function_doc demo_web_config (PyStr ''test_params'') =
       Inr (PyDict [(''short_description'', py_opt_str (short_description ?d)),
                    (''long_description'', py_opt_str (long_description ?d)), (''params'', PyList os)])"
    by blast
  moreover have "os = [PyDict [(''arg_name'', PyStr ''a''), (''description'', PyStr ''descr a''),
                              (''is_optional'', PyBool False), (''type_name'', PyStr ''str''),
                              (''input_type'', PyStr ''text''), (''values'', PyNone)],
                      PyDict [(''arg_name'', PyStr ''b''), (''description'', PyStr ''descr b. Defaults to True.''),
                              (''is_optional'', PyBool True), (''type_name'', PyStr ''bool''),
                              (''input_type'', PyStr ''checkbox''), (''values'', PyNone),
                              (''default'', PyBool True)]]"
    using calculation by (simp add: web_eval test_docs param_obj_def py_literal_eval_def)
  ultimately show ?thesis by (simp add: test_functions_doc_def py_opt_str_def)
qed

text \<open>C25: an error of \<open>eval\<close> on a default is not caught: fetching the
  schema fails with the error of the first parameter whose default does not
  evaluate.\<close>

theorem get_function_doc_eval_error:
  assumes "map_of (wc_functions_doc c) n = Some d" and "params d = pre @ p # post"
    and "\<forall>q \<in> set pre. \<forall>x. default q = Some x \<longrightarrow> (\<exists>v. wc_eval c x = Inr v)"
    and "default p = Some x" and "wc_eval c x = Inl e"
  shows "get_function_doc c (PyStr n) = Inl e"
proof -
  have "\<forall>q \<in> set pre. \<exists>obj. param_obj c q = Inr obj" using assms(3) param_obj_ok by blast
  moreover have "param_obj c p = Inl e" using assms(4,5) by (simp add: param_obj_def Let_def)
  ultimately have "param_objs c (params d) = Inl e" unfolding assms(2) by (rule param_objs_first_error)
  with assms(1) show ?thesis by (simp add: get_function_doc_def py_dict_lookup_def dict_getitem_def)
qed

theorem get_function_doc_eval_error_witness:
  "get_function_doc (demo_web_config\<lparr>wc_functions_doc := [(''f'', bad_default_doc)]\<rparr>) (PyStr ''f'') =
     Inl (EvalError ''os.getcwd()'')"
proof -
  let ?c = "demo_web_config\<lparr>wc_functions_doc := [(''f'', bad_default_doc)]\<rparr>"
  have h1: "map_of (wc_functions_doc ?c) ''f'' = Some bad_default_doc" by simp
  have h2: "params bad_default_doc = [with_widget test_params_a ''descr a'' ''text'' None] @
      (with_widget test_params_b ''descr b'' ''checkbox'' None)\<lparr>default := Some ''os.getcwd()''\<rparr> # []"
    by (simp add: bad_default_doc_def)
  have h3: "\<forall>q \<in> set [with_widget test_params_a ''descr a'' ''text'' None]. \<forall>x. default q = Some x \<longrightarrow> (\<exists>v. wc_eval ?c x = Inr v)"
    by (simp add: test_docs)
  have h4: "default ((with_widget test_params_b ''descr b'' ''checkbox'' None)\<lparr>default := Some ''os.getcwd()''\<rparr>) = Some ''os.getcwd()''"
    by simp
  have h5: "wc_eval ?c ''os.getcwd()'' = Inl (EvalError ''os.getcwd()'')"
    by (simp add: demo_web_config_def py_literal_eval_def)
  from get_function_doc_eval_error [OF h1 h2 h3 h4 h5] show ?thesis .
qed

text \<open>C27: a session changes the process logger only by attaching the web
  handler: in every state it reaches, the logger's level and its other
  handlers, in order, are those it started with.\<close>

theorem web_session_frame:
  assumes "web_reach c (start_web_app c lg) s"
  shows "logger_level (ws_logger s) = logger_level lg \<and>
         [h \<leftarrow> logger_handlers (ws_logger s). \<not> same_handler_type h (LogHandlerWeb 0)] =
         [h \<leftarrow> logger_handlers lg. \<not> same_handler_type h (LogHandlerWeb 0)]"
  using web_reach_level [OF assms] web_reach_other_handlers [OF assms] by (simp add: start_web_app_def)

theorem web_session_frame_witness:
  "logger_level (ws_logger (fst (web_step demo_web_config
      (start_web_app demo_web_config \<lparr>logger_level = INFO, logger_handlers = [OtherHandler ''stderr''], logger_ancestor_levels = [WARNING]\<rparr>)
      (LaunchFunction 0 [PyStr ''test_noparam''] [])))) = INFO \<and>
   [h \<leftarrow> logger_handlers (ws_logger (fst (web_step demo_web_config
      (start_web_app demo_web_config \<lparr>logger_level = INFO, logger_handlers = [OtherHandler ''stderr''], logger_ancestor_levels = [WARNING]\<rparr>)
      (LaunchFunction 0 [PyStr ''test_noparam''] [])))). \<not> same_handler_type h (LogHandlerWeb 0)] =
   [OtherHandler ''stderr'']"
proof -
  let ?lg = "\<lparr>logger_level = INFO, logger_handlers = [OtherHandler ''stderr''], logger_ancestor_levels = [WARNING]\<rparr>"
  let ?s0 = "start_web_app demo_web_config ?lg"
  let ?r = "LaunchFunction 0 [PyStr ''test_noparam''] []"
  have h: "web_reach demo_web_config ?s0 (fst (web_step demo_web_config ?s0 ?r))"
    by (rule web_reach.step [OF web_reach.start, of _ _ ?r _ "snd (web_step demo_web_config ?s0 ?r)"])
       (simp_all add: start_web_app_def)
  from web_session_frame [OF h] show ?thesis by simp
qed

lemma channel_view_append: "channel_view (xs @ ys) = channel_view xs @ channel_view ys"
  by (simp add: channel_view_def)

lemma channel_view_deliver:
  assumes "web_callbacks (logger_handlers lg) = [cb]"
  shows "channel_view (concat (map (deliver c t lg) lcs)) = channel_spec lg lcs"
  by (induction lcs) (auto simp: deliver_eq assms channel_view_def channel_spec_def event_of_def)

text \<open>C33: the interactive adapter refines the specification of its log
  channel: in every state of a session started on a logger without a web
  handler, launching a function of the program list appends to what the page
  sees exactly the report of the call, as \<open>channel_spec\<close> renders it.\<close>

theorem web_log_channel_refinement:
  assumes "web_reach c (start_web_app c lg) s" and "web_callbacks (logger_handlers lg) = []"
    and "map_of (wc_program_list c) n = Some f"
  shows "channel_view (ws_log (fst (web_step c s (LaunchFunction t (PyStr n # args) kwargs)))) =
           channel_view (ws_log s) @ channel_spec (ws_logger s) (reported (ws_logger s) (call_function f args kwargs))"
proof -
  let ?lg = "add_to_logger (LogHandlerWeb (wc_logcallback c)) (ws_logger s)"
  have inv: "session_inv c s" using web_reach_inv [OF assms(1) session_inv_start [OF assms(2)]] .
  have cb: "web_callbacks (logger_handlers ?lg) = [wc_logcallback c]" by (rule session_inv_attach [OF inv])
  have lvl: "logger_level ?lg = logger_level (ws_logger s)" by simp
  have spec: "channel_spec ?lg lcs = channel_spec (ws_logger s) lcs" for lcs
    by (simp add: channel_spec_def)
  have fm: "failure_message ?lg e = failure_message (ws_logger s) e" for e
    by (rule failure_message_level [OF lvl])
  show ?thesis
  proof (cases "call_function f args kwargs")
    case (Returned logs)
    with assms(3) have "ws_log (fst (web_step c s (LaunchFunction t (PyStr n # args) kwargs))) =
        ws_log s @ concat (map (deliver c t ?lg) logs)"
      by (simp add: launch_function_def Let_def py_dict_lookup_def dict_getitem_def)
    with Returned show ?thesis
      by (simp only: channel_view_append channel_view_deliver [OF cb] spec reported_def call_outcome.case)
  next
    case (RaisedExc logs e)
    with assms(3) have "ws_log (fst (web_step c s (LaunchFunction t (PyStr n # args) kwargs))) =
        ws_log s @ concat (map (deliver c t ?lg)
          (logs @ (if exc_is_exception e then [(CRITICAL, failure_message ?lg e)] else [])))"
      by (simp add: launch_function_def Let_def py_dict_lookup_def dict_getitem_def)
    with RaisedExc show ?thesis
      by (simp only: channel_view_append channel_view_deliver [OF cb] spec fm reported_def call_outcome.case)
  qed
qed

theorem web_log_channel_refinement_witness:
  "channel_view (ws_log (fst (web_step demo_web_config (start_web_app demo_web_config info_logger)
      (LaunchFunction 0 [PyStr ''test_err''] [])))) =
   [(''INFO'', False, ''called test_err''), (''CRITICAL'', True, exception_summary test_err_exception)]"
proof -
  have h1: "web_reach demo_web_config (start_web_app demo_web_config info_logger) (start_web_app demo_web_config info_logger)"
    by (rule web_reach.start)
  have h2: "web_callbacks (logger_handlers info_logger) = []" by (simp add: info_logger_def)
  have h3: "map_of (wc_program_list demo_web_config) ''test_err'' = Some test_err"
    by (simp add: demo_web_config_def test_program_list_def)
  from web_log_channel_refinement [OF h1 h2 h3, of 0 "[]" "[]"] show ?thesis
    by (simp add: start_web_app_def channel_view_def channel_spec_def reported_def call_function_def
        bind_call_def test_err_def test_err_exception_def info_logger_def failure_message_def level_name_def
        effective_level_def INFO_def DEBUG_def CRITICAL_def ERROR_def)
qed

lemma web_step_alive:
  "web_step c s r = (s', a) \<Longrightarrow> ws_alive s' = (ws_alive s \<and> \<not> request_exits c r)"
  by (cases r) (auto simp: close_callback_def dest: launch_function_alive)

text \<open>C34: a running session answers each request up to and including the first
  one that ends the process (a close, or a target that raises an exception not
  derived from \<open>Exception\<close>) and none after it; it is still running afterwards
  exactly when no request of the sequence ends it.\<close>

theorem web_run_serves_all:
  assumes "ws_alive s"
  shows "length (snd (web_run c s rs)) = min (length rs) (Suc (length (takeWhile (\<lambda>r. \<not> request_exits c r) rs))) \<and>
         ws_alive (fst (web_run c s rs)) = (\<not> list_ex (request_exits c) rs)"
  using assms
proof (induction rs arbitrary: s)
  case (Cons r rs)
  obtain s' a where st: "web_step c s r = (s', a)" by fastforce
  have alive: "ws_alive s' = (\<not> request_exits c r)" using web_step_alive [OF st] Cons.prems by simp
  show ?case
  proof (cases "request_exits c r")
    case True
    have "web_run c s' rs = (s', [])" using alive True by (cases rs) simp_all
    with Cons.prems st True alive show ?thesis by simp
  next
    case False
    with Cons.IH [of s'] alive Cons.prems st show ?thesis by (auto split: prod.splits)
  qed
qed simp

theorem web_run_serves_all_witness:
  "length (snd (web_run (demo_web_config\<lparr>wc_program_list := [(''quit'', quit_function)]\<rparr>)
      (start_web_app demo_web_config info_logger)
      [FunctionList, LaunchFunction 0 [PyStr ''quit''] [], FunctionList])) = 2 \<and>
   \<not> ws_alive (fst (web_run (demo_web_config\<lparr>wc_program_list := [(''quit'', quit_function)]\<rparr>)
      (start_web_app demo_web_config info_logger)
      [FunctionList, LaunchFunction 0 [PyStr ''quit''] [], FunctionList]))"
proof -
  let ?c = "demo_web_config\<lparr>wc_program_list := [(''quit'', quit_function)]\<rparr>"
  let ?rs = "[FunctionList, LaunchFunction 0 [PyStr ''quit''] [], FunctionList]"
  have h1: "ws_alive (start_web_app demo_web_config info_logger)" by (simp add: start_web_app_def)
  have ex: "request_exits ?c (LaunchFunction 0 [PyStr ''quit''] [])"
    by (simp add: py_dict_lookup_def dict_getitem_def quit_function_def system_exit_def call_function_def bind_call_def)
  then have "takeWhile (\<lambda>r. \<not> request_exits ?c r) ?rs = [FunctionList]" by simp
  moreover have "list_ex (request_exits ?c) ?rs" using ex by simp
  ultimately show ?thesis using web_run_serves_all [OF h1, of ?c ?rs] by simp
qed

end
