(* ===== verification/Spec2Isabelle.thy ===== *)
theory Spec2Isabelle
  imports Web_Launcher
begin

text \<open>
  \<^bold>\<open>A model of autoui.\<close> \<open>src/autoui\<close> derives a command-line, a JSON-file and
  a browser interface for plain Python functions from their Google-style
  docstrings. \<open>launch\<close> (\<open>src/autoui/launcher.py\<close>) builds a schema of every
  function with \<open>parse_function_doc\<close> (\<open>src/autoui/lib/doc_function.py\<close>),
  registers the selector mode \<open>gui\<close> and the direct modes \<open>cli\<close> and \<open>json\<close> as
  argparse sub-parsers, parses the command line and dispatches to the mode's
  callback. The \<open>gui\<close> callback starts the eel session of
  \<open>src/autoui/lib/web_launcher.py\<close>, which serves the browser and streams the
  process logger to it through \<open>LogHandlerWeb\<close> (\<open>src/autoui/lib/web_logger.py\<close>,
  with \<open>src/autoui/lib/utils.py\<close>). \<open>src/test.py\<close> is the example program.

  \<^bold>\<open>Theories.\<close>
  \<^item> \<open>Prelude\<close>: Python values (\<open>pyval\<close>), exceptions and the error type
    \<open>py_error\<close>; results are \<open>py_error + 'a\<close>, so every \<open>raise\<close> of the sources is
    a value. It also has the \<open>str\<close> methods the sources call, and dictionaries
    as association lists in insertion order.
  \<^item> \<open>Regex_Search\<close>, \<open>Regex_Sub\<close>: the three compiled patterns of
    \<open>doc_function.py\<close>, as matchers that follow the backtracking order of
    Python's \<open>re\<close>. They give \<open>re.search\<close> (leftmost match) and \<open>re.sub\<close>, a
    \<open>function\<close> whose termination is proved because every match consumes input.
  \<^item> \<open>Directive_Removal\<close>: a reference for the directive patterns that does
    not follow the engine (\<open>has_directive\<close>: an opening token, a non-empty
    group on one line, a closing token). The engine's search agrees with it.
    \<open>re.sub\<close> with a directive pattern leaves no directive of its keyword: a
    match runs to the last closing token of its line, and nothing to its left
    opens a directive.
  \<^item> \<open>Doc_Function\<close>: \<open>parse_function_doc\<close>, the DocSchema extractor.
    \<open>process_param\<close> is the loop body, \<open>process_params\<close> the loop and
    \<open>doc_mismatch\<close> the diagnostic lists. The parsed docstring (the record
    \<open>docstring\<close>) and \<open>getfullargspec(f).args\<close> are inputs. The record extension
    \<open>param_spec\<close> is the parameter after the code has added \<open>input_type\<close> and
    \<open>values\<close>.
  \<^item> \<open>Web_Logger\<close>: \<open>convert_date_to_string\<close>, \<open>LogHandlerWeb.emit\<close> and
    \<open>add_to_logger\<close>, with the part of \<open>logging\<close> they rely on: a logger's
    effective-level filter and its list of handlers.
  \<^item> \<open>Program\<close>: exposed functions as records (parameters with defaults, the
    docstring, and a body that logs and then returns or raises). Python's
    argument binding is \<open>bind_call\<close>, with its \<open>TypeError\<close>s. This theory also
    holds the three functions of \<open>src/test.py\<close>.
  \<^item> \<open>Argparse\<close>: the behaviour of argparse that \<open>launch\<close> depends on: defaults,
    \<open>store\<close>/\<open>store_true\<close>/\<open>store_false\<close>, positionals in order, option strings
    and their destinations, sub-parsers whose namespace is copied onto the
    parent's, and usage errors as \<open>ArgparseError\<close>. It is modelled from
    argparse's documented behaviour, not mapped to the sources.
  \<^item> \<open>Launcher\<close>: \<open>cli_launcher\<close> (\<open>cli_argument\<close>, \<open>cli_commands\<close>, \<open>invoke\<close>),
    \<open>json_launcher\<close> (\<open>json_commands\<close>, \<open>run_direct\<close>, \<open>drop_empty_strings\<close>),
    \<open>gui_launcher\<close> (\<open>run_selector\<close>), \<open>_pop_namespace_item\<close> and \<open>launch\<close>.
    The result of \<open>launch\<close> is a \<open>launch_outcome\<close>: the arguments of
    \<open>start_web_app\<close>, or the call made in a direct mode. \<open>eval\<close> and the JSON
    file system are the record \<open>launch_env\<close>.
  \<^item> \<open>Web_Launcher\<close>: \<open>start_web_app\<close> as a session. \<open>web_config\<close> is what the
    session keeps fixed: the program list, the schemas, and the environment
    (\<open>eel.logcallback\<close>, \<open>localtime\<close>, \<open>eval\<close>, \<open>format_stack\<close>).
    \<open>web_session\<close> is the process logger, the events sent to the page, stdout,
    and whether the process is running. Each exposed function
    (\<open>launch_function\<close>, \<open>get_function_doc\<close>, \<open>function_list\<close>) and
    \<open>close_callback\<close> is one definition. \<open>web_step\<close> is one request of
    \<open>ui_request\<close>, \<open>web_run\<close> serves a sequence of requests until the process
    exits (\<open>request_exits\<close> says which requests end it), and \<open>web_reach\<close> is
    the inductive set of reachable states.

  \<^bold>\<open>What is proved\<close> (the claims C1--C34, in the order of PROJECT.json):
  \<^item> The extractor (C1--C9):
    \<^item> success and the order of parameters;
    \<^item> the three diagnostic lists of a mismatch, the third one exactly the
      differing pairs at common positions;
    \<^item> when the lists are all empty: exactly when the names agree as sets
      and one list is a prefix of the other;
    \<^item> the default widget; select without or with values;
    \<^item> the test of line 43, which is a substring test, for every widget name;
    \<^item> choices round-trip through \<open>split\<close>/\<open>join\<close>.
  \<^item> The CLI and JSON adapters and the dispatcher (C10--C19):
    \<^item> the boolean flag inversion, positional order, the empty-string filter
      of the JSON mode;
    \<^item> end to end through \<open>launch\<close>, for every program list: \<open>json NAME PATH\<close>
      calls the function with the file's non-empty entries; \<open>cli NAME\<close> calls
      a function without parameters with no argument and lets its exception
      out; \<open>gui\<close> runs the selector callback;
    \<^item> two defects, in general form: a parameter named \<open>program_name\<close>
      redirects the dispatch, and a parameter with a leading underscore gets a
      destination its function does not accept;
    \<^item> option and destination round-trip; \<open>_pop_namespace_item\<close>.
  \<^item> The session (C20--C27):
    \<^item> invariants over \<open>web_reach\<close>, by rule induction: at most one web
      handler, events attributed to \<open>eel.logcallback\<close>, and the logger's level
      and other handlers unchanged;
    \<^item> an exception of the target that derives from \<open>Exception\<close> is caught and
      logged as the last event, the traceback when the logger's own level is
      \<open>DEBUG\<close>;
    \<^item> the errors that are not caught (unknown name, failed \<open>eval\<close> of a
      default);
    \<^item> the shape of the reply of \<open>get_function_doc\<close>;
    \<^item> close ends the session;
    \<^item> composed with \<open>launch\<close>: the function list of the session \<open>launch\<close>
      starts covers the program list.
  \<^item> The log handler (C28--C29): attaching a handler is idempotent; the
    timestamp is the year's digits and 15 more characters.
  \<^item> The extractor's guarantees (C30--C32): every schema parameter is well
    formed (\<open>param_wf\<close>); the engine's directive search agrees with the
    reference; the consumed directive is gone from the kept description. Two
    lemmas of \<open>Doc_Function\<close> (\<open>select_type_residue\<close>,
    \<open>non_select_values_kept\<close>) are counterexamples to the specification's
    "directives are fully removed".
  \<^item> The log channel (C33), as a refinement: what the page sees after a launch
    is the abstract report (\<open>reported\<close>, rendered by \<open>channel_spec\<close>), each
    message exactly once.
  \<^item> Liveness (C34): a running session answers each request up to and
    including the first that ends the process (\<open>request_exits\<close>: a close, or
    a target raising an exception that does not derive from \<open>Exception\<close>),
    and none after it.

  \<^bold>\<open>Choices.\<close>
  \<^item> Argparse name maps are last-wins, as before Python 3.11.
  \<^item> An exception records whether its class derives from \<open>Exception\<close>
    (\<open>exc_is_exception\<close>). Line 28 of \<open>web_launcher.py\<close> catches those; any
    other (\<open>SystemExit\<close> from \<open>sys.exit()\<close>, \<open>KeyboardInterrupt\<close>) leaves the
    exposed function, and gevent ends the process with it.
  \<^item> A logger has its own level, its handlers and the levels of its
    ancestors. Records are filtered by the effective level
    (\<open>getEffectiveLevel\<close>); line 29 tests the logger's own level, as the code
    does.
  \<^item> \<open>strftime\<close> is glibc's: \<open>%Y\<close> is not padded, the other fields have two
    digits.
  \<^item> The records a request logs are all created at the time the request
    carries.
  \<^item> eel serves one request at a time, so the session is a sequence of steps.
  \<^item> No fuel is needed in the model. Every loop is structural recursion,
    except \<open>re_sub\<close>, whose termination is proved with the length of the text
    still to scan as the measure, because every match consumes input.

  \<^bold>\<open>Not modelled.\<close>
  \<^item> \<open>src/setup.py\<close> (packaging metadata).
  \<^item> The external collaborators:
    \<^item> \<open>docstring_parser\<close> and \<open>inspect\<close>, whose results are inputs;
    \<^item> eel's transport and the browser page with its JavaScript;
    \<^item> \<open>json.loads\<close> and the file system (\<open>env_read_json\<close>);
    \<^item> \<open>eval\<close>, a parameter;
    \<^item> \<open>traceback.format_exception\<close>, whose text is the \<open>exc_trace\<close> an
      exception carries (\<open>exception_detail\<close> returns it);
    \<^item> the parts of \<open>logging\<close> beyond one logger's effective level and
      handlers: \<open>logging.disable\<close>, the handlers of ancestor loggers a record
      propagates to, the root's last-resort handler.
\<close>

end
